(* ===== verification/Prelude.thy ===== *)
theory Prelude
  imports Main "HOL-Library.Sublist" "HOL-Library.Word"
begin

text \<open>
  What every component of the development shares: the named collections of the library and
  generic facts about prefixes, \<^const>\<open>take\<close> and \<^const>\<open>drop\<close>.

  A Go string is a sequence of bytes and HOL's \<^typ>\<open>char\<close> is an 8-bit value, so a Go string is a
  HOL \<^typ>\<open>string\<close>, with \<open>len\<close> being \<^const>\<open>length\<close>.
\<close>

named_theorems go_defs \<open>definitions of the Go library operations, for evaluation\<close>
named_theorems keeps_intros \<open>introduction rules for preservation of a state predicate\<close>
named_theorems url_simps \<open>characteristic equations of URL construction and splitting\<close>

type_synonym u8 = "8 word"
type_synonym u32 = "32 word"
type_synonym u64 = "64 word"

section \<open>Prefixes and suffixes\<close>

lemma prefix_take_drop: "prefix p s \<Longrightarrow> p @ drop (length p) s = s"
  by (auto elim: prefixE)

lemma prefix_append_iff_same: "prefix (p @ a) (p @ b) \<longleftrightarrow> prefix a b"
  by simp

lemma prefix_hd_mem:
  assumes "prefix p (a @ b)" and "p \<noteq> []" and "hd p \<notin> set a" shows "a = []"
proof (cases a)
  case (Cons x xs)
  with assms(1,2) have "hd p = x" by (cases p) auto
  with assms(3) Cons show ?thesis by simp
qed simp

lemma dropWhile_append_all: "\<forall>x\<in>set xs. P x \<Longrightarrow> dropWhile P (xs @ ys) = dropWhile P ys"
  by (induction xs) auto

lemma take_length_append_eq [simp]: "take (length a) (a @ b) = a"
  by simp

lemma find_measure_pos_iff:
  "\<forall>r\<in>set xs. 0 < f r \<Longrightarrow>
    0 < (case find P xs of Some r \<Rightarrow> f r | None \<Rightarrow> (0::nat)) \<longleftrightarrow> (\<exists>r\<in>set xs. P r)"
  by (induction xs) auto

lemma map_option_Suc_eq_Some_iff:
  "map_option Suc x = Some n \<longleftrightarrow> (\<exists>m. x = Some m \<and> n = Suc m)"
  by (cases x) auto

end
