(* ===== verification/Log_Ring.thy ===== *)
theory Log_Ring
  imports Prelude
begin

text \<open>
  The ring buffer of recent log lines (\<open>log-buffer.go\<close>), and its refinement of the abstract contents:
  the last \<open>size\<close> lines logged.
\<close>

record log_ring =
  lr_buf :: "string list"
  lr_size :: nat
  lr_next :: nat
  lr_full :: bool

definition newLogRing :: "nat \<Rightarrow> log_ring" where
  "newLogRing n = \<lparr>lr_buf = replicate n [], lr_size = n, lr_next = 0, lr_full = False\<rparr>"

text \<open>A formatted entry: the level is padded on the right to five columns.\<close>

definition pad_right :: "nat \<Rightarrow> string \<Rightarrow> string" where
  "pad_right n s = s @ replicate (n - length s) CHR '' ''"

definition log_line :: "string \<Rightarrow> string \<Rightarrow> string \<Rightarrow> string" where
  "log_line time level msg = time @ '' '' @ pad_right 5 level @ '' '' @ msg"

text \<open>\<open>Fire\<close>; \<^const>\<open>None\<close> is the panic of an index out of range, or of a division by zero.\<close>

definition fire :: "log_ring \<Rightarrow> string \<Rightarrow> log_ring option" where
  "fire lr line =
     (if \<not> lr_next lr < length (lr_buf lr) \<or> lr_size lr = 0 then None
      else let nxt = (lr_next lr + 1) mod lr_size lr in
        Some (lr\<lparr>lr_buf := (lr_buf lr)[lr_next lr := line], lr_next := nxt, lr_full := (nxt = 0 \<or> lr_full lr)\<rparr>))"

definition ring_lines :: "log_ring \<Rightarrow> string list" where
  "ring_lines lr =
     (if \<not> lr_full lr then take (lr_next lr) (lr_buf lr)
      else drop (lr_next lr) (lr_buf lr) @ take (lr_next lr) (lr_buf lr))"

fun fire_all :: "log_ring \<Rightarrow> string list \<Rightarrow> log_ring option" where
  "fire_all lr [] = Some lr"
| "fire_all lr (l # ls) = (case fire lr l of None \<Rightarrow> None | Some lr' \<Rightarrow> fire_all lr' ls)"

section \<open>The abstraction\<close>

text \<open>A ring holds the most recent lines of a history.\<close>

definition recent :: "nat \<Rightarrow> string list \<Rightarrow> string list" where
  "recent n h = drop (length h - n) h"

definition ring_rel :: "nat \<Rightarrow> log_ring \<Rightarrow> string list \<Rightarrow> bool" where
  "ring_rel n lr h \<longleftrightarrow> 0 < n \<and> lr_size lr = n \<and> length (lr_buf lr) = n \<and>
     lr_next lr = length h mod n \<and> (lr_full lr \<longleftrightarrow> n \<le> length h) \<and> ring_lines lr = recent n h"

lemma ring_rel_new: "0 < n \<Longrightarrow> ring_rel n (newLogRing n) []"
  by (simp add: ring_rel_def newLogRing_def ring_lines_def recent_def)

lemma recent_snoc:
  assumes "0 < n"
  shows "recent n (h @ [x]) = (if length h < n then recent n h @ [x] else tl (recent n h) @ [x])"
proof (cases "length h < n")
  case False
  then have "length (h @ [x]) - n = Suc (length h - n)" by simp
  with False assms show ?thesis by (simp add: recent_def tl_drop drop_Suc)
qed (simp add: recent_def)

lemma ring_rel_fire:
  assumes "ring_rel n lr h"
  shows "\<exists>lr'. fire lr x = Some lr' \<and> ring_rel n lr' (h @ [x])"
proof -
  define i where "i = lr_next lr"
  define b where "b = lr_buf lr"
  have n: "0 < n" "lr_size lr = n" and b: "length b = n" and i: "i = length h mod n" "i < n"
    and full: "lr_full lr \<longleftrightarrow> n \<le> length h" and ls: "ring_lines lr = recent n h"
    using assms by (auto simp: ring_rel_def i_def b_def)
  let ?nxt = "(i + 1) mod n"
  let ?lr = "lr\<lparr>lr_buf := b[i := x], lr_next := ?nxt, lr_full := (?nxt = 0 \<or> lr_full lr)\<rparr>"
  have f: "fire lr x = Some ?lr"
    using b i n by (simp add: fire_def Let_def i_def b_def)
  have nxt: "?nxt = length (h @ [x]) mod n"
    using i by (simp add: mod_Suc_eq)
  have split: "b[i := x] = take i b @ x # drop (Suc i) b"
    using i(2) b by (simp add: upd_conv_take_nth_drop)
  have full': "?nxt = 0 \<or> lr_full lr \<longleftrightarrow> n \<le> length (h @ [x])"
  proof (cases "length h < n")
    case True
    then show ?thesis using i full n by (auto simp: mod_Suc)
  qed (use full in auto)
  have "ring_lines ?lr = recent n (h @ [x])"
  proof (cases "length h < n")
    case True
    then have ih: "i = length h" and nf: "\<not> lr_full lr" using i full by auto
    have old: "take i b = recent n h" using ls nf by (simp add: ring_lines_def i_def b_def)
    show ?thesis
    proof (cases "Suc i = n")
      case True
      then have "?nxt = 0" "drop (Suc i) b = []" using b by simp_all
      then show ?thesis using old \<open>length h < n\<close> n(1) by (simp add: ring_lines_def split recent_snoc)
    next
      case False
      then have "?nxt = Suc i" using i(2) by simp
      moreover from this have "take (Suc i) (b[i := x]) = take i b @ [x]"
        using i(2) b by (simp add: split)
      ultimately show ?thesis using old n(1) nf True by (simp add: ring_lines_def recent_snoc)
    qed
  next
    case False
    then have fl: "lr_full lr" using full by simp
    then have old: "drop i b @ take i b = recent n h" using ls by (simp add: ring_lines_def i_def b_def)
    have tl_old: "tl (drop i b @ take i b) = drop (Suc i) b @ take i b"
      using i(2) b by (simp add: drop_Suc tl_drop [symmetric] tl_append split: list.split)
    show ?thesis
    proof (cases "Suc i = n")
      case True
      then have "?nxt = 0" "drop (Suc i) b = []" using b by simp_all
      then show ?thesis
        using old tl_old n(1) False fl by (simp add: ring_lines_def split recent_snoc)
    next
      case neq: False
      then have "?nxt = Suc i" using i(2) by simp
      moreover have "drop (Suc i) (b[i := x]) = drop (Suc i) b" "take (Suc i) (b[i := x]) = take i b @ [x]"
        using i(2) b by (simp_all add: split)
      ultimately show ?thesis
        using old tl_old n(1) False fl by (simp add: ring_lines_def recent_snoc)
    qed
  qed
  with n b nxt full' have "ring_rel n ?lr (h @ [x])" by (simp add: ring_rel_def)
  with f show ?thesis by blast
qed

lemma fire_all_rel: "ring_rel n lr h \<Longrightarrow> \<exists>lr'. fire_all lr ls = Some lr' \<and> ring_rel n lr' (h @ ls)"
proof (induction ls arbitrary: lr h)
  case (Cons l ls)
  from ring_rel_fire [OF Cons.prems, of l] obtain lr1 where
    "fire lr l = Some lr1" "ring_rel n lr1 (h @ [l])" by blast
  with Cons.IH [of lr1 "h @ [l]"] show ?case by auto
qed simp

section \<open>Property\<close>

text \<open>
  C19: the ring buffer implements ``the most recent lines''.  After any sequence of log calls on a
  buffer of positive size, no call panics and the lines served are exactly the last \<open>size\<close> lines
  logged, oldest first (all of them while the buffer has not wrapped around).
\<close>

theorem log_ring_serves_recent_lines:
  assumes "0 < n"
  shows "\<exists>lr. fire_all (newLogRing n) ls = Some lr \<and> ring_lines lr = drop (length ls - n) ls"
  using fire_all_rel [OF ring_rel_new [OF assms], of ls]
  by (auto simp: ring_rel_def recent_def)

lemma log_ring_serves_recent_lines_witness:
  "\<exists>lr. fire_all (newLogRing 2) [''a'', ''b'', ''c''] = Some lr \<and> ring_lines lr = [''b'', ''c'']"
  using log_ring_serves_recent_lines [of 2 "[''a'', ''b'', ''c'']"] by simp

text \<open>A buffer of size zero cannot be written to.\<close>

lemma fire_size_zero: "fire (newLogRing 0) l = None"
  by (simp add: fire_def newLogRing_def)

end
