(* ===== verification/Go_Strings.thy ===== *)
theory Go_Strings
  imports Prelude
begin

text \<open>
  The operations of Go's \<open>strings\<close>, \<open>path\<close> and \<open>unicode\<close> packages that the gateway uses, on byte
  strings.  Go decodes UTF-8 only in \<open>TrimSpace\<close>, \<open>Fields\<close>, \<open>IndexFunc\<close>, \<open>ToLower\<close> and
  \<open>EqualFold\<close>; there the model works on the UTF-8 encodings of the runes that matter: the encodings
  of the 25 white-space runes, and the two non-ASCII runes that fold to an ASCII letter.
\<close>

section \<open>Searching and cutting\<close>

abbreviation has_prefix :: "string \<Rightarrow> string \<Rightarrow> bool" where
  "has_prefix s p \<equiv> prefix p s"

abbreviation has_suffix :: "string \<Rightarrow> string \<Rightarrow> bool" where
  "has_suffix s p \<equiv> suffix p s"

definition trim_prefix :: "string \<Rightarrow> string \<Rightarrow> string" where
  "trim_prefix s p = (if has_prefix s p then drop (length p) s else s)"

definition trim_suffix :: "string \<Rightarrow> string \<Rightarrow> string" where
  "trim_suffix s p = (if has_suffix s p then take (length s - length p) s else s)"

text \<open>\<open>strings.CutPrefix\<close>: \<^const>\<open>None\<close> when the prefix is absent.\<close>

definition cut_prefix :: "string \<Rightarrow> string \<Rightarrow> string option" where
  "cut_prefix s p = (if has_prefix s p then Some (drop (length p) s) else None)"

text \<open>\<open>strings.Index\<close> and \<open>strings.LastIndex\<close>: \<^const>\<open>None\<close> is Go's -1.\<close>

fun index_of :: "string \<Rightarrow> string \<Rightarrow> nat option" where
  "index_of [] sub = (if sub = [] then Some 0 else None)"
| "index_of (c # cs) sub =
     (if prefix sub (c # cs) then Some 0 else map_option Suc (index_of cs sub))"

fun last_index :: "string \<Rightarrow> string \<Rightarrow> nat option" where
  "last_index [] sub = (if sub = [] then Some 0 else None)"
| "last_index (c # cs) sub =
     (case last_index cs sub of
        Some i \<Rightarrow> Some (Suc i)
      | None \<Rightarrow> if prefix sub (c # cs) then Some 0 else None)"

definition index_byte :: "string \<Rightarrow> char \<Rightarrow> nat option" where
  "index_byte s c = index_of s [c]"

definition contains :: "string \<Rightarrow> string \<Rightarrow> bool" where
  "contains s sub \<longleftrightarrow> index_of s sub \<noteq> None"

text \<open>\<open>strings.Cut\<close>: the text before and after the first separator, and whether it was found.\<close>

definition cut :: "string \<Rightarrow> string \<Rightarrow> string \<times> string \<times> bool" where
  "cut s sep = (case index_of s sep of
     Some i \<Rightarrow> (take i s, drop (i + length sep) s, True)
   | None \<Rightarrow> (s, [], False))"

text \<open>\<open>strings.Split\<close> at a single byte.\<close>

fun split_on :: "char \<Rightarrow> string \<Rightarrow> string list" where
  "split_on c [] = [[]]"
| "split_on c (x # xs) =
     (if x = c then [] # split_on c xs
      else case split_on c xs of w # ws \<Rightarrow> (x # w) # ws | [] \<Rightarrow> [[x]])"

text \<open>\<open>strings.TrimLeft\<close>, \<open>TrimRight\<close> and \<open>Trim\<close> with a cutset.\<close>

definition trim_left_set :: "char set \<Rightarrow> string \<Rightarrow> string" where
  "trim_left_set cs s = dropWhile (\<lambda>c. c \<in> cs) s"

definition trim_right_set :: "char set \<Rightarrow> string \<Rightarrow> string" where
  "trim_right_set cs s = rev (dropWhile (\<lambda>c. c \<in> cs) (rev s))"

definition trim_set :: "char set \<Rightarrow> string \<Rightarrow> string" where
  "trim_set cs s = trim_right_set cs (trim_left_set cs s)"

lemmas cut_defs [go_defs] = trim_prefix_def trim_suffix_def cut_prefix_def index_byte_def
  contains_def cut_def trim_left_set_def trim_right_set_def trim_set_def

lemma trim_prefix_append [simp]: "trim_prefix (p @ s) p = s"
  by (simp add: trim_prefix_def)

lemma cut_prefix_append [simp]: "cut_prefix (p @ s) p = Some s"
  by (simp add: cut_prefix_def)

lemma cut_prefix_eq_Some_iff: "cut_prefix s p = Some r \<longleftrightarrow> s = p @ r"
  by (auto simp: cut_prefix_def prefix_def)

lemma index_of_Some_prefix: "index_of s sub = Some i \<Longrightarrow> prefix sub (drop i s) \<and> i \<le> length s"
  by (induction s sub arbitrary: i rule: index_of.induct)
    (auto split: if_splits simp: map_option_Suc_eq_Some_iff)

lemma index_of_Some_split:
  assumes "index_of s sub = Some i" shows "s = take i s @ sub @ drop (i + length sub) s"
proof -
  from index_of_Some_prefix [OF assms] have "sub @ drop (length sub) (drop i s) = drop i s"
    using prefix_take_drop by blast
  then show ?thesis by (metis append_take_drop_id drop_drop add.commute)
qed

text \<open>
  A separator whose first byte does not occur before it is found at its first written position.
  This is the fact behind every URL round trip of the gateway.
\<close>

lemma index_of_append:
  "sep \<noteq> [] \<Longrightarrow> hd sep \<notin> set a \<Longrightarrow> index_of (a @ sep @ b) sep = Some (length a)"
proof (induction a)
  case Nil
  then show ?case by (cases sep) auto
next
  case (Cons x a)
  then have "\<not> prefix sep (x # a @ sep @ b)"
    by (cases sep) auto
  with Cons show ?case by simp
qed

lemma index_of_absent: "sep \<noteq> [] \<Longrightarrow> hd sep \<notin> set s \<Longrightarrow> index_of s sep = None"
  by (induction s) (cases sep; auto)+

lemma index_byte_append [simp]: "c \<notin> set a \<Longrightarrow> index_byte (a @ c # b) c = Some (length a)"
  using index_of_append [of "[c]" a b] by (simp add: index_byte_def)

lemma index_byte_absent [simp]: "c \<notin> set s \<Longrightarrow> index_byte s c = None"
  by (simp add: index_byte_def index_of_absent)

lemma index_byte_None_iff: "index_byte s c = None \<longleftrightarrow> c \<notin> set s"
  unfolding index_byte_def by (induction s) auto

lemma contains_byte_iff: "contains s [c] \<longleftrightarrow> c \<in> set s"
  using index_byte_None_iff [of s c] by (simp add: contains_def index_byte_def)

lemma index_of_found: "prefix sub t \<Longrightarrow> index_of (a @ t) sub \<noteq> None"
proof (induction a)
  case Nil
  then show ?case by (cases t) auto
qed auto

lemma contains_append: "contains (a @ sub @ b) sub"
  using index_of_found [of sub "sub @ b" a] by (simp add: contains_def)

lemma cut_append [url_simps]:
  "sep \<noteq> [] \<Longrightarrow> hd sep \<notin> set a \<Longrightarrow> cut (a @ sep @ b) sep = (a, b, True)"
  by (simp add: cut_def index_of_append)

lemma cut_absent [url_simps]: "sep \<noteq> [] \<Longrightarrow> hd sep \<notin> set s \<Longrightarrow> cut s sep = (s, [], False)"
  by (simp add: cut_def index_of_absent)

lemma cut_byte_append [url_simps]: "c \<notin> set a \<Longrightarrow> cut (a @ c # b) [c] = (a, b, True)"
  using cut_append [of "[c]" a b] by simp

lemma cut_eq_True_split: "cut s sep = (a, b, True) \<Longrightarrow> s = a @ sep @ b"
  using index_of_Some_split by (auto simp: cut_def split: option.splits)

lemma cut_eq_False_iff: "cut s sep = (a, b, False) \<longleftrightarrow> index_of s sep = None \<and> a = s \<and> b = []"
  by (auto simp: cut_def split: option.splits)

lemma split_on_ne [simp]: "split_on c s \<noteq> []"
  by (induction s) (auto split: list.splits)

lemma split_on_absent: "c \<notin> set s \<Longrightarrow> split_on c s = [s]"
  by (induction s) auto

lemma split_on_append: "c \<notin> set a \<Longrightarrow> split_on c (a @ c # b) = a # split_on c b"
  by (induction a) auto

lemma split_on_parts: "w \<in> set (split_on c s) \<Longrightarrow> c \<notin> set w"
  by (induction c s arbitrary: w rule: split_on.induct) (auto split: list.splits if_splits)

section \<open>White space and case\<close>

text \<open>The UTF-8 encodings of the runes of \<open>unicode.IsSpace\<close>.\<close>

definition space_runes :: "string list" where
  "space_runes =
     [[CHR 0x09], [CHR 0x0A], [CHR 0x0B], [CHR 0x0C], [CHR 0x0D], [CHR 0x20],
      [CHR 0xC2, CHR 0x85], [CHR 0xC2, CHR 0xA0], [CHR 0xE1, CHR 0x9A, CHR 0x80],
      [CHR 0xE2, CHR 0x80, CHR 0x80], [CHR 0xE2, CHR 0x80, CHR 0x81],
      [CHR 0xE2, CHR 0x80, CHR 0x82], [CHR 0xE2, CHR 0x80, CHR 0x83],
      [CHR 0xE2, CHR 0x80, CHR 0x84], [CHR 0xE2, CHR 0x80, CHR 0x85],
      [CHR 0xE2, CHR 0x80, CHR 0x86], [CHR 0xE2, CHR 0x80, CHR 0x87],
      [CHR 0xE2, CHR 0x80, CHR 0x88], [CHR 0xE2, CHR 0x80, CHR 0x89],
      [CHR 0xE2, CHR 0x80, CHR 0x8A], [CHR 0xE2, CHR 0x80, CHR 0xA8],
      [CHR 0xE2, CHR 0x80, CHR 0xA9], [CHR 0xE2, CHR 0x80, CHR 0xAF],
      [CHR 0xE2, CHR 0x81, CHR 0x9F], [CHR 0xE3, CHR 0x80, CHR 0x80]]"

text \<open>\<open>unicode.IsSpace(rune(b))\<close> for a single byte read as a Latin-1 rune.\<close>

definition is_space_byte :: "char \<Rightarrow> bool" where
  "is_space_byte c \<longleftrightarrow> c \<in> {CHR 0x09, CHR 0x0A, CHR 0x0B, CHR 0x0C, CHR 0x0D, CHR 0x20, CHR 0x85, CHR 0xA0}"

text \<open>The width of the white-space rune that a string starts (ends) with; 0 when it is none.\<close>

definition space_width :: "string \<Rightarrow> nat" where
  "space_width s = (case find (\<lambda>r. prefix r s) space_runes of Some r \<Rightarrow> length r | None \<Rightarrow> 0)"

definition space_width_end :: "string \<Rightarrow> nat" where
  "space_width_end s = (case find (\<lambda>r. suffix r s) space_runes of Some r \<Rightarrow> length r | None \<Rightarrow> 0)"

text \<open>\<open>strings.IndexFunc(s, unicode.IsSpace)\<close>.\<close>

fun index_space :: "string \<Rightarrow> nat option" where
  "index_space [] = None"
| "index_space (c # cs) = (if space_width (c # cs) > 0 then Some 0 else map_option Suc (index_space cs))"

function trim_space_left :: "string \<Rightarrow> string" where
  "trim_space_left s = (let n = space_width s in
     if n = 0 \<or> s = [] then s else trim_space_left (drop n s))"
  by pat_completeness auto
termination by (relation "measure length") auto

function trim_space_right :: "string \<Rightarrow> string" where
  "trim_space_right s = (let n = space_width_end s in
     if n = 0 \<or> s = [] then s else trim_space_right (take (length s - n) s))"
  by pat_completeness auto
termination by (relation "measure length") auto

declare trim_space_left.simps [simp del] trim_space_right.simps [simp del]

definition trim_space :: "string \<Rightarrow> string" where
  "trim_space s = trim_space_right (trim_space_left s)"

text \<open>\<open>strings.Fields\<close>: the maximal runs of non-space bytes.\<close>

function fields_from :: "string \<Rightarrow> string \<Rightarrow> string list" where
  "fields_from acc s = (case s of
     [] \<Rightarrow> (if acc = [] then [] else [rev acc])
   | c # cs \<Rightarrow> (if space_width s > 0
       then (if acc = [] then [] else [rev acc]) @ fields_from [] (drop (space_width s) s)
       else fields_from (c # acc) cs))"
  by pat_completeness auto
termination by (relation "measure (\<lambda>(acc, s). length s)") auto

declare fields_from.simps [simp del]

definition fields :: "string \<Rightarrow> string list" where
  "fields s = fields_from [] s"

definition is_upper_ascii :: "char \<Rightarrow> bool" where
  "is_upper_ascii c \<longleftrightarrow> 65 \<le> (of_char c :: nat) \<and> (of_char c :: nat) \<le> 90"

definition lower_byte :: "char \<Rightarrow> char" where
  "lower_byte c = (if is_upper_ascii c then char_of ((of_char c :: nat) + 32) else c)"

text \<open>
  \<open>strings.ToLower\<close> as far as ASCII output goes: ASCII letters, and the two runes whose lower case
  is ASCII (U+0130 and the Kelvin sign U+212A).  Other runes keep their bytes; no caller compares
  them.
\<close>

fun to_lower :: "string \<Rightarrow> string" where
  "to_lower [] = []"
| "to_lower (c # cs) =
     (if c = CHR 0xC4 \<and> prefix [CHR 0xB0] cs then CHR ''i'' # to_lower (drop 1 cs)
      else if c = CHR 0xE2 \<and> prefix [CHR 0x84, CHR 0xAA] cs then CHR ''k'' # to_lower (drop 2 cs)
      else lower_byte c # to_lower cs)"

text \<open>
  \<open>strings.EqualFold\<close>, exact when one side is ASCII, as at every call of the gateway: ASCII
  case folding plus the two runes that simple folding maps to ASCII (U+017F to s, U+212A to k).
\<close>

fun fold_norm :: "string \<Rightarrow> string" where
  "fold_norm [] = []"
| "fold_norm (c # cs) =
     (if c = CHR 0xC5 \<and> prefix [CHR 0xBF] cs then CHR ''s'' # fold_norm (drop 1 cs)
      else if c = CHR 0xE2 \<and> prefix [CHR 0x84, CHR 0xAA] cs then CHR ''k'' # fold_norm (drop 2 cs)
      else lower_byte c # fold_norm cs)"

definition equal_fold :: "string \<Rightarrow> string \<Rightarrow> bool" where
  "equal_fold s t \<longleftrightarrow> fold_norm s = fold_norm t"

lemmas space_defs [go_defs] = space_runes_def space_width_def space_width_end_def
  trim_space_def is_space_byte_def fields_def lower_byte_def is_upper_ascii_def equal_fold_def

lemma equal_fold_refl [simp]: "equal_fold s s"
  by (simp add: equal_fold_def)

subsection \<open>Bytes that cannot start a white-space rune\<close>

definition space_lead :: "char \<Rightarrow> bool" where
  "space_lead c \<longleftrightarrow> c \<in> hd ` set space_runes"

lemma space_lead_code [code, simp]:
  "space_lead c \<longleftrightarrow> c \<in> {CHR 0x09, CHR 0x0A, CHR 0x0B, CHR 0x0C, CHR 0x0D, CHR 0x20,
     CHR 0xC2, CHR 0xE1, CHR 0xE2, CHR 0xE3}"
  by (simp add: space_lead_def space_runes_def)

definition space_final :: "char \<Rightarrow> bool" where
  "space_final c \<longleftrightarrow> c \<in> last ` set space_runes"

lemma space_runes_ne: "r \<in> set space_runes \<Longrightarrow> r \<noteq> []"
  by (auto simp: space_runes_def)

lemma space_width_pos_iff: "space_width s > 0 \<longleftrightarrow> (\<exists>r\<in>set space_runes. prefix r s)"
  unfolding space_width_def
  by (rule find_measure_pos_iff) (simp add: space_runes_ne)

lemma space_width_end_pos_iff: "space_width_end s > 0 \<longleftrightarrow> (\<exists>r\<in>set space_runes. suffix r s)"
  unfolding space_width_end_def
  by (rule find_measure_pos_iff) (simp add: space_runes_ne)

lemma space_width_Nil [simp]: "space_width [] = 0"
  using space_width_pos_iff [of "[]"] space_runes_ne by auto

lemma space_width_lead: "\<not> space_lead c \<Longrightarrow> space_width (c # cs) = 0"
proof -
  assume c: "\<not> space_lead c"
  have "\<not> prefix r (c # cs)" if "r \<in> set space_runes" for r
  proof
    assume "prefix r (c # cs)"
    then have "hd r = c" using space_runes_ne [OF that] by (cases r) auto
    with that c show False unfolding space_lead_def by blast
  qed
  then show ?thesis using space_width_pos_iff [of "c # cs"] by auto
qed

lemma space_width_end_final: "\<not> space_final c \<Longrightarrow> space_width_end (cs @ [c]) = 0"
proof -
  assume c: "\<not> space_final c"
  have "\<not> suffix r (cs @ [c])" if "r \<in> set space_runes" for r
  proof
    assume "suffix r (cs @ [c])"
    then have "last r = c" using space_runes_ne [OF that]
      by (metis last_appendR last_snoc suffix_def)
    with that c show False unfolding space_final_def by blast
  qed
  then show ?thesis using space_width_end_pos_iff [of "cs @ [c]"] by auto
qed

lemma index_space_clean: "\<forall>c\<in>set s. \<not> space_lead c \<Longrightarrow> index_space s = None"
  by (induction s) (auto simp del: space_lead_code simp: space_width_lead)

lemma index_space_append:
  "\<forall>c\<in>set a. \<not> space_lead c \<Longrightarrow> space_width b > 0 \<Longrightarrow> index_space (a @ b) = Some (length a)"
proof (induction a)
  case Nil
  then show ?case by (cases b) auto
qed (auto simp del: space_lead_code simp: space_width_lead)

lemma trim_space_id:
  "space_width s = 0 \<Longrightarrow> space_width_end s = 0 \<Longrightarrow> trim_space s = s"
  by (simp add: trim_space_def trim_space_left.simps [of s] trim_space_right.simps [of s])

lemma trim_space_left_drops: "\<exists>n. trim_space_left s = drop n s"
proof (induction s rule: trim_space_left.induct)
  case (1 s)
  show ?case
  proof (cases "space_width s = 0 \<or> s = []")
    case True
    then have "trim_space_left s = drop 0 s"
      by (auto simp: trim_space_left.simps [of s])
    then show ?thesis by blast
  next
    case False
    then obtain n where "trim_space_left (drop (space_width s) s) = drop n (drop (space_width s) s)"
      using "1.IH" by blast
    with False show ?thesis
      by (auto simp: trim_space_left.simps [of s] Let_def)
  qed
qed

lemma trim_space_right_takes: "\<exists>n. trim_space_right s = take n s"
proof (induction s rule: trim_space_right.induct)
  case (1 s)
  show ?case
  proof (cases "space_width_end s = 0 \<or> s = []")
    case True
    then have "trim_space_right s = take (length s) s"
      by (auto simp: trim_space_right.simps [of s])
    then show ?thesis by blast
  next
    case False
    then obtain n where "trim_space_right (take (length s - space_width_end s) s)
        = take n (take (length s - space_width_end s) s)"
      using "1.IH" by blast
    with False show ?thesis
      by (auto simp: trim_space_right.simps [of s] Let_def)
  qed
qed

lemma set_trim_space: "set (trim_space s) \<subseteq> set s"
proof -
  obtain n m where "trim_space s = take n (drop m s)"
    using trim_space_left_drops [of s] trim_space_right_takes [of "trim_space_left s"]
    by (auto simp: trim_space_def)
  then show ?thesis using set_take_subset set_drop_subset by fastforce
qed

end
