(* ===== verification/Go_Netip.thy ===== *)
theory Go_Netip
  imports Go_Strings
begin

text \<open>
  Go's \<open>net/netip\<close>: \<open>ParseAddr\<close> for dotted IPv4, IPv6 with \<open>::\<close>, embedded IPv4 and a zone, and the
  classification predicates the SSRF guard uses.  Octets are 8-bit words and IPv6 groups 16-bit
  words.  Also \<open>strconv.Itoa\<close> for naturals.
\<close>

datatype ip_addr = V4 u8 u8 u8 u8 | V6 "16 word list" string

section \<open>Decimal numerals\<close>

definition digit_char :: "nat \<Rightarrow> char" where
  "digit_char d = char_of (d + 48)"

definition is_digit :: "char \<Rightarrow> bool" where
  "is_digit c \<longleftrightarrow> 48 \<le> (of_char c :: nat) \<and> (of_char c :: nat) \<le> 57"

definition digit_val :: "char \<Rightarrow> nat" where
  "digit_val c = of_char c - 48"

fun show_nat :: "nat \<Rightarrow> string" where
  "show_nat n = (if n < 10 then [digit_char n] else show_nat (n div 10) @ [digit_char (n mod 10)])"

declare show_nat.simps [simp del]

fun dec_value :: "nat \<Rightarrow> string \<Rightarrow> nat" where
  "dec_value acc [] = acc"
| "dec_value acc (c # cs) = dec_value (acc * 10 + digit_val c) cs"

lemma is_digit_digit_char [simp]: "d < 10 \<Longrightarrow> is_digit (digit_char d)"
  by (simp add: is_digit_def digit_char_def)

lemma digit_val_digit_char [simp]: "d < 10 \<Longrightarrow> digit_val (digit_char d) = d"
  by (simp add: digit_val_def digit_char_def)

lemma digit_char_eq_iff: "d < 10 \<Longrightarrow> e < 10 \<Longrightarrow> digit_char d = digit_char e \<longleftrightarrow> d = e"
  by (metis digit_val_digit_char)

lemma dec_value_append: "dec_value acc (s @ [c]) = dec_value acc s * 10 + digit_val c"
  by (induction s arbitrary: acc) auto

lemma dec_value_show_nat [simp]: "dec_value 0 (show_nat n) = n"
proof (induction n rule: show_nat.induct)
  case (1 n)
  then show ?case by (subst show_nat.simps) (auto simp: dec_value_append)
qed

lemma show_nat_digits: "\<forall>c\<in>set (show_nat n). is_digit c"
proof (induction n rule: show_nat.induct)
  case (1 n)
  then show ?case by (subst show_nat.simps) auto
qed

lemma show_nat_ne [simp]: "show_nat n \<noteq> []"
  by (subst show_nat.simps) simp

lemma show_nat_no_leading_zero: "0 < n \<Longrightarrow> hd (show_nat n) \<noteq> CHR ''0''"
proof (induction n rule: show_nat.induct)
  case (1 n)
  have z: "CHR ''0'' = digit_char 0" by code_simp
  show ?case
  proof (cases "n < 10")
    case True
    then show ?thesis using 1 by (subst show_nat.simps) (simp add: z digit_char_eq_iff)
  next
    case False
    then have "hd (show_nat (n div 10)) \<noteq> CHR ''0''" using 1 by simp
    with False show ?thesis by (subst show_nat.simps) simp
  qed
qed

lemma show_nat_single: "length (show_nat n) = 1 \<longleftrightarrow> n < 10"
  by (subst show_nat.simps) simp

section \<open>Parsing addresses\<close>

definition parse_octet :: "string \<Rightarrow> u8 option" where
  "parse_octet s =
     (if s = [] \<or> \<not> (\<forall>c\<in>set s. is_digit c) \<or> (length s > 1 \<and> hd s = CHR ''0'') \<or> dec_value 0 s > 255
      then None else Some (of_nat (dec_value 0 s)))"

text \<open>\<open>parseIPv4Fields\<close>: exactly four octets separated by dots.\<close>

definition parse_ipv4_fields :: "string \<Rightarrow> (u8 \<times> u8 \<times> u8 \<times> u8) option" where
  "parse_ipv4_fields s = (case split_on CHR ''.'' s of
     [a, b, c, d] \<Rightarrow>
       (case (parse_octet a, parse_octet b, parse_octet c, parse_octet d) of
          (Some a', Some b', Some c', Some d') \<Rightarrow> Some (a', b', c', d')
        | _ \<Rightarrow> None)
   | _ \<Rightarrow> None)"

definition is_hex :: "char \<Rightarrow> bool" where
  "is_hex c \<longleftrightarrow> is_digit c \<or> (97 \<le> (of_char c :: nat) \<and> (of_char c :: nat) \<le> 102)
     \<or> (65 \<le> (of_char c :: nat) \<and> (of_char c :: nat) \<le> 70)"

definition unhex :: "char \<Rightarrow> nat" where
  "unhex c = (if is_digit c then of_char c - 48
     else if 97 \<le> (of_char c :: nat) then of_char c - 87 else of_char c - 55)"

definition hex_value :: "string \<Rightarrow> nat" where
  "hex_value s = foldl (\<lambda>acc c. acc * 16 + unhex c) 0 s"

definition join_octets :: "u8 \<Rightarrow> u8 \<Rightarrow> 16 word" where
  "join_octets a b = ucast a * 256 + ucast b"

text \<open>
  The loop of \<open>parseIPv6\<close>: the groups read so far, the position of \<open>::\<close>, and the rest of the input.
  It returns the groups, the ellipsis and the unread input.
\<close>

function v6_loop :: "16 word list \<Rightarrow> nat option \<Rightarrow> string \<Rightarrow>
    (16 word list \<times> nat option \<times> string) option" where
  "v6_loop gs ell s =
     (if length gs \<ge> 8 then Some (gs, ell, s)
      else let ds = takeWhile is_hex s; rest = dropWhile is_hex s in
        if length ds > 4 \<or> ds = [] then None
        else if prefix ''.'' rest then
          (if (ell = None \<and> length gs \<noteq> 6) \<or> length gs > 6 then None
           else case parse_ipv4_fields s of
             Some (a, b, c, d) \<Rightarrow> Some (gs @ [join_octets a b, join_octets c d], ell, [])
           | None \<Rightarrow> None)
        else let gs' = gs @ [of_nat (hex_value ds)] in
          (case rest of
             [] \<Rightarrow> Some (gs', ell, [])
           | c # s' \<Rightarrow>
               if c \<noteq> CHR '':'' \<or> s' = [] then None
               else if hd s' = CHR '':'' then
                 (if ell \<noteq> None then None
                  else if tl s' = [] then Some (gs', Some (length gs'), [])
                  else v6_loop gs' (Some (length gs')) (tl s'))
               else v6_loop gs' ell s'))"
  by pat_completeness auto
termination by (relation "measure (\<lambda>(gs, ell, s). 8 - length gs)") auto

declare v6_loop.simps [simp del]

definition parse_ipv6 :: "string \<Rightarrow> ip_addr option" where
  "parse_ipv6 inp =
     (let (s, zone, zoned) = cut inp ''%'' in
      if zoned \<and> zone = [] then None
      else if s = ''::'' then Some (V6 (replicate 8 0) zone)
      else
        (case (if prefix ''::'' s then v6_loop [] (Some 0) (drop 2 s) else v6_loop [] None s) of
           None \<Rightarrow> None
         | Some (gs, ell, rest) \<Rightarrow>
             if rest \<noteq> [] then None
             else if length gs < 8 then
               (case ell of
                  None \<Rightarrow> None
                | Some e \<Rightarrow> Some (V6 (take e gs @ replicate (8 - length gs) 0 @ drop e gs) zone))
             else if ell \<noteq> None then None
             else Some (V6 gs zone)))"

text \<open>\<open>ParseAddr\<close>: the first of the bytes \<open>.\<close>, \<open>:\<close> and \<open>%\<close> decides which parser runs.\<close>

fun first_delim :: "string \<Rightarrow> char option" where
  "first_delim [] = None"
| "first_delim (c # cs) = (if c = CHR ''.'' \<or> c = CHR '':'' \<or> c = CHR ''%'' then Some c else first_delim cs)"

definition parse_addr :: "string \<Rightarrow> ip_addr option" where
  "parse_addr s =
     (if first_delim s = Some CHR ''.'' then map_option (\<lambda>(a, b, c, d). V4 a b c d) (parse_ipv4_fields s)
      else if first_delim s = Some CHR '':'' then parse_ipv6 s
      else None)"

section \<open>Classification\<close>

definition is_4in6 :: "16 word list \<Rightarrow> bool" where
  "is_4in6 gs \<longleftrightarrow> length gs = 8 \<and> take 5 gs = replicate 5 0 \<and> gs ! 5 = 0xFFFF"

definition high_octet :: "16 word \<Rightarrow> u8" where
  "high_octet g = ucast (drop_bit 8 g)"

definition low_octet :: "16 word \<Rightarrow> u8" where
  "low_octet g = ucast g"

definition unmap :: "ip_addr \<Rightarrow> ip_addr" where
  "unmap ip = (case ip of
     V6 gs z \<Rightarrow> if is_4in6 gs
       then V4 (high_octet (gs ! 6)) (low_octet (gs ! 6)) (high_octet (gs ! 7)) (low_octet (gs ! 7))
       else ip
   | _ \<Rightarrow> ip)"

unbundle bit_operations_syntax

definition is_loopback :: "ip_addr \<Rightarrow> bool" where
  "is_loopback ip = (case unmap ip of
     V4 a b c d \<Rightarrow> a = 127
   | V6 gs z \<Rightarrow> gs = [0, 0, 0, 0, 0, 0, 0, 1])"

definition is_private :: "ip_addr \<Rightarrow> bool" where
  "is_private ip = (case unmap ip of
     V4 a b c d \<Rightarrow> a = 10 \<or> (a = 172 \<and> b AND 0xF0 = 16) \<or> (a = 192 \<and> b = 168)
   | V6 gs z \<Rightarrow> hd gs AND 0xFE00 = 0xFC00)"

text \<open>\<open>IsUnspecified\<close> compares whole addresses: no unmapping, and a zone makes it differ.\<close>

definition is_unspecified :: "ip_addr \<Rightarrow> bool" where
  "is_unspecified ip \<longleftrightarrow> ip = V4 0 0 0 0 \<or> ip = V6 (replicate 8 0) []"

definition is_link_local_unicast :: "ip_addr \<Rightarrow> bool" where
  "is_link_local_unicast ip = (case unmap ip of
     V4 a b c d \<Rightarrow> a = 169 \<and> b = 254
   | V6 gs z \<Rightarrow> hd gs AND 0xFFC0 = 0xFE80)"

definition is_link_local_multicast :: "ip_addr \<Rightarrow> bool" where
  "is_link_local_multicast ip = (case unmap ip of
     V4 a b c d \<Rightarrow> a = 224 \<and> b = 0 \<and> c = 0
   | V6 gs z \<Rightarrow> hd gs AND 0xFF0F = 0xFF02)"

definition is_multicast :: "ip_addr \<Rightarrow> bool" where
  "is_multicast ip = (case unmap ip of
     V4 a b c d \<Rightarrow> a AND 0xF0 = 0xE0
   | V6 gs z \<Rightarrow> hd gs AND 0xFF00 = 0xFF00)"

section \<open>Printing and parsing dotted quads\<close>

definition show_ipv4 :: "u8 \<Rightarrow> u8 \<Rightarrow> u8 \<Rightarrow> u8 \<Rightarrow> string" where
  "show_ipv4 a b c d = show_nat (unat a) @ ''.'' @ show_nat (unat b) @ ''.'' @
     show_nat (unat c) @ ''.'' @ show_nat (unat d)"

lemma show_nat_not_mem: "\<not> is_digit c \<Longrightarrow> c \<notin> set (show_nat n)"
  using show_nat_digits by blast

lemma parse_octet_show [simp]: "parse_octet (show_nat (unat (a :: u8))) = Some a"
proof -
  have b: "unat a < 256" using unsigned_less [of a] by simp
  have "\<not> (length (show_nat (unat a)) > 1 \<and> hd (show_nat (unat a)) = CHR ''0'')"
  proof (cases "unat a = 0")
    case True
    then show ?thesis by (simp add: show_nat.simps)
  qed (simp add: show_nat_no_leading_zero)
  with b show ?thesis by (auto simp: parse_octet_def show_nat_digits)
qed

lemma dot_not_digit [simp]: "\<not> is_digit CHR ''.''"
  by (simp add: is_digit_def)

lemma parse_ipv4_show [simp]: "parse_ipv4_fields (show_ipv4 a b c d) = Some (a, b, c, d)"
  by (simp add: parse_ipv4_fields_def show_ipv4_def split_on_append split_on_absent show_nat_not_mem)

lemma first_delim_digits: "\<forall>c\<in>set s. is_digit c \<Longrightarrow> first_delim (s @ t) = first_delim t"
  by (induction s) (auto simp: is_digit_def)

lemma parse_addr_show_ipv4 [simp]: "parse_addr (show_ipv4 a b c d) = Some (V4 a b c d)"
proof -
  have "first_delim (show_ipv4 a b c d) = Some CHR ''.''"
    unfolding show_ipv4_def by (simp add: first_delim_digits show_nat_digits)
  then show ?thesis by (simp add: parse_addr_def)
qed

text \<open>An address that parses has eight groups, when it is an IPv6 one.\<close>

definition addr_wf :: "ip_addr \<Rightarrow> bool" where
  "addr_wf ip = (case ip of V6 gs z \<Rightarrow> length gs = 8 | _ \<Rightarrow> True)"

lemma v6_loop_length:
  "v6_loop gs ell s = Some (gs', ell', r) \<Longrightarrow> length gs \<le> 8 \<Longrightarrow> length gs' \<le> 8"
proof (induction gs ell s arbitrary: gs' ell' r rule: v6_loop.induct)
  case (1 gs ell s)
  from "1.prems" "1.IH" show ?case
    by (auto simp: Let_def v6_loop.simps [of gs ell s] split: if_splits option.splits list.splits)
qed

lemma parse_addr_wf: "parse_addr s = Some ip \<Longrightarrow> addr_wf ip"
  unfolding parse_addr_def parse_ipv6_def addr_wf_def
  by (auto simp: Let_def split: if_splits option.splits prod.splits ip_addr.splits
      dest!: v6_loop_length)

end
