(* ===== verification/Go_Url.thy ===== *)
theory Go_Url
  imports Go_Netip
begin

text \<open>
  Go's \<open>net/url\<close> and \<open>path.Base\<close>: \<open>Parse\<close> (scheme, opaque part, authority with its port and
  bracketed-literal checks, escaped path, query and fragment), \<open>Hostname\<close>, query escaping,
  \<open>Values.Encode\<close> of one key and \<open>Query().Get\<close>.  The user information of an authority is checked
  and dropped, and the raw path hint is not kept: the gateway reads neither.
\<close>

record go_url =
  u_scheme :: string
  u_opaque :: string
  u_host :: string
  u_path :: string
  u_rawquery :: string

section \<open>Escaping\<close>

definition is_alnum :: "char \<Rightarrow> bool" where
  "is_alnum c \<longleftrightarrow> is_digit c \<or> (65 \<le> (of_char c :: nat) \<and> (of_char c :: nat) \<le> 90)
     \<or> (97 \<le> (of_char c :: nat) \<and> (of_char c :: nat) \<le> 122)"

definition is_unreserved :: "char \<Rightarrow> bool" where
  "is_unreserved c \<longleftrightarrow> is_alnum c \<or> c \<in> {CHR ''-'', CHR ''_'', CHR ''.'', CHR ''~''}"

text \<open>The ASCII bytes \<open>shouldEscape\<close> leaves alone in a host or an IPv6 zone.\<close>

definition host_plain :: "char \<Rightarrow> bool" where
  "host_plain c \<longleftrightarrow> is_unreserved c \<or> c \<in> {CHR ''!'', CHR ''$'', CHR ''&'', CHR 0x27, CHR ''('',
     CHR '')'', CHR ''*'', CHR ''+'', CHR '','', CHR '';'', CHR ''='', CHR '':'', CHR ''['', CHR '']'',
     CHR ''<'', CHR ''>'', CHR 0x22}"

definition host_raw_ok :: "char \<Rightarrow> bool" where
  "host_raw_ok c \<longleftrightarrow> (of_char c :: nat) \<ge> 128 \<or> host_plain c"

text \<open>
  \<open>unescape\<close>: \<open>raw_ok\<close> says which bytes may stand unescaped, \<open>pct_ok\<close> which byte values may be
  written as \<open>%XX\<close>, and \<open>plusp\<close> whether \<open>+\<close> is a space.
\<close>

fun unescape :: "(char \<Rightarrow> bool) \<Rightarrow> (char \<Rightarrow> bool) \<Rightarrow> bool \<Rightarrow> string \<Rightarrow> string option" where
  "unescape raw_ok pct_ok plusp [] = Some []"
| "unescape raw_ok pct_ok plusp (c # cs) =
     (if c = CHR ''%'' then
        (case cs of
           a # b # r \<Rightarrow>
             if is_hex a \<and> is_hex b \<and> pct_ok (char_of (unhex a * 16 + unhex b))
             then map_option ((#) (char_of (unhex a * 16 + unhex b))) (unescape raw_ok pct_ok plusp r)
             else None
         | _ \<Rightarrow> None)
      else if c = CHR ''+'' \<and> plusp then map_option ((#) CHR '' '') (unescape raw_ok pct_ok plusp cs)
      else if raw_ok c then map_option ((#) c) (unescape raw_ok pct_ok plusp cs)
      else None)"

definition unescape_host :: "string \<Rightarrow> string option" where
  "unescape_host s = unescape host_raw_ok (\<lambda>v. (of_char v :: nat) \<ge> 128 \<or> v = CHR ''%'') False s"

definition unescape_zone :: "string \<Rightarrow> string option" where
  "unescape_zone s = unescape host_raw_ok (\<lambda>v. v = CHR ''%'' \<or> v = CHR '' '' \<or> host_plain v) False s"

definition unescape_plain :: "string \<Rightarrow> string option" where
  "unescape_plain s = unescape (\<lambda>_. True) (\<lambda>_. True) False s"

definition query_unescape :: "string \<Rightarrow> string option" where
  "query_unescape s = unescape (\<lambda>_. True) (\<lambda>_. True) True s"

definition upper_hex :: "nat \<Rightarrow> char" where
  "upper_hex n = (if n < 10 then char_of (n + 48) else char_of (n + 55))"

definition escape_byte :: "char \<Rightarrow> string" where
  "escape_byte c = (if is_unreserved c then [c]
      else if c = CHR '' '' then ''+''
      else [CHR ''%'', upper_hex (of_char c div 16), upper_hex (of_char c mod 16)])"

definition query_escape :: "string \<Rightarrow> string" where
  "query_escape s = concat (map escape_byte s)"

text \<open>\<open>url.Values{k: {v}}.Encode()\<close>.\<close>

definition encode_value :: "string \<Rightarrow> string \<Rightarrow> string" where
  "encode_value k v = query_escape k @ ''='' @ query_escape v"

text \<open>\<open>ParseQuery\<close> followed by \<open>Get\<close>: the first well-formed setting of the key, or empty.\<close>

fun query_lookup :: "string list \<Rightarrow> string \<Rightarrow> string" where
  "query_lookup [] key = []"
| "query_lookup (seg # segs) key =
     (if contains seg '';'' \<or> seg = [] then query_lookup segs key
      else let (k, v, _) = cut seg ''='' in
        (case (query_unescape k, query_unescape v) of
           (Some k', Some v') \<Rightarrow> if k' = key then v' else query_lookup segs key
         | _ \<Rightarrow> query_lookup segs key))"

definition query_get :: "string \<Rightarrow> string \<Rightarrow> string" where
  "query_get rawquery key = query_lookup (split_on CHR ''&'' rawquery) key"

section \<open>Parsing\<close>

definition has_ctl_byte :: "string \<Rightarrow> bool" where
  "has_ctl_byte s \<longleftrightarrow> (\<exists>c\<in>set s. (of_char c :: nat) < 32 \<or> (of_char c :: nat) = 127)"

definition is_alpha :: "char \<Rightarrow> bool" where
  "is_alpha c \<longleftrightarrow> is_alnum c \<and> \<not> is_digit c"

text \<open>
  \<open>getScheme\<close>: \<^const>\<open>None\<close> is the error "missing protocol scheme"; otherwise the scheme (empty when
  there is none) and the rest.
\<close>

fun scheme_scan :: "string \<Rightarrow> string \<Rightarrow> (string \<times> string) option option" where
  "scheme_scan acc [] = Some None"
| "scheme_scan acc (c # cs) =
     (if is_alpha c then scheme_scan (acc @ [c]) cs
      else if is_digit c \<or> c \<in> {CHR ''+'', CHR ''-'', CHR ''.''} then
        (if acc = [] then Some None else scheme_scan (acc @ [c]) cs)
      else if c = CHR '':'' then (if acc = [] then None else Some (Some (acc, cs)))
      else Some None)"

definition get_scheme :: "string \<Rightarrow> (string \<times> string) option" where
  "get_scheme s = (case scheme_scan [] s of
     None \<Rightarrow> None
   | Some None \<Rightarrow> Some ([], s)
   | Some (Some (sch, rest)) \<Rightarrow> Some (sch, rest))"

definition valid_optional_port :: "string \<Rightarrow> bool" where
  "valid_optional_port p = (case p of [] \<Rightarrow> True | c # ds \<Rightarrow> c = CHR '':'' \<and> (\<forall>d\<in>set ds. is_digit d))"

definition is_v4_addr :: "ip_addr \<Rightarrow> bool" where
  "is_v4_addr ip = (case ip of V4 _ _ _ _ \<Rightarrow> True | _ \<Rightarrow> False)"

definition parse_bracketed :: "string \<Rightarrow> string option" where
  "parse_bracketed host = (case last_index host '']'' of
     None \<Rightarrow> None
   | Some j \<Rightarrow>
       let port = drop (Suc j) host; name = take (j - 1) (drop 1 host) in
       if \<not> valid_optional_port port then None
       else
         (case (case index_of name ''%25'' of
             Some z \<Rightarrow> (case (unescape_host (take z name), unescape_zone (drop z name)) of
                 (Some h, Some zn) \<Rightarrow> Some (h @ zn) | _ \<Rightarrow> None)
           | None \<Rightarrow> unescape_host name) of
            None \<Rightarrow> None
          | Some nm \<Rightarrow>
              (case parse_addr nm of
                 None \<Rightarrow> None
               | Some ip \<Rightarrow> if is_v4_addr ip then None else Some (''['' @ nm @ '']'' @ port))))"

definition parse_host :: "string \<Rightarrow> string option" where
  "parse_host host = (case last_index host ''['' of
     Some (Suc _) \<Rightarrow> None
   | Some 0 \<Rightarrow> parse_bracketed host
   | None \<Rightarrow>
       (case index_byte host CHR '':'' of
          Some i \<Rightarrow> if valid_optional_port (drop i host) then unescape_host host else None
        | None \<Rightarrow> unescape_host host))"

definition userinfo_char :: "char \<Rightarrow> bool" where
  "userinfo_char c \<longleftrightarrow> is_alnum c \<or> c \<in> {CHR ''-'', CHR ''.'', CHR ''_'', CHR '':'', CHR ''~'', CHR ''!'',
     CHR ''$'', CHR ''&'', CHR 0x27, CHR ''('', CHR '')'', CHR ''*'', CHR ''+'', CHR '','', CHR '';'',
     CHR ''='', CHR ''%'', CHR ''@''}"

definition parse_authority :: "string \<Rightarrow> string option" where
  "parse_authority a = (case last_index a ''@'' of
     None \<Rightarrow> parse_host a
   | Some i \<Rightarrow>
       (case parse_host (drop (Suc i) a) of
          None \<Rightarrow> None
        | Some h \<Rightarrow>
            if (\<forall>c\<in>set (take i a). userinfo_char c) \<and> unescape_plain (take i a) \<noteq> None
            then Some h else None))"

definition split_query :: "string \<Rightarrow> string \<times> string" where
  "split_query rest =
     (if has_suffix rest ''?'' \<and> count_list rest CHR ''?'' = 1
      then (take (length rest - 1) rest, [])
      else (let (p, q, _) = cut rest ''?'' in (p, q)))"

definition parse_nofrag :: "string \<Rightarrow> go_url option" where
  "parse_nofrag raw =
     (if has_ctl_byte raw then None
      else if raw = ''*'' then
        Some \<lparr>u_scheme = [], u_opaque = [], u_host = [], u_path = ''*'', u_rawquery = []\<rparr>
      else case get_scheme raw of
        None \<Rightarrow> None
      | Some (sch0, rest0) \<Rightarrow>
          let sch = map lower_byte sch0; (rest, q) = split_query rest0 in
          if \<not> has_prefix rest ''/'' \<and> sch \<noteq> [] then
            Some \<lparr>u_scheme = sch, u_opaque = rest, u_host = [], u_path = [], u_rawquery = q\<rparr>
          else if \<not> has_prefix rest ''/'' \<and> contains (fst (cut rest ''/'')) '':'' then None
          else if (sch \<noteq> [] \<or> \<not> has_prefix rest ''///'') \<and> has_prefix rest ''//'' then
            (let auth = takeWhile (\<lambda>c. c \<noteq> CHR ''/'') (drop 2 rest);
                 path = dropWhile (\<lambda>c. c \<noteq> CHR ''/'') (drop 2 rest) in
             case (parse_authority auth, unescape_plain path) of
               (Some h, Some p) \<Rightarrow>
                 Some \<lparr>u_scheme = sch, u_opaque = [], u_host = h, u_path = p, u_rawquery = q\<rparr>
             | _ \<Rightarrow> None)
          else map_option (\<lambda>p. \<lparr>u_scheme = sch, u_opaque = [], u_host = [], u_path = p, u_rawquery = q\<rparr>)
            (unescape_plain rest))"

definition url_parse :: "string \<Rightarrow> go_url option" where
  "url_parse raw = (let (u, frag, _) = cut raw ''#'' in
     case parse_nofrag u of
       None \<Rightarrow> None
     | Some url \<Rightarrow> if unescape_plain frag = None then None else Some url)"

text \<open>\<open>URL.Hostname\<close>: the host without port and brackets.\<close>

definition url_hostname :: "go_url \<Rightarrow> string" where
  "url_hostname u =
     (let h = u_host u;
          h1 = (case last_index h '':'' of
             Some i \<Rightarrow> if valid_optional_port (drop i h) then take i h else h
           | None \<Rightarrow> h) in
      if has_prefix h1 ''['' \<and> has_suffix h1 '']'' then take (length h1 - 2) (drop 1 h1) else h1)"

text \<open>\<open>path.Base\<close>.\<close>

definition path_base :: "string \<Rightarrow> string" where
  "path_base p =
     (if p = [] then ''.''
      else let q = trim_right_set {CHR ''/''} p in
        let r = rev (takeWhile (\<lambda>c. c \<noteq> CHR ''/'') (rev q)) in
        if r = [] then ''/'' else r)"

lemmas url_parse_defs [go_defs] = url_parse_def parse_nofrag_def get_scheme_def split_query_def
  parse_authority_def parse_host_def url_hostname_def unescape_host_def unescape_plain_def
  has_ctl_byte_def is_alpha_def is_alnum_def is_digit_def is_unreserved_def host_plain_def
  host_raw_ok_def valid_optional_port_def path_base_def is_hex_def unhex_def query_unescape_def

section \<open>Query round trip\<close>

lemma upper_hex_hex [simp]: "n < 16 \<Longrightarrow> is_hex (upper_hex n)" "n < 16 \<Longrightarrow> unhex (upper_hex n) = n"
  by (auto simp: upper_hex_def is_hex_def unhex_def is_digit_def)

lemma of_char_div_16 [simp]: "(of_char c :: nat) div 16 < 16"
  by (rule less_mult_imp_div_less) (use nat_of_char_less_256 in simp)

lemma is_unreserved_plain:
  "is_unreserved c \<Longrightarrow> c \<noteq> CHR ''%'' \<and> c \<noteq> CHR ''+'' \<and> c \<noteq> CHR ''='' \<and> c \<noteq> CHR ''&''
     \<and> c \<noteq> CHR '';'' \<and> c \<noteq> CHR ''/'' \<and> c \<noteq> CHR ''?'' \<and> c \<noteq> CHR 0x23"
  by (auto simp: is_unreserved_def is_alnum_def is_digit_def)

lemma unescape_escape_byte:
  "unescape (\<lambda>_. True) (\<lambda>_. True) True (escape_byte c @ s)
     = map_option ((#) c) (unescape (\<lambda>_. True) (\<lambda>_. True) True s)"
proof -
  have "char_of ((of_char c :: nat) div 16 * 16 + of_char c mod 16) = c" by simp
  then show ?thesis
    using is_unreserved_plain [of c] by (simp add: escape_byte_def)
qed

lemma query_roundtrip [simp]: "query_unescape (query_escape s) = Some s"
  unfolding query_unescape_def query_escape_def
  by (induction s) (simp_all add: unescape_escape_byte)

lemma upper_hex_plain: "n < 16 \<Longrightarrow> is_unreserved (upper_hex n)"
  by (auto simp: upper_hex_def is_unreserved_def is_alnum_def is_digit_def)

text \<open>The bytes an escaped component can consist of; none of them delimits a URL.\<close>

lemma query_escape_bytes:
  "c \<in> set (query_escape s) \<Longrightarrow> is_unreserved c \<or> c = CHR ''+'' \<or> c = CHR ''%''"
  by (auto simp: query_escape_def escape_byte_def upper_hex_plain split: if_splits)

lemma query_escape_safe:
  "c \<in> set (query_escape s) \<Longrightarrow> c \<noteq> CHR ''='' \<and> c \<noteq> CHR ''&'' \<and> c \<noteq> CHR '';''
     \<and> c \<noteq> CHR ''/'' \<and> c \<noteq> CHR ''?'' \<and> c \<noteq> CHR 0x23"
  using query_escape_bytes is_unreserved_plain by fastforce

lemma query_get_encode [simp]: "query_get (encode_value k v) k = v"
proof -
  let ?s = "query_escape k @ CHR ''='' # query_escape v"
  have "CHR ''&'' \<notin> set ?s" "CHR '';'' \<notin> set ?s"
    using query_escape_safe by auto
  then have "split_on CHR ''&'' ?s = [?s]" "\<not> contains ?s '';''"
    by (simp_all add: split_on_absent contains_byte_iff)
  moreover have "cut ?s ''='' = (query_escape k, query_escape v, True)"
    by (rule cut_byte_append) (use query_escape_safe in blast)
  ultimately show ?thesis
    by (simp add: query_get_def encode_value_def)
qed

section \<open>Parsing of plain URLs\<close>

text \<open>
  \<open>https://host/path\<close> with a host of plain bytes and a path of bytes that need no escaping parses
  to that host and path.  Every URL the gateway mints has this form.
\<close>

definition plain_host :: "string \<Rightarrow> bool" where
  "plain_host h \<longleftrightarrow> (\<forall>c\<in>set h. is_unreserved c)"

definition plain_path :: "string \<Rightarrow> bool" where
  "plain_path p \<longleftrightarrow> prefix ''/'' p \<and> (\<forall>c\<in>set p. is_unreserved c \<or> c = CHR ''/'')"

lemma last_index_absent: "sub \<noteq> [] \<Longrightarrow> hd sub \<notin> set s \<Longrightarrow> last_index s sub = None"
  by (induction s) (cases sub; auto)+

lemma unescape_id:
  "\<forall>c\<in>set s. raw_ok c \<and> c \<noteq> CHR ''%'' \<and> c \<noteq> CHR ''+'' \<Longrightarrow> unescape raw_ok pct_ok p s = Some s"
  by (induction s) auto

lemma is_unreserved_printable: "is_unreserved c \<Longrightarrow> 32 \<le> (of_char c :: nat) \<and> (of_char c :: nat) \<noteq> 127"
  by (auto simp: is_unreserved_def is_alnum_def is_digit_def)

lemma is_unreserved_not_delim:
  "is_unreserved c \<Longrightarrow> c \<noteq> CHR '':'' \<and> c \<noteq> CHR ''@'' \<and> c \<noteq> CHR ''['' \<and> c \<noteq> CHR '']''"
  by (auto simp: is_unreserved_def is_alnum_def is_digit_def)

lemma parse_host_plain:
  assumes "plain_host h" shows "parse_host h = Some h"
proof -
  have c: "CHR ''['' \<notin> set h" "CHR '':'' \<notin> set h"
    using assms is_unreserved_not_delim by (auto simp: plain_host_def)
  have "unescape_host h = Some h"
    unfolding unescape_host_def using assms
    by (intro unescape_id) (auto simp: plain_host_def host_raw_ok_def host_plain_def dest: is_unreserved_plain)
  with c show ?thesis by (simp add: parse_host_def last_index_absent)
qed

lemma parse_authority_plain: "plain_host h \<Longrightarrow> parse_authority h = Some h"
proof -
  assume h: "plain_host h"
  then have "CHR ''@'' \<notin> set h" using is_unreserved_not_delim by (auto simp: plain_host_def)
  with h show ?thesis by (simp add: parse_authority_def last_index_absent parse_host_plain)
qed

lemma unescape_plain_path: "plain_path p \<Longrightarrow> unescape_plain p = Some p"
  unfolding unescape_plain_def plain_path_def
  by (intro unescape_id) (auto dest: is_unreserved_plain)

lemma scheme_https: "get_scheme (''https:'' @ s) = Some (''https'', s)"
  by (simp add: get_scheme_def is_alpha_def is_alnum_def is_digit_def)

lemma host_path_split:
  assumes h: "plain_host h" and p: "plain_path p"
  shows "takeWhile (\<lambda>c. c \<noteq> CHR ''/'') (h @ p) = h" "dropWhile (\<lambda>c. c \<noteq> CHR ''/'') (h @ p) = p"
proof -
  have "\<forall>c\<in>set h. c \<noteq> CHR ''/''" using h by (auto simp: plain_host_def dest: is_unreserved_plain)
  moreover obtain p' where "p = CHR ''/'' # p'" using p by (auto simp: plain_path_def prefix_def)
  ultimately show "takeWhile (\<lambda>c. c \<noteq> CHR ''/'') (h @ p) = h"
    "dropWhile (\<lambda>c. c \<noteq> CHR ''/'') (h @ p) = p"
    by (simp_all add: dropWhile_append_all)
qed

lemma url_bytes_plain:
  assumes "plain_host h" "plain_path p" "c \<in> set (''https://'' @ h @ p)"
  shows "c \<noteq> CHR ''?'' \<and> c \<noteq> CHR 0x23 \<and> 32 \<le> (of_char c :: nat) \<and> (of_char c :: nat) \<noteq> 127"
proof -
  have "c \<in> set ''https://'' \<or> c \<in> set h \<or> c \<in> set p"
    using assms(3) by (simp only: set_append Un_iff)
  then consider "c \<in> set ''https://''" | "is_unreserved c" | "c = CHR ''/''"
    using assms(1,2) unfolding plain_host_def plain_path_def by blast
  then show ?thesis
  proof cases
    case 2
    with is_unreserved_plain [OF 2] is_unreserved_printable [OF 2] show ?thesis by simp
  qed auto
qed

lemma split_query_absent: "CHR ''?'' \<notin> set s \<Longrightarrow> split_query s = (s, [])"
  by (auto simp: split_query_def cut_absent suffix_def)

lemma parse_nofrag_https:
  assumes "plain_host h" "plain_path p"
  shows "parse_nofrag (''https://'' @ h @ p) =
    Some \<lparr>u_scheme = ''https'', u_opaque = [], u_host = h, u_path = p, u_rawquery = []\<rparr>"
proof -
  have ctl: "\<not> has_ctl_byte (''https://'' @ h @ p)"
    unfolding has_ctl_byte_def using url_bytes_plain [OF assms] by (meson not_less)
  have "CHR ''?'' \<notin> set (''//'' @ h @ p)"
    using url_bytes_plain [OF assms, of "CHR ''?''"] by auto
  then have q: "split_query (CHR ''/'' # CHR ''/'' # h @ p) = (CHR ''/'' # CHR ''/'' # h @ p, [])"
    by (simp add: split_query_absent)
  have sch: "get_scheme (''https://'' @ h @ p) = Some (''https'', CHR ''/'' # CHR ''/'' # h @ p)"
    using scheme_https [of "''//'' @ h @ p"] by simp
  have low: "map lower_byte ''https'' = ''https''" by code_simp
  have star: "''https://'' @ h @ p \<noteq> ''*''" by simp
  show ?thesis
    unfolding parse_nofrag_def if_not_P [OF ctl] if_not_P [OF star] sch
    using host_path_split [OF assms] parse_authority_plain [OF assms(1)] unescape_plain_path [OF assms(2)]
    by (simp only: option.case prod.case Let_def q low) simp
qed

theorem parse_https:
  assumes "plain_host h" "plain_path p"
  shows "url_parse (''https://'' @ h @ p) =
    Some \<lparr>u_scheme = ''https'', u_opaque = [], u_host = h, u_path = p, u_rawquery = []\<rparr>"
proof -
  have "CHR 0x23 \<notin> set (''https://'' @ h @ p)"
    using url_bytes_plain [OF assms, of "CHR 0x23"] by blast
  then have "cut (''https://'' @ h @ p) ''#'' = (''https://'' @ h @ p, [], False)"
    by (intro cut_absent) simp_all
  then show ?thesis
    by (simp only: url_parse_def prod.case Let_def parse_nofrag_https [OF assms] option.case)
      (simp add: unescape_plain_def)
qed

lemma url_hostname_plain: "plain_host h \<Longrightarrow> u_host u = h \<Longrightarrow> url_hostname u = h"
proof -
  assume h: "plain_host h" and u: "u_host u = h"
  then have "CHR '':'' \<notin> set h" "CHR ''['' \<notin> set h" using is_unreserved_not_delim by (auto simp: plain_host_def)
  then have "\<not> prefix ''['' h" by (cases h) auto
  with \<open>CHR '':'' \<notin> set h\<close> u show ?thesis
    by (simp add: url_hostname_def last_index_absent)
qed

end
