(* ===== verification/Go_Base64.thy ===== *)
theory Go_Base64
  imports Go_Strings
begin

text \<open>
  Go's \<open>encoding/base64\<close>, as the gateway uses it: \<open>RawURLEncoding\<close> (URL alphabet, no padding) for
  actor ids and media references, \<open>StdEncoding\<close> (padded) for images and digests.  The decoders are
  Go's non-strict ones: carriage returns and newlines are skipped and trailing bits are ignored.
\<close>

definition std_alphabet :: string where
  "std_alphabet = ''ABCDEFGHIJKLMNOPQRSTUVWXYZabcdefghijklmnopqrstuvwxyz0123456789+/''"

definition url_alphabet :: string where
  "url_alphabet = ''ABCDEFGHIJKLMNOPQRSTUVWXYZabcdefghijklmnopqrstuvwxyz0123456789-_''"

definition sextet0 :: "char \<Rightarrow> nat" where
  "sextet0 a = of_char a div 4"

definition sextet1 :: "char \<Rightarrow> nat \<Rightarrow> nat" where
  "sextet1 a b = (of_char a mod 4) * 16 + b div 16"

definition sextet2 :: "char \<Rightarrow> nat \<Rightarrow> nat" where
  "sextet2 b c = (of_char b mod 16) * 4 + c div 64"

definition sextet3 :: "char \<Rightarrow> nat" where
  "sextet3 c = of_char c mod 64"

text \<open>\<open>EncodeToString\<close>; \<open>pad\<close> is \<open>''=''\<close> for the padded encoding and empty for the raw one.\<close>

fun b64_encode :: "string \<Rightarrow> string \<Rightarrow> string \<Rightarrow> string" where
  "b64_encode al pad (a # b # c # s) =
     al ! sextet0 a # al ! sextet1 a (of_char b) # al ! sextet2 b (of_char c) # al ! sextet3 c
       # b64_encode al pad s"
| "b64_encode al pad [a, b] =
     al ! sextet0 a # al ! sextet1 a (of_char b) # al ! sextet2 b 0 # pad"
| "b64_encode al pad [a] = al ! sextet0 a # al ! sextet1 a 0 # pad @ pad"
| "b64_encode al pad [] = []"

definition byte0 :: "nat \<Rightarrow> nat \<Rightarrow> char" where
  "byte0 x y = char_of (x * 4 + y div 16)"

definition byte1 :: "nat \<Rightarrow> nat \<Rightarrow> char" where
  "byte1 y z = char_of ((y mod 16) * 16 + z div 4)"

definition byte2 :: "nat \<Rightarrow> nat \<Rightarrow> char" where
  "byte2 z w = char_of ((z mod 4) * 64 + w)"

text \<open>
  \<open>decodeQuantum\<close> repeated: four sextets give three bytes; a raw input may end with two or three
  sextets, a padded one must fill the quantum with \<open>=\<close>.
\<close>

fun raw_decode_clean :: "string \<Rightarrow> string \<Rightarrow> string option" where
  "raw_decode_clean al (p # q # r # t # s) =
     (case (index_byte al p, index_byte al q, index_byte al r, index_byte al t) of
        (Some x, Some y, Some z, Some w) \<Rightarrow>
          map_option (\<lambda>bs. byte0 x y # byte1 y z # byte2 z w # bs) (raw_decode_clean al s)
      | _ \<Rightarrow> None)"
| "raw_decode_clean al [p, q, r] =
     (case (index_byte al p, index_byte al q, index_byte al r) of
        (Some x, Some y, Some z) \<Rightarrow> Some [byte0 x y, byte1 y z]
      | _ \<Rightarrow> None)"
| "raw_decode_clean al [p, q] =
     (case (index_byte al p, index_byte al q) of
        (Some x, Some y) \<Rightarrow> Some [byte0 x y]
      | _ \<Rightarrow> None)"
| "raw_decode_clean al [p] = None"
| "raw_decode_clean al [] = Some []"

fun std_decode_clean :: "string \<Rightarrow> string \<Rightarrow> string option" where
  "std_decode_clean al (p # q # r # t # s) =
     (case (index_byte al p, index_byte al q, index_byte al r, index_byte al t) of
        (Some x, Some y, Some z, Some w) \<Rightarrow>
          map_option (\<lambda>bs. byte0 x y # byte1 y z # byte2 z w # bs) (std_decode_clean al s)
      | (Some x, Some y, Some z, None) \<Rightarrow>
          if t = CHR ''='' \<and> s = [] then Some [byte0 x y, byte1 y z] else None
      | (Some x, Some y, None, _) \<Rightarrow>
          if r = CHR ''='' \<and> t = CHR ''='' \<and> s = [] then Some [byte0 x y] else None
      | _ \<Rightarrow> None)"
| "std_decode_clean al [] = Some []"
| "std_decode_clean al s = None"

definition skip_newlines :: "string \<Rightarrow> string" where
  "skip_newlines s = filter (\<lambda>c. c \<noteq> CHR 0x0A \<and> c \<noteq> CHR 0x0D) s"

definition raw_url_encode :: "string \<Rightarrow> string" where
  "raw_url_encode s = b64_encode url_alphabet [] s"

definition raw_url_decode :: "string \<Rightarrow> string option" where
  "raw_url_decode s = raw_decode_clean url_alphabet (skip_newlines s)"

definition std_encode :: "string \<Rightarrow> string" where
  "std_encode s = b64_encode std_alphabet ''='' s"

definition std_decode :: "string \<Rightarrow> string option" where
  "std_decode s = std_decode_clean std_alphabet (skip_newlines s)"

section \<open>Round trips\<close>

lemma of_char_less [simp]: "(of_char c :: nat) < 256"
  by (rule nat_of_char_less_256)

lemma div_16_less: "(b::nat) < 256 \<Longrightarrow> b div 16 < 16"
  by (rule less_mult_imp_div_less) simp

lemma div_64_less: "(c::nat) < 256 \<Longrightarrow> c div 64 < 4"
  by (rule less_mult_imp_div_less) simp

lemma sextet0_bound [simp]: "sextet0 a < 64"
  unfolding sextet0_def by (rule less_mult_imp_div_less) simp

lemma sextet1_bound [simp]: "b < 256 \<Longrightarrow> sextet1 a b < 64"
proof -
  assume "b < 256"
  then have "b div 16 < 16" by (rule div_16_less)
  moreover have "(of_char a :: nat) mod 4 < 4" by simp
  ultimately show ?thesis unfolding sextet1_def by linarith
qed

lemma sextet2_bound [simp]: "c < 256 \<Longrightarrow> sextet2 b c < 64"
proof -
  assume "c < 256"
  then have "c div 64 < 4" by (rule div_64_less)
  moreover have "(of_char b :: nat) mod 16 < 16" by simp
  ultimately show ?thesis unfolding sextet2_def by linarith
qed

lemma sextet3_bound [simp]: "sextet3 a < 64"
  by (simp add: sextet3_def)

lemma byte0_sextets [simp]: "b < 256 \<Longrightarrow> byte0 (sextet0 a) (sextet1 a b) = a"
proof -
  assume "b < 256"
  then have "sextet1 a b div 16 = of_char a mod 4"
    using div_16_less [of b] by (simp add: sextet1_def)
  then have "sextet0 a * 4 + sextet1 a b div 16 = of_char a"
    by (simp add: sextet0_def)
  then show ?thesis by (simp add: byte0_def)
qed

lemma byte1_sextets [simp]:
  "c < 256 \<Longrightarrow> byte1 (sextet1 a (of_char b)) (sextet2 b c) = b"
proof -
  assume "c < 256"
  then have "sextet2 b c div 4 = of_char b mod 16"
    using div_64_less [of c] by (simp add: sextet2_def)
  moreover have "sextet1 a (of_char b) mod 16 = of_char b div 16"
    using div_16_less [of "of_char b"] by (simp add: sextet1_def)
  ultimately have "(sextet1 a (of_char b) mod 16) * 16 + sextet2 b c div 4 = of_char b"
    by simp
  then show ?thesis by (simp add: byte1_def)
qed

lemma byte2_sextets [simp]: "byte2 (sextet2 b (of_char c)) (sextet3 c) = c"
proof -
  have "sextet2 b (of_char c) mod 4 = of_char c div 64"
    using div_64_less [of "of_char c"] by (simp add: sextet2_def)
  then have "(sextet2 b (of_char c) mod 4) * 64 + sextet3 c = of_char c"
    by (simp add: sextet3_def)
  then show ?thesis by (simp add: byte2_def)
qed

definition alphabet_ok :: "string \<Rightarrow> bool" where
  "alphabet_ok al \<longleftrightarrow> distinct al \<and> length al = 64
     \<and> CHR ''='' \<notin> set al \<and> CHR 0x0A \<notin> set al \<and> CHR 0x0D \<notin> set al"

lemma url_alphabet_ok [simp]: "alphabet_ok url_alphabet"
  unfolding alphabet_ok_def url_alphabet_def by simp

lemma std_alphabet_ok [simp]: "alphabet_ok std_alphabet"
  unfolding alphabet_ok_def std_alphabet_def by simp

lemma index_byte_nth: "distinct al \<Longrightarrow> n < length al \<Longrightarrow> index_byte al (al ! n) = Some n"
proof -
  assume d: "distinct al" and n: "n < length al"
  let ?x = "al ! n"
  have split: "al = take n al @ ?x # drop (Suc n) al" using n by (rule id_take_nth_drop)
  then have "?x \<notin> set (take n al)" using d
    by (metis distinct_append disjoint_iff list.set_intros(1))
  then have "index_byte (take n al @ ?x # drop (Suc n) al) ?x = Some (length (take n al))"
    by (rule index_byte_append)
  with n show ?thesis by (simp flip: split)
qed

lemma alphabet_index: "alphabet_ok al \<Longrightarrow> n < 64 \<Longrightarrow> index_byte al (al ! n) = Some n"
  by (rule index_byte_nth) (auto simp: alphabet_ok_def)

lemma alphabet_pad: "alphabet_ok al \<Longrightarrow> index_byte al CHR ''='' = None"
  by (simp add: alphabet_ok_def)

lemma alphabet_nth_mem: "alphabet_ok al \<Longrightarrow> n < 64 \<Longrightarrow> al ! n \<in> set al"
  by (simp add: alphabet_ok_def)

lemma set_b64_encode: "alphabet_ok al \<Longrightarrow> set (b64_encode al pad s) \<subseteq> set al \<union> set pad"
  by (induction al pad s rule: b64_encode.induct) (auto simp: alphabet_nth_mem)

lemma skip_newlines_encode:
  assumes "alphabet_ok al" "pad = [] \<or> pad = ''=''"
  shows "skip_newlines (b64_encode al pad s) = b64_encode al pad s"
proof -
  have "CHR 0x0A \<notin> set (b64_encode al pad s)" "CHR 0x0D \<notin> set (b64_encode al pad s)"
    using set_b64_encode [OF assms(1), of pad s] assms by (auto simp: alphabet_ok_def)
  then have "\<forall>c\<in>set (b64_encode al pad s). c \<noteq> CHR 0x0A \<and> c \<noteq> CHR 0x0D" by auto
  then show ?thesis unfolding skip_newlines_def by (simp add: filter_id_conv)
qed

lemma raw_decode_encode: "alphabet_ok al \<Longrightarrow> raw_decode_clean al (b64_encode al [] s) = Some s"
  by (induction al "[]::string" s rule: b64_encode.induct) (simp_all add: alphabet_index)

lemma std_decode_encode: "alphabet_ok al \<Longrightarrow> std_decode_clean al (b64_encode al ''='' s) = Some s"
  by (induction al "''=''" s rule: b64_encode.induct)
    (simp_all add: alphabet_index alphabet_pad)

lemma raw_url_roundtrip [simp]: "raw_url_decode (raw_url_encode s) = Some s"
  by (simp add: raw_url_decode_def raw_url_encode_def skip_newlines_encode raw_decode_encode)

lemma std_roundtrip [simp]: "std_decode (std_encode s) = Some s"
  by (simp add: std_decode_def std_encode_def skip_newlines_encode std_decode_encode)

lemma raw_url_encode_inj: "raw_url_encode s = raw_url_encode t \<longleftrightarrow> s = t"
  by (metis option.inject raw_url_roundtrip)

text \<open>An encoded segment has none of the bytes that delimit a URL or a datastore key.\<close>

lemma raw_url_encode_safe:
  "c \<in> set (raw_url_encode s) \<Longrightarrow>
     c \<noteq> CHR ''/'' \<and> c \<noteq> CHR ''?'' \<and> c \<noteq> CHR 0x23 \<and> c \<noteq> CHR ''@'' \<and> c \<noteq> CHR '':'' \<and> c \<noteq> CHR ''%''"
proof -
  assume "c \<in> set (raw_url_encode s)"
  then have "c \<in> set url_alphabet"
    using set_b64_encode [OF url_alphabet_ok, of "[]" s] by (auto simp: raw_url_encode_def)
  then show ?thesis by (auto simp: url_alphabet_def)
qed

end
