(* ===== verification/Json.thy ===== *)
theory Json
  imports Complex_Main Go_Strings
begin

text \<open>
  Decoded JSON documents (\<open>map[string]any\<close>) and the tolerant field readers of
  \<open>mastodon-map.go\<close> and \<open>inbox.go\<close>.  A JSON number is a float64, whose finite values are rationals.
  A Go map is an association list under \<^const>\<open>Some\<close>; \<^const>\<open>None\<close> is the nil map, which reads
  like an empty one.
\<close>

datatype json =
    JNull
  | JBool bool
  | JNum rat
  | JStr string
  | JArr "json list"
  | JObj "(string \<times> json) list"

type_synonym gomap = "(string \<times> json) list option"

text \<open>\<open>m[k]\<close>, with nil for an absent key, and the presence test \<open>_, ok := m[k]\<close>.\<close>

definition jget :: "gomap \<Rightarrow> string \<Rightarrow> json" where
  "jget m k = (case m of None \<Rightarrow> JNull
     | Some kvs \<Rightarrow> (case map_of kvs k of Some v \<Rightarrow> v | None \<Rightarrow> JNull))"

definition jhas :: "gomap \<Rightarrow> string \<Rightarrow> bool" where
  "jhas m k = (case m of None \<Rightarrow> False | Some kvs \<Rightarrow> map_of kvs k \<noteq> None)"

text \<open>The type assertion \<open>v.(string)\<close>, with the empty string on failure.\<close>

definition str_or_empty :: "json \<Rightarrow> string" where
  "str_or_empty v = (case v of JStr s \<Rightarrow> s | _ \<Rightarrow> [])"

definition asString :: "json \<Rightarrow> string" where
  "asString v = (case v of
     JStr s \<Rightarrow> s
   | JObj m \<Rightarrow> str_or_empty (jget (Some m) ''id'')
   | _ \<Rightarrow> [])"

definition asMap :: "json \<Rightarrow> gomap" where
  "asMap v = (case v of JObj m \<Rightarrow> Some m | _ \<Rightarrow> None)"

definition asSlice :: "json \<Rightarrow> json list" where
  "asSlice v = (case v of JArr xs \<Rightarrow> xs | _ \<Rightarrow> [])"

definition stringField :: "gomap \<Rightarrow> string \<Rightarrow> string" where
  "stringField m key = (case jget m key of
     JStr v \<Rightarrow> v
   | JObj v \<Rightarrow> str_or_empty (jget (Some v) ''id'')
   | _ \<Rightarrow> [])"

fun asImageURL :: "json \<Rightarrow> string" where
  "asImageURL (JStr x) = x"
| "asImageURL (JObj x) = asString (jget (Some x) ''url'')"
| "asImageURL (JArr (x # xs)) = asImageURL x"
| "asImageURL _ = []"

text \<open>
  \<open>uint64(f)\<close> of a positive float64: truncation, and for values of \<open>2\<^sup>64\<close> or more whatever the
  platform does, the parameter \<open>oor\<close>.
\<close>

definition u64_of_num :: "(rat \<Rightarrow> u64) \<Rightarrow> rat \<Rightarrow> u64" where
  "u64_of_num oor f = (if f < 2 ^ 64 then word_of_int \<lfloor>f\<rfloor> else oor f)"

definition numField :: "(rat \<Rightarrow> u64) \<Rightarrow> json \<Rightarrow> u64" where
  "numField oor v = (case v of JNum f \<Rightarrow> if f > 0 then u64_of_num oor f else 0 | _ \<Rightarrow> 0)"

definition apCollectionCount :: "(rat \<Rightarrow> u64) \<Rightarrow> json \<Rightarrow> u64" where
  "apCollectionCount oor v = (case asMap v of
     None \<Rightarrow> 0
   | Some m \<Rightarrow> (case jget (Some m) ''totalItems'' of
       JNum n \<Rightarrow> if n > 0 then u64_of_num oor n else 0
     | _ \<Rightarrow> 0))"

lemmas json_read_defs [go_defs] = jget_def jhas_def str_or_empty_def asString_def asMap_def
  asSlice_def stringField_def

lemma stringField_eq: "stringField m key = asString (jget m key)"
  by (simp add: stringField_def asString_def split: json.splits)

lemma jget_None [simp]: "jget None k = JNull"
  by (simp add: jget_def)

lemma jget_Cons [simp]: "jget (Some ((k', v) # m)) k = (if k = k' then v else jget (Some m) k)"
  by (simp add: jget_def)

lemma jget_Nil [simp]: "jget (Some []) k = JNull"
  by (simp add: jget_def)

lemma asString_simps [simp]:
  "asString JNull = []" "asString (JStr s) = s" "asString (JBool b) = []" "asString (JNum n) = []"
  "asString (JArr xs) = []" "asString (JObj m) = str_or_empty (jget (Some m) ''id'')"
  by (simp_all add: asString_def)

lemma str_or_empty_simps [simp]:
  "str_or_empty JNull = []" "str_or_empty (JStr s) = s" "str_or_empty (JBool b) = []"
  "str_or_empty (JNum n) = []" "str_or_empty (JArr xs) = []" "str_or_empty (JObj m) = []"
  by (simp_all add: str_or_empty_def)

lemma asMap_simps [simp]:
  "asMap JNull = None" "asMap (JStr s) = None" "asMap (JBool b) = None" "asMap (JNum n) = None"
  "asMap (JArr xs) = None" "asMap (JObj m) = Some m"
  by (simp_all add: asMap_def)

lemma asSlice_simps [simp]:
  "asSlice JNull = []" "asSlice (JStr s) = []" "asSlice (JBool b) = []" "asSlice (JNum n) = []"
  "asSlice (JArr xs) = xs" "asSlice (JObj m) = []"
  by (simp_all add: asSlice_def)

lemma unat_u64_of_num: "0 \<le> f \<Longrightarrow> f < 2 ^ 64 \<Longrightarrow> unat (u64_of_num oor f) = nat \<lfloor>f\<rfloor>"
proof -
  assume f: "0 \<le> f" "f < 2 ^ 64"
  then have "\<lfloor>f\<rfloor> < 2 ^ 64" by (simp add: floor_less_iff)
  moreover have "0 \<le> \<lfloor>f\<rfloor>" using f by simp
  ultimately have "uint (word_of_int \<lfloor>f\<rfloor> :: u64) = \<lfloor>f\<rfloor>"
    by (simp add: uint_word_of_int take_bit_int_eq_self)
  with f show ?thesis by (simp add: u64_of_num_def unat_eq_nat_uint)
qed

end
