(* ===== verification/Warp_Types.thy ===== *)
theory Warp_Types
  imports Json
begin

text \<open>
  The data of the gateway: the documents it emits (\<open>activitypub.go\<close>), the user it renders
  (\<open>source.go\<close>), and the fields it reads and writes of Warpnet's own domain and event types
  (\<open>warpdto.go\<close> aliases them; their package is not part of the repository).  The values that come
  from third-party packages are the fields of the parameter record \<open>warp_lib\<close>.
\<close>

text \<open>A point in time, in nanoseconds since Go's zero time, so that \<open>IsZero\<close> is \<open>t = 0\<close>.\<close>

type_synonym gotime = int

text \<open>
  Parameters: the tag stripper of \<open>html-strip-tags-go\<close>, the constants \<open>domain.RetweetPrefix\<close> and
  \<open>domain.DefaultReaction\<close>, the calendar (parsing and printing RFC 3339) and the platform's
  conversion of an out-of-range float64 to uint64.
\<close>

record warp_lib =
  lib_strip_tags :: "string \<Rightarrow> string"
  lib_retweet_prefix :: string
  lib_default_reaction :: string
  lib_parse_time :: "string \<Rightarrow> gotime option"
  lib_format_time :: "gotime \<Rightarrow> string"
  lib_oor :: "rat \<Rightarrow> u64"

section \<open>Warpnet domain types\<close>

record tweet =
  t_Id :: string
  t_RootId :: string
  t_ParentId :: "string option"
  t_ParentUserId :: "string option"
  t_Text :: string
  t_UserId :: string
  t_Username :: string
  t_RetweetedBy :: "string option"
  t_CreatedAt :: gotime
  t_Network :: string
  t_ImageKeys :: "string list"
  t_QuotedTweetId :: "string option"
  t_QuotedUserId :: "string option"

definition zero_tweet :: tweet where
  "zero_tweet = \<lparr>t_Id = [], t_RootId = [], t_ParentId = None, t_ParentUserId = None, t_Text = [],
     t_UserId = [], t_Username = [], t_RetweetedBy = None, t_CreatedAt = 0, t_Network = [],
     t_ImageKeys = [], t_QuotedTweetId = None, t_QuotedUserId = None\<rparr>"

record user =
  usr_Id :: string
  usr_Username :: string
  usr_Bio :: string
  usr_NodeId :: string
  usr_Network :: string
  usr_AvatarKey :: string
  usr_BackgroundImageKey :: string
  usr_CreatedAt :: gotime
  usr_Website :: "string option"
  usr_FollowersCount :: u64
  usr_FollowingsCount :: u64
  usr_TweetsCount :: u64

text \<open>The minimal user shape the gateway renders into an actor.\<close>

record warpnetUser =
  wu_ID :: string
  wu_PreferredUsername :: string
  wu_DisplayName :: string
  wu_Summary :: string
  wu_Avatar :: string
  wu_Background :: string

text \<open>\<open>staticSource.GetUser\<close>: a single-user source.\<close>

definition staticSource_GetUser :: "warpnetUser \<Rightarrow> string \<Rightarrow> warpnetUser option" where
  "staticSource_GetUser s preferredUsername =
     (if preferredUsername \<noteq> wu_PreferredUsername s then None else Some s)"

text \<open>The routes of the node protocol, one constructor per constant of \<open>warpdto.go\<close>.\<close>

datatype route =
    routeGetUser | routeGetUsers | routeGetTweet | routeGetTweets | routeGetFollowers
  | routeGetFollowings | routeGetImage | routePostFollow | routePostUnfollow | routePostReact
  | routePostUnreact | routePostRetweet | routePostUnretweet | routePostTweet | routeDeleteTweet

text \<open>The request payloads the gateway sends over them.\<close>

datatype payload =
    GetUserEvent (gu_UserId: string)
  | GetAllUsersEvent (gau_UserId: string) (gau_Limit: "nat option") (gau_Cursor: "string option")
  | GetTweetEvent (gt_UserId: string) (gt_TweetId: string) (gt_ParentId: string)
  | GetAllTweetsEvent (ga_UserId: string) (ga_ParentId: string) (ga_RootId: string)
      (ga_Limit: "nat option") (ga_Cursor: "string option")
  | GetImageEvent (gi_UserId: string) (gi_Key: string)
  | NewFollowEvent (nf_FollowerId: string) (nf_FollowingId: string)
  | ReactionEvent (re_TweetId: string) (re_UserId: string) (re_OwnerId: string) (re_Emoji: string)
  | UnretweetEvent (ur_TweetId: string) (ur_RetweeterId: string)
  | DeleteTweetEvent (dt_TweetId: string) (dt_UserId: string) (dt_ParentId: string) (dt_RootId: string)
  | TweetPayload (tp_tweet: tweet)

section \<open>ActivityPub documents\<close>

definition typeCreate :: string where "typeCreate = ''Create''"
definition typeUpdate :: string where "typeUpdate = ''Update''"
definition typeLike :: string where "typeLike = ''Like''"
definition typeFollow :: string where "typeFollow = ''Follow''"
definition typeUndo :: string where "typeUndo = ''Undo''"
definition typeNote :: string where "typeNote = ''Note''"
definition typeAnnounce :: string where "typeAnnounce = ''Announce''"
definition typeDelete :: string where "typeDelete = ''Delete''"
definition typeDocument :: string where "typeDocument = ''Document''"
definition typeTombstone :: string where "typeTombstone = ''Tombstone''"
definition typeMention :: string where "typeMention = ''Mention''"

lemmas type_defs [simp] = typeCreate_def typeUpdate_def typeLike_def typeFollow_def typeUndo_def
  typeNote_def typeAnnounce_def typeDelete_def typeDocument_def typeTombstone_def typeMention_def

record webFingerLink =
  wl_Rel :: string
  wl_Type :: string
  wl_Href :: string

record webFingerJRD =
  jrd_Subject :: string
  jrd_Links :: "webFingerLink list"

record publicKey =
  pk_ID :: string
  pk_Owner :: string
  pk_PublicKeyPEM :: string

record attachment =
  at_Type :: string
  at_URL :: string

record emojiIcon =
  ei_Type :: string
  ei_MediaType :: string
  ei_URL :: string

record emojiTag =
  em_Type :: string
  em_ID :: string
  em_Name :: string
  em_Icon :: "emojiIcon option"

record propertyValue =
  pv_Type :: string
  pv_Name :: string
  pv_Value :: string

text \<open>A \<open>@context\<close>: absent, one IRI, or a list of IRIs with an optional term map.\<close>

datatype ap_context = CtxNone | CtxIRI string | CtxList "string list" "(string \<times> string) list"

record actor =
  ac_Context :: ap_context
  ac_ID :: string
  ac_Type :: string
  ac_PreferredUsername :: string
  ac_Name :: string
  ac_Summary :: string
  ac_Icon :: "attachment option"
  ac_Image :: "attachment option"
  ac_Tag :: "emojiTag list"
  ac_Attachment :: "propertyValue list"
  ac_Inbox :: string
  ac_Outbox :: string
  ac_Followers :: string
  ac_Following :: string
  ac_PublicKey :: publicKey
  ac_SharedInbox :: "string option"

record mentionTag =
  mt_Type :: string
  mt_Href :: string
  mt_Name :: string

record ap_note =
  n_Context :: ap_context
  n_ID :: string
  n_Type :: string
  n_AttributedTo :: string
  n_Content :: string
  n_Published :: string
  n_Replies :: string
  n_InReplyTo :: string
  n_To :: "string list"
  n_Cc :: "string list"
  n_Tag :: "mentionTag list"
  n_Attachment :: "attachment list"

text \<open>
  The activity envelope.  Its object is any document: the inbound activity echoed back, an IRI, a
  note, an actor, a tombstone, or the activity an Undo wraps.
\<close>

datatype activity = Activity
    (act_Context: ap_context) (act_ID: string) (act_Type: string) (act_Actor: string)
    (act_Object: ap_object) (act_To: "string list") (act_Cc: "string list")
  and ap_object =
    ObjInbound gomap | ObjIRI string | ObjNote ap_note | ObjActor actor
  | ObjTombstone (tomb_ID: string) (tomb_Type: string) | ObjActivity activity

text \<open>The items of an ordered collection.\<close>

datatype coll_item = ItemIRI string | ItemNote ap_note | ItemActivity activity

record orderedCollection =
  oc_Context :: ap_context
  oc_ID :: string
  oc_Type :: string
  oc_TotalItems :: nat
  oc_OrderedItems :: "coll_item list"

end
