(* ===== verification/Actor_Ids.thy ===== *)
theory Actor_Ids
  imports Go_Url Go_Base64 Warp_Types
begin

text \<open>
  Identity: how a remote actor URL becomes a Warpnet user id and back (\<open>followers.go\<close>,
  \<open>inbound.go\<close>), and the media references of \<open>mediaproxy.go\<close>.
\<close>

section \<open>Follower ids\<close>

definition apFollowerPrefix :: string where
  "apFollowerPrefix = ''ap:''"

definition encodeActorID :: "string \<Rightarrow> string" where
  "encodeActorID actorURL = apFollowerPrefix @ raw_url_encode actorURL"

definition isBridgedUserID :: "string \<Rightarrow> bool" where
  "isBridgedUserID i \<longleftrightarrow> has_prefix i apFollowerPrefix \<or> contains i ''@''"

datatype decode_error = ErrNotAPFollower | ErrCorruptInput

definition decodeActorID :: "string \<Rightarrow> decode_error + string" where
  "decodeActorID i = (case cut_prefix i apFollowerPrefix of
     None \<Rightarrow> Inl ErrNotAPFollower
   | Some enc \<Rightarrow> (case raw_url_decode enc of
       None \<Rightarrow> Inl ErrCorruptInput
     | Some bt \<Rightarrow> Inr bt))"

text \<open>\<open>handleFromActorURL\<close>: the \<open>name@host\<close> handle, or the raw URL when none can be derived.\<close>

definition handleFromActorURL :: "string \<Rightarrow> string" where
  "handleFromActorURL actorURL = (case url_parse actorURL of
     None \<Rightarrow> actorURL
   | Some u \<Rightarrow>
       if u_host u = [] then actorURL
       else let name = trim_prefix (path_base (u_path u)) ''@'' in
         if name = [] \<or> name = ''.'' \<or> name = ''/'' then actorURL
         else name @ ''@'' @ u_host u)"

definition bridgedUserID :: "string \<Rightarrow> string" where
  "bridgedUserID actorURL = (let handle = handleFromActorURL actorURL in
     if \<not> contains handle ''@'' then encodeActorID actorURL else handle)"

section \<open>Media references\<close>

definition mediaRefSep :: string where
  "mediaRefSep = [CHR 0x1F]"

definition encodeMediaRef :: "string \<Rightarrow> string \<Rightarrow> string" where
  "encodeMediaRef userID key = raw_url_encode (userID @ mediaRefSep @ key)"

definition decodeMediaRef :: "string \<Rightarrow> string \<times> string \<times> bool" where
  "decodeMediaRef ref = (case raw_url_decode ref of
     None \<Rightarrow> ([], [], False)
   | Some bt \<Rightarrow> cut bt mediaRefSep)"

section \<open>Properties of ids\<close>

lemma decode_encode_actor [simp]: "decodeActorID (encodeActorID u) = Inr u"
  by (simp add: decodeActorID_def encodeActorID_def)

lemma encodeActorID_inj: "encodeActorID u = encodeActorID v \<longleftrightarrow> u = v"
  by (simp add: encodeActorID_def raw_url_encode_inj)

lemma encodeActorID_bridged: "isBridgedUserID (encodeActorID u)"
  by (simp add: isBridgedUserID_def encodeActorID_def)

lemma encodeActorID_no_slash: "CHR ''/'' \<notin> set (encodeActorID u)"
  using raw_url_encode_safe by (auto simp: encodeActorID_def apFollowerPrefix_def)

lemma decode_media_ref:
  "CHR 0x1F \<notin> set u \<Longrightarrow> decodeMediaRef (encodeMediaRef u k) = (u, k, True)"
  by (simp add: decodeMediaRef_def encodeMediaRef_def mediaRefSep_def cut_byte_append)

lemma bridgedUserID_bridged: "isBridgedUserID (bridgedUserID u)"
  using encodeActorID_bridged [of u] by (simp add: bridgedUserID_def Let_def isBridgedUserID_def)

text \<open>A handle has the form \<open>name@host\<close>, where the host is that of the parsed URL.\<close>

lemma handleFromActorURL_cases:
  "handleFromActorURL a = a \<or>
     (\<exists>u name. url_parse a = Some u \<and> u_host u \<noteq> [] \<and> name \<noteq> [] \<and>
        handleFromActorURL a = name @ ''@'' @ u_host u)"
  by (auto simp: handleFromActorURL_def Let_def split: option.splits)

text \<open>The last segment of a path.\<close>

lemma takeWhile_rev_segment:
  "CHR ''/'' \<notin> set s \<Longrightarrow>
    takeWhile (\<lambda>c. c \<noteq> CHR ''/'') (rev (p @ CHR ''/'' # s)) = rev s"
proof -
  assume s: "CHR ''/'' \<notin> set s"
  then have "\<forall>c\<in>set (rev s). c \<noteq> CHR ''/''" by auto
  then have "takeWhile (\<lambda>c. c \<noteq> CHR ''/'') (rev s @ CHR ''/'' # rev p) = rev s"
    by (subst takeWhile_append2) auto
  then show ?thesis by simp
qed

lemma path_base_segment:
  assumes "s \<noteq> []" "CHR ''/'' \<notin> set s" shows "path_base (p @ CHR ''/'' # s) = s"
proof -
  have "last s \<noteq> CHR ''/''" using assms by (metis last_in_set)
  then have "trim_right_set {CHR ''/''} (p @ CHR ''/'' # s) = p @ CHR ''/'' # s"
    using assms(1) by (cases s rule: rev_cases) (simp_all add: trim_right_set_def)
  then show ?thesis
    using assms takeWhile_rev_segment [OF assms(2), of p]
    by (simp only: path_base_def Let_def) simp
qed

definition plain_name :: "string \<Rightarrow> bool" where
  "plain_name s \<longleftrightarrow> s \<noteq> [] \<and> s \<noteq> ''.'' \<and> (\<forall>c\<in>set s. is_unreserved c)"

lemma plain_name_no_delims:
  "plain_name s \<Longrightarrow> CHR ''/'' \<notin> set s \<and> CHR ''@'' \<notin> set s \<and> CHR ''?'' \<notin> set s \<and> CHR 0x23 \<notin> set s"
  using is_unreserved_plain is_unreserved_not_delim by (auto simp: plain_name_def)

lemma plain_name_path: "plain_name s \<Longrightarrow> plain_path (''/users/'' @ s)"
  by (auto simp: plain_path_def plain_name_def is_unreserved_def is_alnum_def is_digit_def)

text \<open>The actor URL of a Mastodon-style account gives its \<open>name@host\<close> handle.\<close>

lemma handle_of_users_url:
  assumes h: "plain_host h" "h \<noteq> []" and n: "plain_name n"
  shows "handleFromActorURL (''https://'' @ h @ ''/users/'' @ n) = n @ ''@'' @ h"
proof -
  note d = plain_name_no_delims [OF n]
  have b: "path_base (''/users/'' @ n) = n"
    using path_base_segment [of n "''/users''"] n d by (simp add: plain_name_def)
  have "\<not> prefix ''@'' n" using d by (cases n) auto
  then have t: "trim_prefix n ''@'' = n" by (simp add: trim_prefix_def)
  have "n \<noteq> ''/''" using d by auto
  with parse_https [OF h(1) plain_name_path [OF n]] b t h n show ?thesis
    by (simp add: handleFromActorURL_def plain_name_def)
qed

lemma bridged_of_users_url:
  "plain_host h \<Longrightarrow> h \<noteq> [] \<Longrightarrow> plain_name n \<Longrightarrow>
    bridgedUserID (''https://'' @ h @ ''/users/'' @ n) = n @ ''@'' @ h"
  by (simp add: bridgedUserID_def handle_of_users_url [simplified] contains_byte_iff)

end
