(* ===== verification/Mastodon_Map.thy ===== *)
theory Mastodon_Map
  imports Actor_Ids
begin

text \<open>
  The pure conversions of \<open>mastodon-map.go\<close> from ActivityPub documents to Warpnet users and tweets:
  HTML flattening, the quote conventions of the Fediverse, and the reading of actors and notes.
  The wall clock is the argument \<open>now\<close>.
\<close>

definition mastodonNetwork :: string where
  "mastodonNetwork = ''mastodon''"

section \<open>Text\<close>

text \<open>
  The match of the regular expression \<open>lineBreakTags\<close>, a case-insensitive \<open><br\s*/?>\<close> or
  \<open></p>\<close>, at the start of a string: its length, or 0.
\<close>

definition re_space :: "char \<Rightarrow> bool" where
  "re_space c \<longleftrightarrow> c \<in> {CHR 0x09, CHR 0x0A, CHR 0x0C, CHR 0x0D, CHR 0x20}"

definition lineBreakTags :: "string \<Rightarrow> nat" where
  "lineBreakTags s =
     (if map lower_byte (take 3 s) = ''<br'' then
        (let ws = takeWhile re_space (drop 3 s);
             r = dropWhile re_space (drop 3 s);
             sl = (if prefix ''/'' r then 1 else 0) in
         if prefix ''>'' (drop sl r) then 4 + length ws + sl else 0)
      else if map lower_byte (take 4 s) = ''</p>'' then 4 else 0)"

function replace_breaks :: "string \<Rightarrow> string" where
  "replace_breaks s = (case s of
     [] \<Rightarrow> []
   | c # cs \<Rightarrow>
       if lineBreakTags s > 0 then CHR 0x0A # replace_breaks (drop (lineBreakTags s) s)
       else c # replace_breaks cs)"
  by pat_completeness auto
termination by (relation "measure length") auto

declare replace_breaks.simps [simp del]

definition htmlToText :: "warp_lib \<Rightarrow> string \<Rightarrow> string" where
  "htmlToText L html = trim_space (lib_strip_tags L (replace_breaks html))"

text \<open>\<open>splitREQuote\<close>: the quoted URL and the comment before a closing \<open>RE: <url>\<close>.\<close>

definition splitREQuote :: "string \<Rightarrow> (string \<times> string) option" where
  "splitREQuote text =
     (let trimmed = trim_space text in
      case last_index trimmed ''RE: https://'' of
        None \<Rightarrow> None
      | Some i \<Rightarrow>
          if i > 0 \<and> \<not> is_space_byte (trimmed ! (i - 1)) then None
          else let quotedURL = drop (i + length ''RE: '') trimmed in
            if index_space quotedURL \<noteq> None then None
            else Some (quotedURL, trim_space (take i trimmed)))"

text \<open>\<open>splitREPrefix\<close>: the URL and the remaining text of a note that opens with \<open>RE: <url>\<close>.\<close>

definition splitREPrefix :: "string \<Rightarrow> (string \<times> string) option" where
  "splitREPrefix text =
     (let trimmed = trim_space text in
      if length trimmed < 3 \<or> \<not> equal_fold (take 3 trimmed) ''re:'' then None
      else
        let p = trim_space (drop 3 trimmed);
            (parentURL, rest) = (case index_space p of
                Some i \<Rightarrow> (take i p, trim_space (drop i p))
              | None \<Rightarrow> (p, [])) in
        if \<not> has_prefix parentURL ''https://'' then None else Some (parentURL, rest))"

text \<open>\<open>stripQuoteFallback\<close>: \<^const>\<open>None\<close> stands for the unchanged text with \<open>false\<close>.\<close>

definition stripQuoteFallback :: "string \<Rightarrow> string option" where
  "stripQuoteFallback text = (case splitREQuote text of
     Some (_, comment) \<Rightarrow> Some comment
   | None \<Rightarrow> (case splitREPrefix text of
       Some (_, rest) \<Rightarrow> Some rest
     | None \<Rightarrow> None))"

section \<open>Quotes\<close>

fun first_https :: "gomap \<Rightarrow> string list \<Rightarrow> string" where
  "first_https note [] = []"
| "first_https note (k # ks) =
     (let u0 = asString (jget note k);
          u = (if u0 = [] then asString (jget (asMap (jget note k)) ''href'') else u0) in
      if has_prefix u ''https://'' then u else first_https note ks)"

definition quotedNoteURL :: "gomap \<Rightarrow> string" where
  "quotedNoteURL note = first_https note [''quoteUri'', ''quoteUrl'', ''_misskey_quote'', ''quote'']"

definition statusAuthorHandle :: "string \<Rightarrow> string" where
  "statusAuthorHandle statusURL = (case url_parse statusURL of
     None \<Rightarrow> []
   | Some u \<Rightarrow>
       if u_host u = [] then []
       else let segs = split_on CHR ''/'' (trim_set {CHR ''/''} (u_path u)) in
         if length segs \<ge> 3 \<and> segs ! 0 = ''users'' \<and> segs ! 1 \<noteq> [] \<and> segs ! 2 = ''statuses''
         then segs ! 1 @ ''@'' @ u_host u
         else if length segs \<ge> 2 \<and> length (segs ! 0) > 1 \<and> segs ! 0 ! 0 = CHR ''@''
         then drop 1 (segs ! 0) @ ''@'' @ u_host u
         else [])"

definition setQuoted :: "tweet \<Rightarrow> string \<Rightarrow> tweet" where
  "setQuoted t qURL =
     (let t1 = t\<lparr>t_QuotedTweetId := Some qURL\<rparr>; h = statusAuthorHandle qURL in
      if h \<noteq> [] then t1\<lparr>t_QuotedUserId := Some h\<rparr> else t1)"

section \<open>Actors and notes\<close>

definition parseAPTime :: "warp_lib \<Rightarrow> string \<Rightarrow> gotime" where
  "parseAPTime L s = (if s = [] then 0 else case lib_parse_time L s of None \<Rightarrow> 0 | Some t \<Rightarrow> t)"

definition actorToUser :: "warp_lib \<Rightarrow> gotime \<Rightarrow> string \<Rightarrow> string \<Rightarrow> gomap \<Rightarrow> string \<Rightarrow> user" where
  "actorToUser L now handle actorURL m nodeID =
     (let name0 = str_or_empty (jget m ''name'');
          name = (if name0 = [] then str_or_empty (jget m ''preferredUsername'') else name0);
          created = parseAPTime L (asString (jget m ''published'')) in
      \<lparr>usr_Id = handle, usr_Username = name, usr_Bio = lib_strip_tags L (asString (jget m ''summary'')),
       usr_NodeId = nodeID, usr_Network = mastodonNetwork,
       usr_AvatarKey = asImageURL (jget m ''icon''),
       usr_BackgroundImageKey = asImageURL (jget m ''image''),
       usr_CreatedAt = (if created = 0 then now else created),
       usr_Website = (if actorURL \<noteq> [] then Some actorURL else None),
       usr_FollowersCount = 0, usr_FollowingsCount = 0, usr_TweetsCount = 0\<rparr>)"

text \<open>The image URLs of a note's attachments.\<close>

fun note_images :: "json list \<Rightarrow> string list" where
  "note_images [] = []"
| "note_images (a # as) =
     (case asMap a of
        None \<Rightarrow> note_images as
      | Some att \<Rightarrow>
          if \<not> has_prefix (str_or_empty (jget (Some att) ''mediaType'')) ''image/'' then note_images as
          else let u = asString (jget (Some att) ''url'') in
            if u \<noteq> [] then u # note_images as else note_images as)"

text \<open>
  The quote and reply conventions applied to a freshly read note: an explicit quote property, a
  closing \<open>RE:\<close> line, or a leading \<open>RE:\<close> on a note that answers nothing.
\<close>

definition apply_quote :: "gomap \<Rightarrow> tweet \<Rightarrow> tweet" where
  "apply_quote note t =
     (if quotedNoteURL note \<noteq> [] then
        (let t1 = setQuoted t (quotedNoteURL note) in
         case stripQuoteFallback (t_Text t1) of
           Some comment \<Rightarrow> if comment \<noteq> [] then t1\<lparr>t_Text := comment\<rparr> else t1
         | None \<Rightarrow> t1)
      else case splitREQuote (t_Text t) of
        Some (q, comment) \<Rightarrow>
          if comment \<noteq> [] then (setQuoted t q)\<lparr>t_Text := comment\<rparr>
          else if t_ParentId t = None then
            (case splitREPrefix (t_Text t) of
               Some (parent, rest) \<Rightarrow>
                 (let t1 = t\<lparr>t_RootId := parent, t_ParentId := Some parent\<rparr> in
                  if rest \<noteq> [] then t1\<lparr>t_Text := rest\<rparr> else t1)
             | None \<Rightarrow> t)
          else t
      | None \<Rightarrow>
          if t_ParentId t = None then
            (case splitREPrefix (t_Text t) of
               Some (parent, rest) \<Rightarrow>
                 (let t1 = t\<lparr>t_RootId := parent, t_ParentId := Some parent\<rparr> in
                  if rest \<noteq> [] then t1\<lparr>t_Text := rest\<rparr> else t1)
             | None \<Rightarrow> t)
          else t)"

definition noteToTweet :: "warp_lib \<Rightarrow> gotime \<Rightarrow> string \<Rightarrow> gomap \<Rightarrow> tweet option" where
  "noteToTweet L now authorHandle note =
     (if str_or_empty (jget note ''type'') \<noteq> typeNote then None
      else let i = asString (jget note ''id'') in
        if i = [] then None
        else
          let username = (if authorHandle = [] then handleFromActorURL (asString (jget note ''attributedTo''))
                          else authorHandle);
              t0 = zero_tweet\<lparr>t_Id := i, t_RootId := i, t_Text := htmlToText L (asString (jget note ''content'')),
                t_UserId := username, t_Username := username,
                t_CreatedAt := parseAPTime L (asString (jget note ''published'')),
                t_Network := mastodonNetwork\<rparr>;
              parent = asString (jget note ''inReplyTo'');
              t1 = (if parent \<noteq> [] then t0\<lparr>t_RootId := parent, t_ParentId := Some parent\<rparr> else t0);
              t2 = apply_quote note t1;
              t3 = (if t_CreatedAt t2 = 0 then t2\<lparr>t_CreatedAt := now\<rparr> else t2) in
          Some (t3\<lparr>t_ImageKeys := note_images (asSlice (jget note ''attachment''))\<rparr>))"

text \<open>\<open>collectHandles\<close>: the handles of a collection page's members.\<close>

definition collectHandles :: "gomap \<Rightarrow> string list" where
  "collectHandles page =
     (let items0 = asSlice (jget page ''orderedItems'');
          items = (if items0 = [] then asSlice (jget page ''items'') else items0) in
      map handleFromActorURL (filter (\<lambda>u. u \<noteq> []) (map asString items)))"

end
