(* ===== verification/Gateway_Urls.thy ===== *)
theory Gateway_Urls
  imports Actor_Ids Mastodon_Map
begin

text \<open>
  The URLs the gateway mints and recognises (\<open>server.go\<close>, \<open>inbound.go\<close>, \<open>mastodon-bridge.go\<close>), and the
  guard every outbound request passes (\<open>validateRemoteURL\<close>, \<open>checkRemoteURL\<close>, the dialer's control
  function and the redirect check).  The fixed fields of the \<open>gateway\<close> struct are the record
  \<open>gateway\<close>.
\<close>

record gateway =
  gw_host :: string
  gw_has_key :: bool
  gw_keyPubPEM :: string
  gw_has_node :: bool
  gw_logsToken :: string
  gw_allowPrivateTargets :: bool

section \<open>URL construction\<close>

definition pathUsers :: string where "pathUsers = ''/users/''"
definition pathInbox :: string where "pathInbox = ''/inbox''"
definition pathActor :: string where "pathActor = ''/actor''"
definition pathFollowers :: string where "pathFollowers = ''/followers''"
definition pathStatuses :: string where "pathStatuses = ''/statuses/''"
definition pathMedia :: string where "pathMedia = ''/media/''"
definition replyParentQuery :: string where "replyParentQuery = ''parent''"
definition instanceActorName :: string where "instanceActorName = ''warpnet-gw''"
definition contentTypeAP :: string where "contentTypeAP = ''application/activity+json''"
definition contentTypeJRD :: string where "contentTypeJRD = ''application/jrd+json''"
definition asContext :: string where "asContext = ''https://www.w3.org/ns/activitystreams''"
definition secContext :: string where "secContext = ''https://w3id.org/security/v1''"
definition asPublic :: string where "asPublic = ''https://www.w3.org/ns/activitystreams#Public''"

lemmas path_defs [simp] = pathUsers_def pathInbox_def pathActor_def pathFollowers_def
  pathStatuses_def pathMedia_def replyParentQuery_def

definition baseURL :: "gateway \<Rightarrow> string" where
  "baseURL g = ''https://'' @ gw_host g"

definition actorID :: "gateway \<Rightarrow> string \<Rightarrow> string" where
  "actorID g user = baseURL g @ pathUsers @ user"

definition keyID :: "gateway \<Rightarrow> string \<Rightarrow> string" where
  "keyID g user = actorID g user @ ''#main-key''"

definition instanceActorID :: "gateway \<Rightarrow> string" where
  "instanceActorID g = baseURL g @ pathActor"

definition instanceKeyID :: "gateway \<Rightarrow> string" where
  "instanceKeyID g = instanceActorID g @ ''#main-key''"

section \<open>Recognising our own URLs\<close>

text \<open>\<open>parseLocalStatus\<close>: the owner and tweet id of one of our own status URLs.\<close>

definition parseLocalStatus :: "gateway \<Rightarrow> string \<Rightarrow> (string \<times> string) option" where
  "parseLocalStatus g statusURL =
     (let s1 = fst (cut statusURL ''#''); s2 = fst (cut s1 ''?'') in
      case cut_prefix s2 (baseURL g @ pathUsers) of
        None \<Rightarrow> None
      | Some rest \<Rightarrow>
          (let (owner, after, found) = cut rest pathStatuses in
           if \<not> found \<or> owner = [] \<or> after = [] then None
           else Some (owner, case index_byte after CHR ''/'' of Some i \<Rightarrow> take i after | None \<Rightarrow> after)))"

definition userFromActorURL :: "string \<Rightarrow> string" where
  "userFromActorURL u =
     (let (_, rest, ok) = cut u pathUsers in
      if \<not> ok then []
      else case index_byte rest CHR ''/'' of Some i \<Rightarrow> take i rest | None \<Rightarrow> rest)"

definition isSelfHost :: "gateway \<Rightarrow> string \<Rightarrow> bool" where
  "isSelfHost g host \<longleftrightarrow> gw_host g \<noteq> [] \<and> equal_fold host (gw_host g)"

definition isSelfURL :: "gateway \<Rightarrow> string \<Rightarrow> bool" where
  "isSelfURL g raw \<longleftrightarrow> (case url_parse raw of None \<Rightarrow> False | Some u \<Rightarrow> isSelfHost g (url_hostname u))"

section \<open>The outbound guard\<close>

datatype url_error = ErrParseURL | ErrInsecureURL | ErrBlockedHost | ErrSelfTarget | ErrTooManyRedirects

definition isBlockedIP :: "ip_addr \<Rightarrow> bool" where
  "isBlockedIP ip \<longleftrightarrow> is_loopback ip \<or> is_private ip \<or> is_unspecified ip \<or>
     is_link_local_unicast ip \<or> is_link_local_multicast ip \<or> is_multicast ip"

text \<open>The URL check; \<^const>\<open>None\<close> means that the URL is accepted.\<close>

definition validateRemoteURL :: "string \<Rightarrow> url_error option" where
  "validateRemoteURL raw = (case url_parse raw of
     None \<Rightarrow> Some ErrParseURL
   | Some u \<Rightarrow>
       if u_scheme u \<noteq> ''https'' then Some ErrInsecureURL
       else let host = url_hostname u in
         if host = [] then Some ErrBlockedHost
         else if equal_fold host ''localhost'' \<or> has_suffix (to_lower host) ''.localhost''
         then Some ErrBlockedHost
         else (case parse_addr host of
             Some addr \<Rightarrow> if isBlockedIP addr then Some ErrBlockedHost else None
           | None \<Rightarrow> None))"

definition checkRemoteURL :: "gateway \<Rightarrow> string \<Rightarrow> url_error option" where
  "checkRemoteURL g raw =
     (if isSelfURL g raw then Some ErrSelfTarget
      else if gw_allowPrivateTargets g then None
      else validateRemoteURL raw)"

text \<open>\<open>newSafeClient\<close>: the check of each redirect hop, after \<open>via\<close> earlier ones, and of the dialled host.\<close>

definition maxRedirects :: nat where "maxRedirects = 5"

definition checkRedirect :: "nat \<Rightarrow> string \<Rightarrow> url_error option" where
  "checkRedirect via raw = (if via \<ge> maxRedirects then Some ErrTooManyRedirects else validateRemoteURL raw)"

definition dialControl :: "string \<Rightarrow> url_error option" where
  "dialControl host = (case parse_addr host of
     Some ip \<Rightarrow> if isBlockedIP ip then Some ErrBlockedHost else None
   | None \<Rightarrow> None)"

definition retryableStatus :: "nat \<Rightarrow> bool" where
  "retryableStatus code \<longleftrightarrow> code = 429 \<or> code \<ge> 500"

section \<open>Round trips of our own URLs\<close>

text \<open>The last part of a status URL may be followed by a sub-path, a query or a fragment.\<close>

definition url_tail :: "string \<Rightarrow> bool" where
  "url_tail s \<longleftrightarrow> s = [] \<or> hd s \<in> {CHR ''/'', CHR ''?'', CHR 0x23}"

definition id_segment :: "string \<Rightarrow> bool" where
  "id_segment s \<longleftrightarrow> s \<noteq> [] \<and> CHR ''/'' \<notin> set s \<and> CHR ''?'' \<notin> set s \<and> CHR 0x23 \<notin> set s"

lemma id_segment_plain: "plain_name s \<Longrightarrow> id_segment s"
  using plain_name_no_delims [of s] by (simp add: id_segment_def plain_name_def)

lemma cut_drop_tail:
  assumes "c \<notin> set a"
  shows "\<exists>t'. fst (cut (a @ t) [c]) = a @ t' \<and> t' = takeWhile (\<lambda>x. x \<noteq> c) t"
proof (cases "c \<in> set t")
  case True
  then obtain u v where "t = u @ c # v" "c \<notin> set u" by (meson split_list_first)
  moreover have "takeWhile (\<lambda>x. x \<noteq> c) (u @ c # v) = u" using \<open>c \<notin> set u\<close> by (subst takeWhile_append2) auto
  ultimately show ?thesis using assms cut_byte_append [of c "a @ u" v] by simp
next
  case False
  then have t: "takeWhile (\<lambda>x. x \<noteq> c) t = t" by (induction t) auto
  have "cut (a @ t) [c] = (a @ t, [], False)" using False assms by (simp add: cut_absent)
  then show ?thesis by (simp add: t)
qed

lemma fst_cut_tail: "c \<notin> set a \<Longrightarrow> fst (cut (a @ t) [c]) = a @ takeWhile (\<lambda>x. x \<noteq> c) t"
  using cut_drop_tail by blast

lemma url_tail_cut: "url_tail t \<Longrightarrow> url_tail (takeWhile P t)"
  by (cases t) (auto simp: url_tail_def)

lemma takeWhile_head: "takeWhile P t \<noteq> [] \<Longrightarrow> P (hd (takeWhile P t))"
  by (cases t) (auto split: if_splits)

lemma url_tail_path:
  assumes "url_tail t"
  shows "takeWhile (\<lambda>x. x \<noteq> CHR ''?'') (takeWhile (\<lambda>x. x \<noteq> CHR 0x23) t) = [] \<or>
    (\<exists>r. takeWhile (\<lambda>x. x \<noteq> CHR ''?'') (takeWhile (\<lambda>x. x \<noteq> CHR 0x23) t) = CHR ''/'' # r)"
  using assms by (cases t) (auto simp: url_tail_def)

text \<open>Everything the gateway appends to a status id leads back to its owner and id.\<close>

lemma parseLocalStatus_append:
  assumes h: "CHR ''?'' \<notin> set (gw_host g)" "CHR 0x23 \<notin> set (gw_host g)"
    and u: "id_segment u" and i: "id_segment i" and t: "url_tail t"
  shows "parseLocalStatus g (actorID g u @ pathStatuses @ i @ t) = Some (u, i)"
proof -
  let ?base = "''https://'' @ gw_host g @ ''/users/''"
  let ?r = "takeWhile (\<lambda>x. x \<noteq> CHR ''?'') (takeWhile (\<lambda>x. x \<noteq> CHR 0x23) t)"
  have e: "actorID g u @ pathStatuses @ i @ t = (?base @ u @ ''/statuses/'' @ i) @ t"
    by (simp add: actorID_def baseURL_def)
  have c1: "fst (cut ((?base @ u @ ''/statuses/'' @ i) @ t) ''#'')
      = (?base @ u @ ''/statuses/'' @ i) @ takeWhile (\<lambda>x. x \<noteq> CHR 0x23) t"
    by (rule fst_cut_tail) (use h u i in \<open>simp add: id_segment_def\<close>)
  have c2: "fst (cut ((?base @ u @ ''/statuses/'' @ i) @ takeWhile (\<lambda>x. x \<noteq> CHR 0x23) t) ''?'')
      = (?base @ u @ ''/statuses/'' @ i) @ ?r"
    by (rule fst_cut_tail) (use h u i in \<open>simp add: id_segment_def\<close>)
  have p: "cut_prefix ((?base @ u @ ''/statuses/'' @ i) @ ?r) (baseURL g @ pathUsers)
      = Some (u @ ''/statuses/'' @ i @ ?r)"
    using cut_prefix_append [of ?base "u @ ''/statuses/'' @ i @ ?r"] by (simp add: baseURL_def)
  have s: "cut (u @ ''/statuses/'' @ i @ ?r) pathStatuses = (u, i @ ?r, True)"
    using cut_append [of "''/statuses/''" u "i @ ?r"] u by (simp add: id_segment_def)
  have ne: "u \<noteq> []" "i @ ?r \<noteq> []" and slash: "CHR ''/'' \<notin> set i" using u i by (auto simp: id_segment_def)
  have x: "(case index_byte (i @ ?r) CHR ''/'' of Some k \<Rightarrow> take k (i @ ?r) | None \<Rightarrow> i @ ?r) = i"
    using url_tail_path [OF t] slash by auto
  show ?thesis
    unfolding parseLocalStatus_def e c1 c2 Let_def p option.case s prod.case using ne x by simp
qed

lemma userFromActorURL_tail:
  assumes h: "CHR ''/'' \<notin> set (gw_host g)" "gw_host g \<noteq> ''users''"
    and u: "CHR ''/'' \<notin> set u" and t: "t = [] \<or> hd t = CHR ''/''"
  shows "userFromActorURL (actorID g u @ t) = u"
proof -
  have np: "\<not> prefix ''/users/'' (CHR ''/'' # gw_host g @ ''/users/'' @ u @ t)"
  proof
    assume "prefix ''/users/'' (CHR ''/'' # gw_host g @ ''/users/'' @ u @ t)"
    then obtain z where z: "gw_host g @ CHR ''/'' # ''users/'' @ u @ t = ''users'' @ CHR ''/'' # z"
      by (auto simp: prefix_def)
    have "takeWhile (\<lambda>c. c \<noteq> CHR ''/'') (gw_host g @ CHR ''/'' # ''users/'' @ u @ t) = gw_host g"
      using h(1) by (subst takeWhile_append2) auto
    moreover have "takeWhile (\<lambda>c. c \<noteq> CHR ''/'') (''users'' @ CHR ''/'' # z) = ''users''" by simp
    ultimately show False using z h(2) by simp
  qed
  have i: "index_of (gw_host g @ ''/users/'' @ u @ t) ''/users/'' = Some (length (gw_host g))"
    by (rule index_of_append) (use h(1) in auto)
  have np2: "\<not> prefix ''/users/'' (CHR ''/'' # CHR ''/'' # gw_host g @ ''/users/'' @ u @ t)" by simp
  have "cut (actorID g u @ t) pathUsers = (''https://'' @ gw_host g, u @ t, True)"
    using np np2 i by (simp add: cut_def actorID_def baseURL_def)
  moreover have "(case index_byte (u @ t) CHR ''/'' of Some k \<Rightarrow> take k (u @ t) | None \<Rightarrow> u @ t) = u"
    using t u by (cases t) auto
  ultimately show ?thesis by (simp add: userFromActorURL_def)
qed

section \<open>The guard\<close>

lemma validate_https_plain:
  assumes "plain_host h" "h \<noteq> []" "plain_path p"
  shows "validateRemoteURL (''https://'' @ h @ p) =
    (if equal_fold h ''localhost'' \<or> has_suffix (to_lower h) ''.localhost'' then Some ErrBlockedHost
     else dialControl h)"
  using parse_https [OF assms(1,3)] url_hostname_plain [OF assms(1)] assms(2)
  by (simp add: validateRemoteURL_def dialControl_def del: append.simps)

lemma self_url:
  assumes "plain_host (gw_host g)" "gw_host g \<noteq> []" "plain_path p"
  shows "isSelfURL g (baseURL g @ p)"
  using parse_https [OF assms(1,3)] url_hostname_plain [OF assms(1)] assms(2)
  by (simp add: isSelfURL_def isSelfHost_def baseURL_def)

text \<open>What acceptance by the guard means for the parsed URL.\<close>

lemma validate_accepts:
  "validateRemoteURL raw = None \<Longrightarrow>
     \<exists>u. url_parse raw = Some u \<and> u_scheme u = ''https'' \<and> url_hostname u \<noteq> [] \<and>
         \<not> equal_fold (url_hostname u) ''localhost'' \<and> dialControl (url_hostname u) = None"
  by (auto simp: validateRemoteURL_def dialControl_def Let_def split: option.splits if_splits)

lemma check_accepts:
  "checkRemoteURL g raw = None \<Longrightarrow>
     \<not> isSelfURL g raw \<and> (gw_allowPrivateTargets g \<or> validateRemoteURL raw = None)"
  by (auto simp: checkRemoteURL_def split: if_splits)

subsection \<open>Literal IPv4 targets\<close>

unbundle bit_operations_syntax

lemma all_u8: "(\<forall>n\<in>set [0..<256]. P (of_nat n :: u8)) \<Longrightarrow> P (a :: u8)"
proof -
  assume h: "\<forall>n\<in>set [0..<256]. P (of_nat n :: u8)"
  have "unat a < 256" using unsigned_less [of a] by simp
  then have "unat a \<in> set [0..<256]" by simp
  with h have "P (of_nat (unat a))" by blast
  then show ?thesis by simp
qed

lemma class_d_octet: "(a :: u8) AND 0xF0 = 0xE0 \<longleftrightarrow> 224 \<le> a \<and> a < 240"
  by (rule all_u8, code_simp)

lemma private_172_octet: "(a :: u8) AND 0xF0 = 16 \<longleftrightarrow> 16 \<le> a \<and> a < 32"
  by (rule all_u8, code_simp)

definition dotted :: "string \<Rightarrow> bool" where
  "dotted s \<longleftrightarrow> (\<forall>c\<in>set s. is_digit c \<or> c = CHR ''.'')"

lemma dotted_show_ipv4: "dotted (show_ipv4 a b c d)"
  using show_nat_digits by (auto simp: dotted_def show_ipv4_def)

lemma digit_not_upper: "is_digit c \<Longrightarrow> lower_byte c = c"
  by (simp add: is_digit_def lower_byte_def is_upper_ascii_def)

lemma dotted_not_localhost:
  assumes "dotted s" shows "\<not> equal_fold s ''localhost''" "\<not> has_suffix (to_lower s) ''.localhost''"
proof -
  have t: "CHR ''t'' \<notin> set s" using assms by (auto simp: dotted_def is_digit_def)
  have n: "fold_norm s = s" "to_lower s = s"
    using assms by (induction s) (auto simp: dotted_def digit_not_upper lower_byte_def is_upper_ascii_def is_digit_def)
  have "fold_norm ''localhost'' = ''localhost''" by code_simp
  with n t show "\<not> equal_fold s ''localhost''" by (auto simp: equal_fold_def)
  show "\<not> has_suffix (to_lower s) ''.localhost''" using n t by (auto simp: suffix_def)
qed

lemma dotted_plain_host: "dotted s \<Longrightarrow> plain_host s"
  by (auto simp: dotted_def plain_host_def is_unreserved_def is_alnum_def)

definition ipv4_forbidden :: "u8 \<Rightarrow> u8 \<Rightarrow> u8 \<Rightarrow> u8 \<Rightarrow> bool" where
  "ipv4_forbidden a b c d \<longleftrightarrow> a = 127 \<or> a = 10 \<or> (a = 172 \<and> 16 \<le> b \<and> b < 32) \<or> (a = 192 \<and> b = 168) \<or>
     (a = 169 \<and> b = 254) \<or> (224 \<le> a \<and> a < 240) \<or> (a = 0 \<and> b = 0 \<and> c = 0 \<and> d = 0)"

lemma isBlockedIP_V4: "isBlockedIP (V4 a b c d) \<longleftrightarrow> ipv4_forbidden a b c d"
  by (auto simp: isBlockedIP_def ipv4_forbidden_def unmap_def is_loopback_def is_private_def
      is_unspecified_def is_link_local_unicast_def is_link_local_multicast_def is_multicast_def
      class_d_octet private_172_octet)

lemma show_ipv4_ne: "show_ipv4 a b c d \<noteq> []"
  by (simp add: show_ipv4_def)

text \<open>
  The SSRF guard on literal IPv4 targets.  A URL whose host is a dotted quad is rejected, as a
  blocked host, exactly when the address is loopback, private, link-local, multicast or unspecified;
  every other address is accepted.
\<close>

theorem validate_ipv4_literal:
  assumes "plain_path p"
  shows "validateRemoteURL (''https://'' @ show_ipv4 a b c d @ p) =
    (if ipv4_forbidden a b c d then Some ErrBlockedHost else None)"
  using validate_https_plain [OF dotted_plain_host [OF dotted_show_ipv4] show_ipv4_ne assms]
    dotted_not_localhost [OF dotted_show_ipv4]
  by (simp add: dialControl_def isBlockedIP_V4 del: append.simps)

lemma validate_ipv4_literal_witness:
  "validateRemoteURL (''https://'' @ show_ipv4 172 31 0 1 @ ''/x'') = Some ErrBlockedHost \<and>
   validateRemoteURL (''https://'' @ show_ipv4 172 32 0 1 @ ''/x'') = None"
proof -
  have p: "plain_path ''/x''" by code_simp
  show ?thesis
    using validate_ipv4_literal [OF p, of 172 31 0 1] validate_ipv4_literal [OF p, of 172 32 0 1]
    by (simp add: ipv4_forbidden_def del: append.simps)
qed

end
