(* ===== verification/Go_Url_Query.thy ===== *)
theory Go_Url_Query
  imports Go_Url
begin

text \<open>
  Queries: \<open>Values.Encode\<close> and \<open>Values.Set\<close> on the parsed query of a URL, \<open>URL.String\<close> with a new
  query, and the parsing of plain URLs that carry one, such as the ids of federated replies.
\<close>

section \<open>Values\<close>

text \<open>\<open>ParseQuery\<close>: the pairs in order; malformed ones are skipped.\<close>

fun parse_pairs :: "string list \<Rightarrow> (string \<times> string) list" where
  "parse_pairs [] = []"
| "parse_pairs (seg # segs) =
     (if seg = [] \<or> contains seg '';'' then parse_pairs segs
      else let (k, v, _) = cut seg ''='' in
        (case (query_unescape k, query_unescape v) of
           (Some k', Some v') \<Rightarrow> (k', v') # parse_pairs segs
         | _ \<Rightarrow> parse_pairs segs))"

definition parse_query :: "string \<Rightarrow> (string \<times> string) list" where
  "parse_query q = parse_pairs (split_on CHR ''&'' q)"

definition values_set :: "string \<Rightarrow> string \<Rightarrow> (string \<times> string) list \<Rightarrow> (string \<times> string) list" where
  "values_set k v ps = [p \<leftarrow> ps. fst p \<noteq> k] @ [(k, v)]"

text \<open>\<open>Encode\<close>: stably sorted by key.\<close>

fun str_le :: "string \<Rightarrow> string \<Rightarrow> bool" where
  "str_le [] t = True"
| "str_le (c # s) [] = False"
| "str_le (c # s) (d # t) = ((of_char c :: nat) < of_char d \<or> (c = d \<and> str_le s t))"

fun insert_pair :: "string \<times> string \<Rightarrow> (string \<times> string) list \<Rightarrow> (string \<times> string) list" where
  "insert_pair p [] = [p]"
| "insert_pair p (q # qs) = (if str_le (fst p) (fst q) then p # q # qs else q # insert_pair p qs)"

fun join_amp :: "string list \<Rightarrow> string" where
  "join_amp [] = []"
| "join_amp [s] = s"
| "join_amp (s # t # ss) = s @ ''&'' @ join_amp (t # ss)"

definition values_encode :: "(string \<times> string) list \<Rightarrow> string" where
  "values_encode ps = join_amp (map (\<lambda>(k, v). encode_value k v) (foldr insert_pair ps []))"

section \<open>Printing with a new query\<close>

definition path_plain :: "char \<Rightarrow> bool" where
  "path_plain c \<longleftrightarrow> is_unreserved c \<or> c \<in> {CHR ''$'', CHR ''&'', CHR ''+'', CHR '','', CHR ''/'', CHR '':'',
     CHR '';'', CHR ''='', CHR ''@''}"

definition fragment_plain :: "char \<Rightarrow> bool" where
  "fragment_plain c \<longleftrightarrow> path_plain c \<or> c \<in> {CHR ''?'', CHR ''!'', CHR ''('', CHR '')'', CHR ''*''}"

definition user_plain :: "char \<Rightarrow> bool" where
  "user_plain c \<longleftrightarrow> is_unreserved c \<or> c \<in> {CHR ''$'', CHR ''&'', CHR ''+'', CHR '','', CHR '';'', CHR ''=''}"

definition percent :: "(char \<Rightarrow> bool) \<Rightarrow> string \<Rightarrow> string" where
  "percent keep s = concat (map (\<lambda>c. if keep c then [c]
     else [CHR ''%'', upper_hex (of_char c div 16), upper_hex (of_char c mod 16)]) s)"

definition valid_encoded :: "(char \<Rightarrow> bool) \<Rightarrow> string \<Rightarrow> bool" where
  "valid_encoded keep s \<longleftrightarrow> (\<forall>c\<in>set s. keep c \<or> c \<in> {CHR ''!'', CHR ''$'', CHR ''&'', CHR 0x27, CHR ''('', CHR '')'',
     CHR ''*'', CHR ''+'', CHR '','', CHR '';'', CHR ''='', CHR '':'', CHR ''@'', CHR ''['', CHR '']'', CHR ''%''})"

text \<open>\<open>EscapedPath\<close> and \<open>EscapedFragment\<close> of the component written as \<open>p\<close>.\<close>

definition escaped :: "(char \<Rightarrow> bool) \<Rightarrow> string \<Rightarrow> string" where
  "escaped keep p = (case unescape_plain p of
     None \<Rightarrow> p
   | Some d \<Rightarrow> if percent keep d \<noteq> p \<and> valid_encoded keep p then p else percent keep d)"

definition escaped_path :: "string \<Rightarrow> string" where
  "escaped_path p = (if p = ''%2A'' then ''*'' else escaped path_plain p)"

definition printed_userinfo :: "string \<Rightarrow> string" where
  "printed_userinfo u =
     (let (name, pass, has) = cut u '':'' in
      case (unescape_plain name, unescape_plain pass) of
        (Some n, Some p) \<Rightarrow> percent user_plain n @ (if has then '':'' @ percent user_plain p else []) @ ''@''
      | _ \<Rightarrow> u @ ''@'')"

text \<open>
  \<open>String\<close> of a parsed URL whose \<open>RawQuery\<close> has been replaced by a non-empty query, for a URL with an
  authority; \<^const>\<open>None\<close> when there is none, which the guard on fetched URLs excludes.
\<close>

definition url_with_query :: "string \<Rightarrow> string \<Rightarrow> string option" where
  "url_with_query raw q =
     (let (u, frag, _) = cut raw ''#'' in
      case get_scheme u of
        None \<Rightarrow> None
      | Some (sch, rest0) \<Rightarrow>
          (let rest = fst (split_query rest0) in
           if sch = [] \<or> \<not> has_prefix rest ''//'' then None
           else let auth = takeWhile (\<lambda>c. c \<noteq> CHR ''/'') (drop 2 rest);
                    path = dropWhile (\<lambda>c. c \<noteq> CHR ''/'') (drop 2 rest) in
             (case parse_authority auth of
                None \<Rightarrow> None
              | Some h \<Rightarrow>
                  Some (map lower_byte sch @ ''://'' @
                    (case last_index auth ''@'' of Some i \<Rightarrow> printed_userinfo (take i auth) | None \<Rightarrow> []) @
                    percent host_plain h @ escaped_path path @ ''?'' @ q @
                    (if frag = [] then [] else ''#'' @ escaped fragment_plain frag)))))"

section \<open>Parsing with a query\<close>

definition query_byte :: "char \<Rightarrow> bool" where
  "query_byte c \<longleftrightarrow> is_unreserved c \<or>
     c \<in> {CHR ''+'', CHR ''%'', CHR ''='', CHR ''&'', CHR '':'', CHR ''@''}"

lemma encode_value_bytes: "c \<in> set (encode_value k v) \<Longrightarrow> query_byte c"
  using query_escape_bytes by (auto simp: encode_value_def query_byte_def)

lemma encode_value_ne [simp]: "encode_value k v \<noteq> []"
  by (simp add: encode_value_def)

lemma query_byte_plain:
  "query_byte c \<Longrightarrow> c \<noteq> CHR ''?'' \<and> c \<noteq> CHR 0x23 \<and> 32 \<le> (of_char c :: nat) \<and> (of_char c :: nat) \<noteq> 127"
  unfolding query_byte_def
  by (elim disjE) (use is_unreserved_plain is_unreserved_printable in blast, auto)

lemma query_url_bytes:
  assumes "plain_host h" "plain_path p" "\<forall>c\<in>set q. query_byte c"
    and "c \<in> set (''https://'' @ h @ p @ ''?'' @ q)"
  shows "c \<noteq> CHR 0x23 \<and> 32 \<le> (of_char c :: nat) \<and> (of_char c :: nat) \<noteq> 127"
proof -
  have "c \<in> set (''https://'' @ h @ p) \<or> c = CHR ''?'' \<or> c \<in> set q"
    using assms(4) by (simp only: set_append Un_iff) auto
  then show ?thesis
    using url_bytes_plain [OF assms(1,2)] query_byte_plain assms(3) by (elim disjE) (blast, simp, blast)
qed

lemma split_query_plain:
  assumes "CHR ''?'' \<notin> set s" "CHR ''?'' \<notin> set q" "q \<noteq> []"
  shows "split_query (s @ CHR ''?'' # q) = (s, q)"
proof -
  have "\<not> has_suffix (s @ CHR ''?'' # q) ''?''"
    using assms(2,3) by (cases q rule: rev_cases) (auto simp: suffix_def)
  then show ?thesis using cut_byte_append [OF assms(1), of q] by (simp add: split_query_def)
qed

lemma parse_nofrag_https_query:
  assumes "plain_host h" "plain_path p" and q: "\<forall>c\<in>set q. query_byte c" "q \<noteq> []"
  shows "parse_nofrag (''https://'' @ h @ p @ ''?'' @ q) =
    Some \<lparr>u_scheme = ''https'', u_opaque = [], u_host = h, u_path = p, u_rawquery = q\<rparr>"
proof -
  have ctl: "\<not> has_ctl_byte (''https://'' @ h @ p @ ''?'' @ q)"
    unfolding has_ctl_byte_def using query_url_bytes [OF assms(1,2) q(1)] by (meson not_less)
  have "CHR ''?'' \<notin> set (''//'' @ h @ p)"
    using url_bytes_plain [OF assms(1,2), of "CHR ''?''"] by auto
  moreover have "CHR ''?'' \<notin> set q" using q query_byte_plain by blast
  ultimately have sq: "split_query (CHR ''/'' # CHR ''/'' # h @ p @ CHR ''?'' # q)
      = (CHR ''/'' # CHR ''/'' # h @ p, q)"
    using split_query_plain [of "''//'' @ h @ p" q] q(2) by simp
  have sch: "get_scheme (''https://'' @ h @ p @ ''?'' @ q) = Some (''https'', CHR ''/'' # CHR ''/'' # h @ p @ CHR ''?'' # q)"
    using scheme_https [of "''//'' @ h @ p @ ''?'' @ q"] by simp
  have low: "map lower_byte ''https'' = ''https''" by code_simp
  have star: "''https://'' @ h @ p @ ''?'' @ q \<noteq> ''*''" by simp
  show ?thesis
    unfolding parse_nofrag_def if_not_P [OF ctl] if_not_P [OF star] sch
    using host_path_split [OF assms(1,2)] parse_authority_plain [OF assms(1)] unescape_plain_path [OF assms(2)]
    by (simp only: option.case prod.case Let_def sq low) simp
qed

theorem parse_https_query:
  assumes "plain_host h" "plain_path p" "\<forall>c\<in>set q. query_byte c" "q \<noteq> []"
  shows "url_parse (''https://'' @ h @ p @ ''?'' @ q) =
    Some \<lparr>u_scheme = ''https'', u_opaque = [], u_host = h, u_path = p, u_rawquery = q\<rparr>"
proof -
  have "CHR 0x23 \<notin> set (''https://'' @ h @ p @ ''?'' @ q)"
    using query_url_bytes [OF assms(1-3), of "CHR 0x23"] by blast
  then have "cut (''https://'' @ h @ p @ ''?'' @ q) ''#'' = (''https://'' @ h @ p @ ''?'' @ q, [], False)"
    by (intro cut_absent) simp_all
  then show ?thesis
    by (simp only: url_parse_def prod.case Let_def parse_nofrag_https_query [OF assms] option.case)
      (simp add: unescape_plain_def)
qed

lemma percent_id: "\<forall>c\<in>set s. keep c \<Longrightarrow> percent keep s = s"
  by (induction s) (auto simp: percent_def)

lemma escaped_path_plain:
  assumes "plain_path p" shows "escaped_path p = p"
proof -
  have "percent path_plain p = p"
    by (rule percent_id) (use assms in \<open>auto simp: plain_path_def path_plain_def\<close>)
  moreover have "p \<noteq> ''%2A''" using assms by (auto simp: plain_path_def)
  ultimately show ?thesis by (simp add: escaped_path_def escaped_def unescape_plain_path [OF assms])
qed

lemma url_with_query_plain:
  assumes h: "plain_host h" and p: "plain_path p" and q: "\<forall>c\<in>set q. query_byte c" "q \<noteq> []"
  shows "url_with_query (''https://'' @ h @ p @ ''?'' @ q) q' = Some (''https://'' @ h @ p @ ''?'' @ q')"
proof -
  have qb: "CHR 0x23 \<notin> set q" "CHR ''?'' \<notin> set q"
    using q(1) query_byte_plain by fastforce+
  have "CHR 0x23 \<notin> set (''https://'' @ h @ p @ ''?'' @ q)"
    using url_bytes_plain [OF h p, of "CHR 0x23"] qb by auto
  then have c: "cut (''https://'' @ h @ p @ ''?'' @ q) ''#'' = (''https://'' @ h @ p @ ''?'' @ q, [], False)"
    by (intro cut_absent) simp_all
  have "CHR ''?'' \<notin> set (''//'' @ h @ p)" using url_bytes_plain [OF h p, of "CHR ''?''"] by auto
  then have sq: "split_query (CHR ''/'' # CHR ''/'' # h @ p @ CHR ''?'' # q)
      = (CHR ''/'' # CHR ''/'' # h @ p, q)"
    using split_query_plain [of "''//'' @ h @ p" q] q(2) qb by simp
  have sch: "get_scheme (''https://'' @ h @ p @ ''?'' @ q) = Some (''https'', CHR ''/'' # CHR ''/'' # h @ p @ CHR ''?'' # q)"
    using scheme_https [of "''//'' @ h @ p @ ''?'' @ q"] by simp
  have low: "map lower_byte ''https'' = ''https''" by code_simp
  have "CHR ''@'' \<notin> set h" using h is_unreserved_not_delim by (auto simp: plain_host_def)
  then have at: "last_index h ''@'' = None" by (simp add: last_index_absent)
  have ph: "percent host_plain h = h"
    by (rule percent_id) (use h in \<open>auto simp: plain_host_def host_plain_def\<close>)
  show ?thesis
    unfolding url_with_query_def c prod.case Let_def sch option.case
    using host_path_split [OF h p] parse_authority_plain [OF h] at ph escaped_path_plain [OF p]
    by (simp only: sq fst_conv low) simp
qed

end
