(* ===== verification/Rest_Map.thy ===== *)
theory Rest_Map
  imports Gateway_Urls Go_Url_Query
begin

text \<open>
  The pure parts of \<open>mastodon-bridge.go\<close>: the mapping of Mastodon REST statuses to tweets, and the
  helpers of the read and write operations that perform no I/O.
\<close>

section \<open>References\<close>

definition restStatusRef :: "string \<Rightarrow> (string \<times> string) option" where
  "restStatusRef noteURL = (case url_parse noteURL of
     None \<Rightarrow> None
   | Some u \<Rightarrow>
       if u_host u = [] then None
       else let i = path_base (trim_right_set {CHR ''/''} (u_path u)) in
         if i = [] \<or> i = ''.'' \<or> i = ''/'' then None else Some (u_host u, i))"

definition acctHandle :: "string \<Rightarrow> string \<Rightarrow> string" where
  "acctHandle host acct = (if acct = [] \<or> contains acct ''@'' then acct else acct @ ''@'' @ host)"

text \<open>
  \<open>ownStatusRef\<close>: owner and tweet id of a status URL hosted by this gateway; \<open>isSelf\<close> is the
  transport's \<open>isSelfHost\<close>.
\<close>

definition ownStatusRef :: "(string \<Rightarrow> bool) \<Rightarrow> string \<Rightarrow> (string \<times> string) option" where
  "ownStatusRef isSelf rawURL = (case url_parse rawURL of
     None \<Rightarrow> None
   | Some u \<Rightarrow>
       if u_host u = [] \<or> \<not> isSelf (url_hostname u) then None
       else case cut_prefix (u_path u) pathUsers of
         None \<Rightarrow> None
       | Some rest \<Rightarrow>
           (let (owner, tweetID, found) = cut rest pathStatuses in
            if \<not> found \<or> owner = [] \<or> tweetID = [] then None
            else Some (owner, case index_byte tweetID CHR ''/'' of Some i \<Rightarrow> take i tweetID | None \<Rightarrow> tweetID)))"

definition isRESTStatusesURL :: "string \<Rightarrow> bool" where
  "isRESTStatusesURL u \<longleftrightarrow> contains u ''/api/v1/accounts/'' \<and> contains u ''/statuses''"

definition pageCursor :: "string option \<Rightarrow> string" where
  "pageCursor cursor = (case cursor of
     None \<Rightarrow> []
   | Some c \<Rightarrow> if has_prefix c ''https://'' then c else [])"

section \<open>Statuses\<close>

fun rest_images :: "json list \<Rightarrow> string list" where
  "rest_images [] = []"
| "rest_images (a # as) =
     (case asMap a of
        None \<Rightarrow> rest_images as
      | Some att \<Rightarrow>
          if asString (jget (Some att) ''type'') \<noteq> ''image'' then rest_images as
          else let mu = asString (jget (Some att) ''url'') in
            if mu \<noteq> [] then mu # rest_images as else rest_images as)"

text \<open>The author of a REST status.\<close>

definition account_handle :: "string \<Rightarrow> gomap \<Rightarrow> string" where
  "account_handle host s = acctHandle host (asString (jget (asMap (jget s ''account'')) ''acct''))"

definition rest_quote :: "string \<Rightarrow> gomap \<Rightarrow> tweet \<Rightarrow> tweet" where
  "rest_quote host s t = (case asMap (jget s ''quote'') of
     None \<Rightarrow> t
   | Some q \<Rightarrow>
       (let qu = asString (jget (Some q) ''uri'') in
        if qu = [] then t
        else let t1 = t\<lparr>t_QuotedTweetId := Some qu\<rparr>; qh = account_handle host (Some q) in
          if qh \<noteq> [] then t1\<lparr>t_QuotedUserId := Some qh\<rparr> else t1))"

definition restBaseTweet :: "warp_lib \<Rightarrow> gotime \<Rightarrow> string \<Rightarrow> gomap \<Rightarrow> tweet option" where
  "restBaseTweet L now host s =
     (if s = None then None
      else let uri0 = asString (jget s ''uri'');
               uri = (if uri0 = [] then asString (jget s ''url'') else uri0) in
        if uri = [] then None
        else
          let handle = account_handle host s;
              t = zero_tweet\<lparr>t_Id := uri, t_RootId := uri,
                    t_Text := htmlToText L (asString (jget s ''content'')),
                    t_UserId := handle, t_Username := handle,
                    t_CreatedAt := parseAPTime L (asString (jget s ''created_at'')),
                    t_Network := mastodonNetwork\<rparr>;
              t1 = t\<lparr>t_ImageKeys := rest_images (asSlice (jget s ''media_attachments''))\<rparr>;
              t2 = rest_quote host s t1 in
          Some (if t_CreatedAt t2 = 0 then t2\<lparr>t_CreatedAt := now\<rparr> else t2))"

lemma size_map_of: "map_of kvs k = Some v \<Longrightarrow> size v < size (JObj kvs)"
proof -
  assume "map_of kvs k = Some v"
  then have "(k, v) \<in> set kvs" by (rule map_of_SomeD)
  then have "size v \<le> size_list (size_prod (\<lambda>_. 0) size) kvs"
    by (rule size_list_estimation') simp
  then show ?thesis by simp
qed

lemma size_jget_obj: "jget (Some kvs) k = JObj rb \<Longrightarrow> size (JObj rb) < size (JObj kvs)"
  by (auto simp: jget_def split: option.splits dest!: size_map_of [of kvs k])

text \<open>A boost is unwrapped into the boosted status, to any depth.\<close>

function restStatusToTweet :: "warp_lib \<Rightarrow> gotime \<Rightarrow> string \<Rightarrow> gomap \<Rightarrow> tweet option" where
  "restStatusToTweet L now host None = None"
| "restStatusToTweet L now host (Some s) =
     (case jget (Some s) ''reblog'' of
        JObj rb \<Rightarrow>
          (case restStatusToTweet L now host (Some rb) of
             None \<Rightarrow> None
           | Some t \<Rightarrow>
               (let by = account_handle host (Some s) in
                Some (if by \<noteq> [] then t\<lparr>t_RetweetedBy := Some by\<rparr> else t)))
      | _ \<Rightarrow> restBaseTweet L now host (Some s))"
  by pat_completeness auto
termination
  by (relation "measure (\<lambda>(_, _, _, s). case s of None \<Rightarrow> 0 | Some kvs \<Rightarrow> size (JObj kvs))")
    (auto dest: size_jget_obj)

declare restStatusToTweet.simps(2) [simp del]

definition restReplyToTweet ::
  "warp_lib \<Rightarrow> gotime \<Rightarrow> string \<Rightarrow> gomap \<Rightarrow> string \<Rightarrow> (string \<rightharpoonup> string) \<Rightarrow> tweet option" where
  "restReplyToTweet L now host s rootURL idToURI = (case restBaseTweet L now host s of
     None \<Rightarrow> None
   | Some t \<Rightarrow>
       (let irid = asString (jget s ''in_reply_to_id'');
            parent = (if irid \<noteq> [] then (case idToURI irid of Some p \<Rightarrow> p | None \<Rightarrow> rootURL) else rootURL) in
        Some (t\<lparr>t_RootId := rootURL, t_ParentId := Some parent\<rparr>)))"

definition topLevelOnly :: "tweet list \<Rightarrow> tweet list" where
  "topLevelOnly ts = [t \<leftarrow> ts. t_ParentId t = None \<or> t_ParentId t = Some []]"

text \<open>\<open>nativizeOwnStatus\<close>: a status of ours goes back to its native shape.\<close>

definition nativizeOwnStatus :: "(string \<Rightarrow> bool) \<Rightarrow> tweet \<Rightarrow> gomap \<Rightarrow> tweet" where
  "nativizeOwnStatus isSelf t account =
     (let t0 = (case t_ParentId t of
           Some p \<Rightarrow> (case ownStatusRef isSelf p of Some (_, pid) \<Rightarrow> t\<lparr>t_ParentId := Some pid\<rparr> | None \<Rightarrow> t)
         | None \<Rightarrow> t) in
      case ownStatusRef isSelf (t_Id t0) of
        None \<Rightarrow> t0
      | Some (owner, i) \<Rightarrow>
          (let name = asString (jget account ''display_name'') in
           t0\<lparr>t_Id := i, t_UserId := owner, t_Network := [],
              t_Username := (if name \<noteq> [] then name else owner)\<rparr>))"

section \<open>Counts and follow lists\<close>

record tweetStatsResponse =
  ts_TweetId :: string
  ts_ReactionsCount :: u64
  ts_RetweetsCount :: u64
  ts_RepliesCount :: u64
  ts_Reactions :: "(string \<times> u64) list"

definition tweetStats :: "warp_lib \<Rightarrow> string \<Rightarrow> u64 \<Rightarrow> u64 \<Rightarrow> u64 \<Rightarrow> tweetStatsResponse" where
  "tweetStats L noteURL favourites boosts replies =
     \<lparr>ts_TweetId = noteURL, ts_ReactionsCount = favourites, ts_RetweetsCount = boosts,
      ts_RepliesCount = replies,
      ts_Reactions = (if favourites > 0 then [(lib_default_reaction L, favourites)] else [])\<rparr>"

fun dropSelfHandles :: "(string \<Rightarrow> bool) \<Rightarrow> string list \<Rightarrow> string list" where
  "dropSelfHandles isSelf [] = []"
| "dropSelfHandles isSelf (h # hs) =
     (let (_, inst, ok) = cut h ''@'' in
      if ok \<and> isSelf inst then dropSelfHandles isSelf hs else h # dropSelfHandles isSelf hs)"

section \<open>Documents of the write operations\<close>

definition undoIf :: "string \<Rightarrow> string \<Rightarrow> activity \<Rightarrow> bool \<Rightarrow> activity" where
  "undoIf actor token inner undo =
     (if \<not> undo then inner
      else Activity (CtxIRI asContext) (actor @ ''#undo-'' @ token) typeUndo actor (ObjActivity inner) [] [])"

definition mentionOf :: "string \<Rightarrow> string \<Rightarrow> mentionTag list" where
  "mentionOf authorActorURL parentURL =
     (if authorActorURL = [] then []
      else let handle = statusAuthorHandle parentURL in
        [\<lparr>mt_Type = typeMention, mt_Href = authorActorURL,
          mt_Name = (if handle \<noteq> [] then ''@'' @ handle else [])\<rparr>])"

section \<open>Properties\<close>

text \<open>A gateway whose host name consists of plain bytes, as every public host name does.\<close>

definition plain_gateway :: "gateway \<Rightarrow> bool" where
  "plain_gateway g \<longleftrightarrow> gw_host g \<noteq> [] \<and> plain_host (gw_host g)"

lemma plain_gateway_bytes:
  "plain_gateway g \<Longrightarrow> CHR ''/'' \<notin> set (gw_host g) \<and> CHR ''?'' \<notin> set (gw_host g) \<and> CHR 0x23 \<notin> set (gw_host g)"
  using is_unreserved_plain by (auto simp: plain_gateway_def plain_host_def)

lemma own_status_path:
  assumes g: "plain_gateway g" and p: "url_parse raw = Some u" "u_host u = gw_host g"
    "u_path u = ''/users/'' @ user @ ''/statuses/'' @ i"
    and s: "id_segment user" "id_segment i"
  shows "ownStatusRef (isSelfHost g) raw = Some (user, i)"
proof -
  have h: "url_hostname u = gw_host g" using g p(2) url_hostname_plain by (simp add: plain_gateway_def)
  have c: "cut (user @ ''/statuses/'' @ i) ''/statuses/'' = (user, i, True)"
    by (rule cut_append) (use s in \<open>auto simp: id_segment_def\<close>)
  have pre: "cut_prefix (''/users/'' @ user @ ''/statuses/'' @ i) ''/users/'' = Some (user @ ''/statuses/'' @ i)"
    by (rule cut_prefix_append)
  have i: "index_byte i CHR ''/'' = None" using s(2) by (simp add: id_segment_def)
  show ?thesis
    unfolding ownStatusRef_def p(1) option.case p(2,3) pathUsers_def pre pathStatuses_def c prod.case
    using g h i s by (simp add: isSelfHost_def plain_gateway_def id_segment_def)
qed

lemma plain_status_path:
  "plain_name user \<Longrightarrow> plain_name i \<Longrightarrow> plain_path (''/users/'' @ user @ ''/statuses/'' @ i)"
  by (auto simp: plain_path_def plain_name_def is_unreserved_def is_alnum_def is_digit_def)

lemma rest_quote_fields [simp]:
  "t_Id (rest_quote host s t) = t_Id t" "t_RootId (rest_quote host s t) = t_RootId t"
  "t_ParentId (rest_quote host s t) = t_ParentId t" "t_Network (rest_quote host s t) = t_Network t"
  "t_CreatedAt (rest_quote host s t) = t_CreatedAt t" "t_RetweetedBy (rest_quote host s t) = t_RetweetedBy t"
  "t_Text (rest_quote host s t) = t_Text t" "t_UserId (rest_quote host s t) = t_UserId t"
  by (simp_all add: rest_quote_def Let_def split: option.split)

lemma rest_quote_user:
  "t_QuotedUserId t = None \<Longrightarrow> t_QuotedTweetId (rest_quote host s t) = None \<Longrightarrow>
    t_QuotedUserId (rest_quote host s t) = None"
  by (auto simp add: rest_quote_def Let_def split: option.splits if_splits)

text \<open>What every tweet made from a standalone status satisfies.\<close>

definition top_level_status :: "gotime \<Rightarrow> tweet \<Rightarrow> bool" where
  "top_level_status now t \<longleftrightarrow> t_Id t \<noteq> [] \<and> t_RootId t = t_Id t \<and> t_ParentId t = None \<and>
     t_Network t = mastodonNetwork \<and> (now \<noteq> 0 \<longrightarrow> t_CreatedAt t \<noteq> 0) \<and>
     (t_QuotedTweetId t = None \<longrightarrow> t_QuotedUserId t = None)"

lemma restBaseTweet_cases:
  assumes "restBaseTweet L now host s = Some t"
  obtains uri t0 where "uri \<noteq> []" "t0 = zero_tweet\<lparr>t_Id := uri, t_RootId := uri,
        t_Text := htmlToText L (asString (jget s ''content'')), t_UserId := account_handle host s,
        t_Username := account_handle host s, t_CreatedAt := parseAPTime L (asString (jget s ''created_at'')),
        t_Network := mastodonNetwork, t_ImageKeys := rest_images (asSlice (jget s ''media_attachments''))\<rparr>"
    "t = (let t2 = rest_quote host s t0 in if t_CreatedAt t2 = 0 then t2\<lparr>t_CreatedAt := now\<rparr> else t2)"
proof -
  define uri where "uri = (if asString (jget s ''uri'') = [] then asString (jget s ''url'') else asString (jget s ''uri''))"
  from assms have "uri \<noteq> []" unfolding restBaseTweet_def Let_def uri_def by (simp split: if_splits)
  with assms show ?thesis
    by (intro that [OF _ refl]) (auto simp: restBaseTweet_def Let_def uri_def [symmetric] split: if_splits)
qed

lemma restBaseTweet_wf: "restBaseTweet L now host s = Some t \<Longrightarrow> top_level_status now t"
  by (erule restBaseTweet_cases)
    (simp add: top_level_status_def Let_def zero_tweet_def rest_quote_user)

lemma restStatusToTweet_wf: "restStatusToTweet L now host s = Some t \<Longrightarrow> top_level_status now t"
proof (induction L now host s arbitrary: t rule: restStatusToTweet.induct)
  case (2 L now host s)
  show ?case
  proof (cases "jget (Some s) ''reblog''")
    case (JObj rb)
    then obtain t' where t': "restStatusToTweet L now host (Some rb) = Some t'"
      "t = (if account_handle host (Some s) \<noteq> [] then t'\<lparr>t_RetweetedBy := Some (account_handle host (Some s))\<rparr> else t')"
      using "2.prems" by (simp add: restStatusToTweet.simps(2) Let_def split: option.splits)
    with "2.IH" [OF JObj t'(1)] show ?thesis by (simp add: top_level_status_def)
  qed (use "2.prems" restBaseTweet_wf in \<open>simp add: restStatusToTweet.simps(2)\<close>)+
qed simp

lemma dropSelfHandles_eq:
  "dropSelfHandles isSelf hs = [h \<leftarrow> hs. case cut h ''@'' of (_, inst, ok) \<Rightarrow> \<not> (ok \<and> isSelf inst)]"
  by (induction hs) (auto split: prod.splits)

end
