(* ===== verification/Notes.thy ===== *)
theory Notes
  imports Rest_Map
begin

text \<open>
  The documents the gateway renders: notes and their Create activities (\<open>notes.go\<close>), actors
  (\<open>buildActor\<close> and \<open>handleInstanceActor\<close> of \<open>server.go\<close>), the Warpnet badge (\<open>badge.go\<close>), and the
  reply and its tombstone that the bridge federates (\<open>Reply\<close>, \<open>Delete\<close> of \<open>mastodon-bridge.go\<close>).
\<close>

section \<open>HTML\<close>

text \<open>\<open>html.EscapeString\<close>.\<close>

definition html_escape_byte :: "char \<Rightarrow> string" where
  "html_escape_byte c =
     (if c = CHR ''&'' then ''&amp;''
      else if c = CHR 0x27 then ''&#39;''
      else if c = CHR ''<'' then ''&lt;''
      else if c = CHR ''>'' then ''&gt;''
      else if c = CHR 0x22 then ''&#34;''
      else [c])"

definition html_escape :: "string \<Rightarrow> string" where
  "html_escape s = concat (map html_escape_byte s)"

definition warpnetEmojiShortcode :: string where "warpnetEmojiShortcode = '':warpnet:''"
definition warpnetBadgePath :: string where "warpnetBadgePath = ''/static/warpnet.png''"

definition warpnetBioPrefix :: string where
  "warpnetBioPrefix = ''<p>'' @ [CHR 0xF0, CHR 0x9F, CHR 0x9B, CHR 0xB8] @
     '' This account lives on <strong>Warpnet</strong> '' @ [CHR 0xE2, CHR 0x80, CHR 0x94] @
     '' a decentralized P2P social network. You'' @ [CHR 0x27] @ ''re viewing it across the Warpnet'' @
     [CHR 0xE2, CHR 0x87, CHR 0x84] @ ''Fediverse gateway.</p>''"

definition badgedSummary :: "string \<Rightarrow> string" where
  "badgedSummary bio =
     (if bio = [] then warpnetBioPrefix
      else warpnetBioPrefix @ ''<p>'' @ html_escape bio @ ''</p>'')"

definition warpnetActorTag :: "gateway \<Rightarrow> emojiTag" where
  "warpnetActorTag g = \<lparr>em_Type = ''Emoji'', em_ID = baseURL g @ ''/emoji/warpnet'',
     em_Name = warpnetEmojiShortcode,
     em_Icon = Some \<lparr>ei_Type = ''Image'', ei_MediaType = ''image/png'', ei_URL = baseURL g @ warpnetBadgePath\<rparr>\<rparr>"

definition warpnetNetworkField :: propertyValue where
  "warpnetNetworkField = \<lparr>pv_Type = ''PropertyValue'', pv_Name = ''Network'',
     pv_Value = ''<a href='' @ [CHR 0x22] @ ''https://warpnet.site'' @ [CHR 0x22] @ '' rel='' @ [CHR 0x22] @
       ''nofollow noopener'' @ [CHR 0x22] @ '' target='' @ [CHR 0x22] @ ''_blank'' @ [CHR 0x22] @
       ''>Warpnet</a>''\<rparr>"

section \<open>Actors\<close>

definition media_link :: "gateway \<Rightarrow> string \<Rightarrow> string \<Rightarrow> string" where
  "media_link g user key = baseURL g @ pathMedia @ encodeMediaRef user key"

definition image_of :: "gateway \<Rightarrow> string \<Rightarrow> string \<Rightarrow> attachment option" where
  "image_of g user key =
     (if key \<noteq> [] then Some \<lparr>at_Type = ''Image'', at_URL = media_link g user key\<rparr> else None)"

definition buildActor :: "gateway \<Rightarrow> warpnetUser \<Rightarrow> actor" where
  "buildActor g wu =
     (let i = actorID g (wu_PreferredUsername wu);
          name = (if wu_DisplayName wu = [] then wu_PreferredUsername wu else wu_DisplayName wu) in
      \<lparr>ac_Context = CtxList [asContext, secContext]
         [(''toot'', ''http://joinmastodon.org/ns#''), (''Emoji'', ''toot:Emoji''),
          (''schema'', ''http://schema.org#''), (''PropertyValue'', ''schema:PropertyValue''),
          (''value'', ''schema:value'')],
       ac_ID = i, ac_Type = ''Person'', ac_PreferredUsername = wu_PreferredUsername wu,
       ac_Name = name @ '' '' @ warpnetEmojiShortcode,
       ac_Summary = badgedSummary (wu_Summary wu),
       ac_Icon = image_of g (wu_PreferredUsername wu) (wu_Avatar wu),
       ac_Image = image_of g (wu_PreferredUsername wu) (wu_Background wu),
       ac_Tag = [warpnetActorTag g], ac_Attachment = [warpnetNetworkField],
       ac_Inbox = i @ pathInbox, ac_Outbox = i @ ''/outbox'', ac_Followers = i @ pathFollowers,
       ac_Following = i @ ''/following'',
       ac_PublicKey = \<lparr>pk_ID = keyID g (wu_PreferredUsername wu), pk_Owner = i,
         pk_PublicKeyPEM = gw_keyPubPEM g\<rparr>,
       ac_SharedInbox = Some (baseURL g @ pathInbox)\<rparr>)"

definition instanceActor :: "gateway \<Rightarrow> actor" where
  "instanceActor g =
     (let i = instanceActorID g in
      \<lparr>ac_Context = CtxList [asContext, secContext] [], ac_ID = i, ac_Type = ''Application'',
       ac_PreferredUsername = instanceActorName, ac_Name = [], ac_Summary = [],
       ac_Icon = None, ac_Image = None, ac_Tag = [], ac_Attachment = [],
       ac_Inbox = baseURL g @ pathInbox, ac_Outbox = i @ ''/outbox'', ac_Followers = i @ pathFollowers,
       ac_Following = i @ ''/following'',
       ac_PublicKey = \<lparr>pk_ID = instanceKeyID g, pk_Owner = i, pk_PublicKeyPEM = gw_keyPubPEM g\<rparr>,
       ac_SharedInbox = Some (baseURL g @ pathInbox)\<rparr>)"

section \<open>Notes\<close>

definition replyParentID :: "tweet \<Rightarrow> string" where
  "replyParentID t =
     (case t_ParentId t of
        Some p \<Rightarrow> if p \<noteq> [] then p
          else if t_RootId t \<noteq> [] \<and> t_RootId t \<noteq> t_Id t then t_RootId t else []
      | None \<Rightarrow> if t_RootId t \<noteq> [] \<and> t_RootId t \<noteq> t_Id t then t_RootId t else [])"

definition buildNote :: "warp_lib \<Rightarrow> gateway \<Rightarrow> string \<Rightarrow> tweet \<Rightarrow> ap_note" where
  "buildNote L g localUser t =
     (let i = actorID g localUser; parent = replyParentID t in
      \<lparr>n_Context = CtxNone, n_ID = i @ pathStatuses @ t_Id t, n_Type = typeNote, n_AttributedTo = i,
       n_Content = ''<p>'' @ html_escape (t_Text t) @ ''</p>'',
       n_Published = lib_format_time L (t_CreatedAt t),
       n_Replies = i @ pathStatuses @ t_Id t @ ''/replies'',
       n_InReplyTo = (if parent \<noteq> [] then i @ pathStatuses @ parent else []),
       n_To = [asPublic], n_Cc = [i @ pathFollowers], n_Tag = [],
       n_Attachment = map (\<lambda>key. \<lparr>at_Type = typeDocument,
         at_URL = baseURL g @ pathMedia @ encodeMediaRef (t_UserId t) key\<rparr>) (t_ImageKeys t)\<rparr>)"

definition buildCreateNote :: "warp_lib \<Rightarrow> gateway \<Rightarrow> string \<Rightarrow> tweet \<Rightarrow> activity" where
  "buildCreateNote L g localUser t =
     (let n = buildNote L g localUser t in
      Activity (CtxIRI asContext) (n_ID n @ ''/activity'') typeCreate (n_AttributedTo n) (ObjNote n)
        (n_To n) (n_Cc n))"

text \<open>The id under which a reply is federated, and the rendering of one by \<open>serveStatus\<close>.\<close>

definition replyURL :: "string \<Rightarrow> string \<Rightarrow> string \<Rightarrow> string" where
  "replyURL actor noteID parentURL =
     actor @ pathStatuses @ noteID @ ''?'' @ encode_value replyParentQuery parentURL"

definition statusNote :: "warp_lib \<Rightarrow> gateway \<Rightarrow> string \<Rightarrow> tweet \<Rightarrow> string \<Rightarrow> ap_note" where
  "statusNote L g user t parent =
     (let n = (buildNote L g user t)\<lparr>n_Context := CtxIRI asContext\<rparr> in
      if parent \<noteq> [] then n\<lparr>n_ID := replyURL (actorID g user) (t_Id t) parent, n_InReplyTo := parent\<rparr> else n)"

text \<open>The parent a reply answers, and the activities of \<open>Reply\<close> and \<open>Delete\<close>.\<close>

definition reply_parent :: "tweet \<Rightarrow> string" where
  "reply_parent ev = (case t_ParentId ev of
     Some p \<Rightarrow> if p \<noteq> [] then p else t_RootId ev | None \<Rightarrow> t_RootId ev)"

definition reply_activity ::
  "warp_lib \<Rightarrow> string \<Rightarrow> gotime \<Rightarrow> string \<Rightarrow> string \<Rightarrow> tweet \<Rightarrow> activity" where
  "reply_activity L actor now token author ev =
     (let parentURL = reply_parent ev;
          noteID = (if t_Id ev = [] then token else t_Id ev);
          noteURL = actor @ pathStatuses @ noteID;
          n = \<lparr>n_Context = CtxIRI asContext, n_ID = replyURL actor noteID parentURL,
               n_Type = typeNote, n_AttributedTo = actor, n_Content = t_Text ev,
               n_Published = lib_format_time L now, n_Replies = [], n_InReplyTo = parentURL,
               n_To = [author], n_Cc = [asPublic], n_Tag = mentionOf author parentURL,
               n_Attachment = []\<rparr> in
      Activity (CtxIRI asContext) (noteURL @ ''#create'') typeCreate actor (ObjNote n) [author] [asPublic])"

definition delete_parent :: "payload \<Rightarrow> string" where
  "delete_parent ev = (if dt_ParentId ev \<noteq> [] then dt_ParentId ev else dt_RootId ev)"

definition delete_activity :: "string \<Rightarrow> string \<Rightarrow> payload \<Rightarrow> activity" where
  "delete_activity actor author ev =
     (let noteURL = actor @ pathStatuses @ dt_TweetId ev in
      Activity (CtxIRI asContext) (noteURL @ ''#delete'') typeDelete actor
        (ObjTombstone (replyURL actor (dt_TweetId ev) (delete_parent ev)) typeTombstone)
        [author] [asPublic])"

section \<open>Properties of notes\<close>

lemma url_tail_simps [simp]:
  "url_tail []" "url_tail (CHR ''/'' # s)" "url_tail (CHR ''?'' # s)" "url_tail (CHR 0x23 # s)"
  by (simp_all add: url_tail_def)

lemma n_ID_buildNote [simp]: "n_ID (buildNote L g u t) = actorID g u @ pathStatuses @ t_Id t"
  by (simp add: buildNote_def Let_def)

lemma parse_note_id:
  assumes "plain_gateway g" "id_segment u" "id_segment (t_Id t)" "url_tail tail"
  shows "parseLocalStatus g (n_ID (buildNote L g u t) @ tail) = Some (u, t_Id t)"
  using parseLocalStatus_append [of g u "t_Id t" tail] plain_gateway_bytes [OF assms(1)] assms(2-4) by simp

lemma parse_reply_url:
  assumes "plain_gateway g" "id_segment u" "id_segment i"
  shows "parseLocalStatus g (replyURL (actorID g u) i p) = Some (u, i)"
  using parseLocalStatus_append [of g u i "''?'' @ encode_value replyParentQuery p"]
    plain_gateway_bytes [OF assms(1)] assms(2,3) by (simp add: replyURL_def)

text \<open>
  The id of a federated reply, as the server sees it when a peer dereferences it: the path of the
  bare status and, in the query, the parent.
\<close>

lemma parse_reply_request:
  assumes g: "plain_gateway g" and u: "plain_name u" and i: "plain_name i"
  shows "\<exists>r. url_parse (replyURL (actorID g u) i p) = Some r \<and> u_host r = gw_host g \<and>
    u_path r = ''/users/'' @ u @ ''/statuses/'' @ i \<and> query_get (u_rawquery r) replyParentQuery = p"
proof -
  have "url_parse (''https://'' @ gw_host g @ (''/users/'' @ u @ ''/statuses/'' @ i) @ ''?'' @ encode_value ''parent'' p)
    = Some \<lparr>u_scheme = ''https'', u_opaque = [], u_host = gw_host g,
        u_path = ''/users/'' @ u @ ''/statuses/'' @ i, u_rawquery = encode_value ''parent'' p\<rparr>"
    by (rule parse_https_query)
      (use g plain_status_path [OF u i] encode_value_bytes in \<open>auto simp: plain_gateway_def\<close>)
  moreover have "replyURL (actorID g u) i p
      = ''https://'' @ gw_host g @ (''/users/'' @ u @ ''/statuses/'' @ i) @ ''?'' @ encode_value ''parent'' p"
    by (simp add: replyURL_def actorID_def baseURL_def)
  ultimately show ?thesis by simp
qed

lemma own_reply_url:
  assumes "plain_gateway g" "plain_name u" "plain_name i"
  shows "ownStatusRef (isSelfHost g) (replyURL (actorID g u) i p) = Some (u, i)"
  using parse_reply_request [OF assms] own_status_path [OF assms(1)] id_segment_plain assms(2,3) by blast

text \<open>Escaped text contains no byte that could open a tag, an attribute or close one.\<close>

lemma html_escape_safe: "c \<in> set (html_escape s) \<Longrightarrow> c \<notin> {CHR ''<'', CHR ''>'', CHR 0x22, CHR 0x27}"
  by (auto simp: html_escape_def html_escape_byte_def split: if_splits)

text \<open>
  Every id a note is published under leads back to its author and tweet: the note's own id, its
  Create activity's id, its replies collection and the id of a reply that carries its parent.
\<close>

theorem published_ids_resolve:
  assumes "plain_gateway g" "id_segment u" "id_segment (t_Id t)"
  shows "parseLocalStatus g (n_ID (buildNote L g u t)) = Some (u, t_Id t) \<and>
    parseLocalStatus g (n_Replies (buildNote L g u t)) = Some (u, t_Id t) \<and>
    parseLocalStatus g (act_ID (buildCreateNote L g u t)) = Some (u, t_Id t) \<and>
    parseLocalStatus g (n_ID (statusNote L g u t parent)) = Some (u, t_Id t)"
proof -
  have r: "n_Replies (buildNote L g u t) = n_ID (buildNote L g u t) @ ''/replies''"
    "act_ID (buildCreateNote L g u t) = n_ID (buildNote L g u t) @ ''/activity''"
    by (simp_all add: buildNote_def buildCreateNote_def Let_def)
  have s: "n_ID (statusNote L g u t parent)
      = (if parent = [] then n_ID (buildNote L g u t) else replyURL (actorID g u) (t_Id t) parent)"
    by (simp add: statusNote_def Let_def)
  note p = parse_note_id [OF assms, of _ L]
  show ?thesis
    unfolding r s using p [of "[]"] p [of "''/replies''"] p [of "''/activity''"] parse_reply_url [OF assms]
    by (simp del: n_ID_buildNote)
qed

text \<open>
  C8: a reply federated by the bridge can be dereferenced.  Its id parses to a request for the bare
  status whose \<open>parent\<close> query is the answered note, the note served for that query has the federated
  id, parent and author, and the tombstone of a later deletion names the same id.
\<close>

theorem reply_dereferences:
  assumes "plain_gateway g" "plain_name (t_UserId ev)" "plain_name (t_Id ev)"
    and "act_Object (reply_activity L (actorID g (t_UserId ev)) now token author ev) = ObjNote n"
    and "t_Id t = t_Id ev" "reply_parent ev \<noteq> []"
    and "dt_UserId del = t_UserId ev" "dt_TweetId del = t_Id ev" "delete_parent del = reply_parent ev"
  shows "(\<exists>r. url_parse (n_ID n) = Some r \<and> u_host r = gw_host g \<and>
      u_path r = ''/users/'' @ t_UserId ev @ ''/statuses/'' @ t_Id ev \<and>
      (let served = statusNote L g (t_UserId ev) t (query_get (u_rawquery r) replyParentQuery) in
       n_ID served = n_ID n \<and> n_InReplyTo served = n_InReplyTo n \<and> n_AttributedTo served = n_AttributedTo n))
    \<and> act_Object (delete_activity (actorID g (dt_UserId del)) author' del) = ObjTombstone (n_ID n) typeTombstone"
proof -
  have ne: "t_Id ev \<noteq> []" using assms(3) by (simp add: plain_name_def)
  then have n: "n_ID n = replyURL (actorID g (t_UserId ev)) (t_Id ev) (reply_parent ev)" "n_InReplyTo n = reply_parent ev"
    "n_AttributedTo n = actorID g (t_UserId ev)"
    using assms(4) by (auto simp: reply_activity_def Let_def)
  from parse_reply_request [OF assms(1-3), of "reply_parent ev"] n assms(5-9) show ?thesis
    by (auto simp: statusNote_def buildNote_def delete_activity_def Let_def)
qed

definition sample_gateway :: gateway where
  "sample_gateway = \<lparr>gw_host = ''gw.example'', gw_has_key = True, gw_keyPubPEM = ''PEM'', gw_has_node = True,
     gw_logsToken = [], gw_allowPrivateTargets = False\<rparr>"

definition sample_lib :: warp_lib where
  "sample_lib = \<lparr>lib_strip_tags = (\<lambda>s. s), lib_retweet_prefix = ''RT:'', lib_default_reaction = ''heart'',
     lib_parse_time = (\<lambda>_. None), lib_format_time = (\<lambda>_. ''1970''), lib_oor = (\<lambda>_. 0)\<rparr>"

lemma sample_plain: "plain_gateway sample_gateway" "plain_name ''alice''" "plain_name ''42''"
  by (code_simp)+

lemma published_ids_resolve_witness:
  "parseLocalStatus sample_gateway
     (n_ID (buildNote sample_lib sample_gateway ''alice'' (zero_tweet\<lparr>t_Id := ''42''\<rparr>))) = Some (''alice'', ''42'')"
  using published_ids_resolve [of sample_gateway "''alice''" "zero_tweet\<lparr>t_Id := ''42''\<rparr>" sample_lib "[]"]
    sample_plain by (simp add: id_segment_plain)

lemma reply_dereferences_witness:
  "\<exists>n. act_Object (reply_activity sample_lib (actorID sample_gateway ''alice'') 0 ''t'' ''a''
      (zero_tweet\<lparr>t_Id := ''42'', t_UserId := ''alice'', t_RootId := ''https://m.example/1''\<rparr>)) = ObjNote n \<and>
    act_Object (delete_activity (actorID sample_gateway ''alice'') ''a'' (DeleteTweetEvent ''42'' ''alice'' [] ''https://m.example/1''))
      = ObjTombstone (n_ID n) typeTombstone"
proof -
  let ?ev = "zero_tweet\<lparr>t_Id := ''42'', t_UserId := ''alice'', t_RootId := ''https://m.example/1''\<rparr>"
  obtain n where n: "act_Object (reply_activity sample_lib (actorID sample_gateway ''alice'') 0 ''t'' ''a'' ?ev) = ObjNote n"
    by (simp add: reply_activity_def Let_def)
  have "reply_parent ?ev = ''https://m.example/1''" by (simp add: reply_parent_def zero_tweet_def)
  with reply_dereferences [of sample_gateway ?ev sample_lib 0 "''t''" "''a''" n ?ev
      "DeleteTweetEvent ''42'' ''alice'' [] ''https://m.example/1''" "''a''"] sample_plain n
  show ?thesis by (auto simp: delete_parent_def)
qed

text \<open>
  Text from Warpnet cannot inject markup.  The content of a note and the summary of an actor are
  fixed markup around a text without angle brackets and quotes, so that no tag or attribute of it
  comes from the user.
\<close>

theorem rendered_text_is_inert:
  "(\<exists>e. n_Content (buildNote L g u t) = ''<p>'' @ e @ ''</p>'' \<and> e = html_escape (t_Text t) \<and>
      set e \<inter> {CHR ''<'', CHR ''>'', CHR 0x22, CHR 0x27} = {})
   \<and> (\<exists>e. ac_Summary (buildActor g wu) \<in> {warpnetBioPrefix, warpnetBioPrefix @ ''<p>'' @ e @ ''</p>''} \<and>
      e = html_escape (wu_Summary wu) \<and> set e \<inter> {CHR ''<'', CHR ''>'', CHR 0x22, CHR 0x27} = {})"
  using html_escape_safe by (auto simp: buildNote_def buildActor_def badgedSummary_def Let_def)

end
