(* ===== verification/Gw_Monad.thy ===== *)
theory Gw_Monad
  imports Notes "HOL-Library.State_Monad" "HOL-Library.Monad_Syntax"
begin

text \<open>
  The effects of the gateway.  A computation is a state transformer over \<open>gw_state\<close>: an abstract
  world, on which the operations of third-party code and of the environment act, the trace of the
  requests the gateway has sent, and the node client's list of members that answered before.  The record \<open>gw_env\<close> holds those operations; everything the
  repository itself does is written out over them.

  Goroutines that only fan out independent fetches are run in the order of their items, in which
  the code also collects their results.
\<close>

abbreviation ret :: "'a \<Rightarrow> ('s, 'a) state" where
  "ret \<equiv> State_Monad.return"

section \<open>Requests, events, errors\<close>

record http_request =
  rq_method :: string
  rq_url :: string
  rq_headers :: "(string \<times> string) list"
  rq_body :: "string option"

record http_response =
  rs_status :: nat
  rs_headers :: "(string \<times> string) list"
  rs_data :: string
  rs_read_ok :: bool

text \<open>\<open>Header.Get\<close> and \<open>Header.Set\<close>, with canonical keys.\<close>

definition header_get :: "(string \<times> string) list \<Rightarrow> string \<Rightarrow> string" where
  "header_get hs k = (case map_of hs k of Some v \<Rightarrow> v | None \<Rightarrow> [])"

definition header_set :: "(string \<times> string) list \<Rightarrow> string \<Rightarrow> string \<Rightarrow> (string \<times> string) list" where
  "header_set hs k v = (k, v) # [kv \<leftarrow> hs. fst kv \<noteq> k]"

definition with_header :: "string \<Rightarrow> string \<Rightarrow> http_request \<Rightarrow> http_request" where
  "with_header k v rq = rq\<lparr>rq_headers := header_set (rq_headers rq) k v\<rparr>"

text \<open>A request put on the wire: the number of redirects before it, the dialled address, the request.\<close>

datatype gw_event =
    EvSend (ev_hop: nat) (ev_addr: string) (ev_request: http_request)
  | EvNode (ev_peer: string) (ev_route: route) (ev_payload: payload)

datatype gw_error =
    ErrURL url_error
  | ErrBuildRequest | ErrSign | ErrNetwork | ErrBodyTooLarge | ErrCancelled | ErrMarshal | ErrUnmarshal
  | ErrRemoteStatus nat
  | ErrActorMalformed | ErrBadPublicKey
  | ErrNotHandle | ErrSelfUser | ErrNoSelfLink | ErrNoAttributedTo
  | ErrNoSignatureHeader | ErrIncompleteSignature | ErrStaleRequest | ErrDigestMismatch
  | ErrNewVerifier | ErrVerify
  | ErrNode | ErrNoNode

record 'w gw_state =
  st_world :: 'w
  st_trace :: "gw_event list"
  st_good :: "string list"

type_synonym ('w, 'a) gw = "('w gw_state, 'a) state"

text \<open>The variables of \<open>sendRetry\<close> that its attempts assign.\<close>

record sendvars =
  sv_status :: nat
  sv_body :: string
  sv_header :: "(string \<times> string) list"

text \<open>
  The environment: the configuration; clock and randomness; the address the transport connects to
  for a request and one HTTP exchange over it; reference resolution of a \<open>Location\<close>; the signer and
  the verifier of \<open>httpsig\<close>, SHA-256 and PEM decoding; JSON decoding and encoding; the expirable
  caches; the outcome of a concurrent identical flight, when there is one to join; and the retrier.
\<close>

record ('w, 'k) gw_env =
  env_lib :: warp_lib
  env_gw :: gateway
  env_now :: "'w \<Rightarrow> gotime \<times> 'w"
  env_token :: "'w \<Rightarrow> string \<times> 'w"
  env_dial :: "string \<Rightarrow> 'w \<Rightarrow> string \<times> 'w"
  env_roundtrip :: "http_request \<Rightarrow> 'w \<Rightarrow> http_response option \<times> 'w"
  env_resolve_ref :: "string \<Rightarrow> string \<Rightarrow> string option"
  env_sign :: "string list \<Rightarrow> string \<Rightarrow> http_request \<Rightarrow> string option \<Rightarrow> http_request option"
  env_verifier :: "http_request \<Rightarrow> (string \<times> ('k \<Rightarrow> bool)) option"
  env_sha256 :: "string \<Rightarrow> string"
  env_parse_pem :: "string \<Rightarrow> 'k option"
  env_http_time :: "gotime \<Rightarrow> string"
  env_parse_http_time :: "string \<Rightarrow> gotime option"
  env_unmarshal :: "string \<Rightarrow> json option"
  env_marshal :: "activity \<Rightarrow> string option"
  env_get_cache :: "string \<Rightarrow> 'w \<Rightarrow> (nat \<times> string) option \<times> 'w"
  env_add_cache :: "string \<Rightarrow> nat \<times> string \<Rightarrow> 'w \<Rightarrow> 'w"
  env_get_actor :: "string \<Rightarrow> 'w \<Rightarrow> string option \<times> 'w"
  env_add_actor :: "string \<Rightarrow> string \<Rightarrow> 'w \<Rightarrow> 'w"
  env_flight :: "string \<Rightarrow> 'w \<Rightarrow> (gw_error + nat \<times> string) option \<times> 'w"
  env_try :: "((sendvars \<Rightarrow> ('w gw_state, gw_error option \<times> sendvars) state) \<Rightarrow>
                 sendvars \<Rightarrow> ('w gw_state, gw_error option \<times> sendvars) state) option"

section \<open>Primitive effects\<close>

definition world :: "('w \<Rightarrow> 'a \<times> 'w) \<Rightarrow> ('w, 'a) gw" where
  "world f = State (\<lambda>s. let (a, w) = f (st_world s) in (a, s\<lparr>st_world := w\<rparr>))"

definition world_do :: "('w \<Rightarrow> 'w) \<Rightarrow> ('w, unit) gw" where
  "world_do f = world (\<lambda>w. ((), f w))"

definition emit :: "gw_event \<Rightarrow> ('w, unit) gw" where
  "emit e = State (\<lambda>s. ((), s\<lparr>st_trace := st_trace s @ [e]\<rparr>))"

fun map_gw :: "('a \<Rightarrow> ('w, 'b) gw) \<Rightarrow> 'a list \<Rightarrow> ('w, 'b list) gw" where
  "map_gw f [] = ret []"
| "map_gw f (x # xs) = do { y \<leftarrow> f x; ys \<leftarrow> map_gw f xs; ret (y # ys) }"

section \<open>What a computation emits\<close>

text \<open>\<open>emits P m\<close>: every event that \<open>m\<close> adds to the trace satisfies \<open>P\<close>, from every state.\<close>

definition extends :: "(gw_event \<Rightarrow> bool) \<Rightarrow> 'w gw_state \<Rightarrow> 'w gw_state \<Rightarrow> bool" where
  "extends P s s' \<longleftrightarrow> (\<exists>es. st_trace s' = st_trace s @ es \<and> (\<forall>e\<in>set es. P e))"

definition emits :: "(gw_event \<Rightarrow> bool) \<Rightarrow> ('w, 'a) gw \<Rightarrow> bool" where
  "emits P m \<longleftrightarrow> state_io_rel (extends P) m"

lemma extends_refl [simp]: "extends P s s"
  by (simp add: extends_def)

lemma extends_world [simp]: "extends P s (s'\<lparr>st_world := w\<rparr>) \<longleftrightarrow> extends P s s'"
  by (simp add: extends_def)

lemma extends_trans: "extends P s t \<Longrightarrow> extends P t u \<Longrightarrow> extends P s u"
  by (auto simp: extends_def)

lemma extends_mono: "extends P s t \<Longrightarrow> (\<And>e. P e \<Longrightarrow> Q e) \<Longrightarrow> extends Q s t"
  by (auto simp: extends_def)

lemma emitsI: "(\<And>s a s'. run_state m s = (a, s') \<Longrightarrow> extends P s s') \<Longrightarrow> emits P m"
  by (auto simp: emits_def)

lemma emitsD: "emits P m \<Longrightarrow> run_state m s = (a, s') \<Longrightarrow> extends P s s'"
  by (auto simp: emits_def)

lemma emits_ret [keeps_intros, simp]: "emits P (ret x)"
  by (rule emitsI) simp

lemma emits_world [keeps_intros, simp]: "emits P (world f)"
  by (rule emitsI) (auto simp: world_def split: prod.splits)

lemma emits_world_do [keeps_intros, simp]: "emits P (world_do f)"
  by (simp add: world_do_def)

lemma emits_emit [keeps_intros]: "P e \<Longrightarrow> emits P (emit e)"
  by (rule emitsI) (auto simp: emit_def extends_def)

lemma emits_bind [keeps_intros]:
  assumes "emits P m" "\<And>a. emits P (f a)" shows "emits P (m \<bind> f)"
proof (rule emitsI)
  fix s b s' assume "run_state (m \<bind> f) s = (b, s')"
  then obtain a t where "run_state m s = (a, t)" "run_state (f a) t = (b, s')"
    by (auto split: prod.splits)
  with assms have "extends P s t" "extends P t s'" by (blast intro: emitsD)+
  then show "extends P s s'" by (rule extends_trans)
qed

lemma emits_if [keeps_intros]: "(c \<Longrightarrow> emits P m) \<Longrightarrow> (\<not> c \<Longrightarrow> emits P n) \<Longrightarrow> emits P (if c then m else n)"
  by simp

lemma emits_option [keeps_intros]:
  "(x = None \<Longrightarrow> emits P m) \<Longrightarrow> (\<And>a. x = Some a \<Longrightarrow> emits P (f a)) \<Longrightarrow>
    emits P (case x of None \<Rightarrow> m | Some a \<Rightarrow> f a)"
  by (cases x) auto

lemma emits_sum [keeps_intros]:
  "(\<And>a. x = Inl a \<Longrightarrow> emits P (f a)) \<Longrightarrow> (\<And>b. x = Inr b \<Longrightarrow> emits P (h b)) \<Longrightarrow>
    emits P (case x of Inl a \<Rightarrow> f a | Inr b \<Rightarrow> h b)"
  by (cases x) auto

lemma emits_prod [keeps_intros]:
  "(\<And>a b. x = (a, b) \<Longrightarrow> emits P (f a b)) \<Longrightarrow> emits P (case x of (a, b) \<Rightarrow> f a b)"
  by (cases x) auto

lemma emits_Let [keeps_intros]: "(\<And>x. x = v \<Longrightarrow> emits P (f x)) \<Longrightarrow> emits P (Let v f)"
  by simp

lemma emits_map_gw [keeps_intros]: "(\<And>x. x \<in> set xs \<Longrightarrow> emits P (f x)) \<Longrightarrow> emits P (map_gw f xs)"
  by (induction xs) (auto intro!: emits_bind)

lemma emits_mono: "emits P m \<Longrightarrow> (\<And>e. P e \<Longrightarrow> Q e) \<Longrightarrow> emits Q m"
  by (rule emitsI) (erule extends_mono [OF emitsD], simp_all)

lemma run_world [simp]: "run_state (world f) s = (fst (f (st_world s)), s\<lparr>st_world := snd (f (st_world s))\<rparr>)"
  by (simp add: world_def split: prod.split)

lemma run_world_do [simp]: "run_state (world_do f) s = ((), s\<lparr>st_world := f (st_world s)\<rparr>)"
  by (simp add: world_do_def)

lemma run_emit [simp]: "run_state (emit e) s = ((), s\<lparr>st_trace := st_trace s @ [e]\<rparr>)"
  by (simp add: emit_def)

lemma header_get_set [simp]: "header_get (header_set hs k v) k' = (if k' = k then v else header_get hs k')"
  by (induction hs) (auto simp: header_get_def header_set_def)

section \<open>A concrete environment\<close>

text \<open>
  The world is the list of responses still to come; documents are decoded by a table; keys are
  strings.
\<close>

definition sample_env :: "(string \<times> json) list \<Rightarrow> (http_response list, string) gw_env" where
  "sample_env docs =
     \<lparr>env_lib = sample_lib, env_gw = sample_gateway, env_now = (\<lambda>w. (0, w)), env_token = (\<lambda>w. (''tok'', w)),
      env_dial = (\<lambda>_ w. (''203.0.113.7'', w)),
      env_roundtrip = (\<lambda>_ w. case w of [] \<Rightarrow> (None, []) | r # rs \<Rightarrow> (Some r, rs)),
      env_resolve_ref = (\<lambda>_ loc. Some loc), env_sign = (\<lambda>_ _ rq _. Some rq),
      env_verifier = (\<lambda>_. Some (''https://m.example/users/bob#main-key'', \<lambda>k. k = ''K'')),
      env_sha256 = (\<lambda>_. ''h''), env_parse_pem = (\<lambda>pem. Some pem), env_http_time = (\<lambda>_. ''now''),
      env_parse_http_time = (\<lambda>_. Some 0), env_unmarshal = map_of docs, env_marshal = (\<lambda>_. Some ''doc''),
      env_get_cache = (\<lambda>_ w. (None, w)), env_add_cache = (\<lambda>_ _ w. w),
      env_get_actor = (\<lambda>_ w. (None, w)), env_add_actor = (\<lambda>_ _ w. w),
      env_flight = (\<lambda>_ w. (None, w)), env_try = None\<rparr>"

definition start_state :: "'w \<Rightarrow> 'w gw_state" where
  "start_state w = \<lparr>st_world = w, st_trace = [], st_good = []\<rparr>"

definition ok_response :: "string \<Rightarrow> http_response" where
  "ok_response data = \<lparr>rs_status = 200, rs_headers = [], rs_data = data, rs_read_ok = True\<rparr>"

end
