(* ===== verification/Http_Sig.thy ===== *)
theory Http_Sig
  imports Gw_Monad
begin

text \<open>
  The HTTP signature policy of \<open>httpsig.go\<close>: what the gateway signs, and what it requires of an
  inbound request before and around the library's own verification.
\<close>

definition minSignedHeaders :: "string list" where
  "minSignedHeaders = [''(request-target)'', ''host'', ''date'']"

text \<open>Twelve hours, in nanoseconds.\<close>

definition maxClockSkew :: int where
  "maxClockSkew = 12 * 3600 * 1000000000"

section \<open>Signing\<close>

definition signed_header_names :: "string option \<Rightarrow> string list" where
  "signed_header_names body = minSignedHeaders @ (case body of Some _ \<Rightarrow> [''digest''] | None \<Rightarrow> [])"

definition url_host_of :: "string \<Rightarrow> string" where
  "url_host_of raw = (case url_parse raw of Some u \<Rightarrow> u_host u | None \<Rightarrow> [])"

definition signRequest ::
  "('w, 'k) gw_env \<Rightarrow> string \<Rightarrow> http_request \<Rightarrow> string option \<Rightarrow> ('w, gw_error + http_request) gw" where
  "signRequest E key_id rq body = do {
     now \<leftarrow> world (env_now E);
     let rq1 = (if header_get (rq_headers rq) ''Date'' = []
                then with_header ''Date'' (env_http_time E now) rq else rq);
         rq2 = with_header ''Host'' (url_host_of (rq_url rq)) rq1 in
     (case env_sign E (signed_header_names body) key_id rq2 body of
        None \<Rightarrow> ret (Inl ErrSign)
      | Some rq3 \<Rightarrow> ret (Inr rq3))
   }"

section \<open>The Signature header\<close>

text \<open>One comma-separated part; the accumulator holds keyId, headers and signature.\<close>

definition sig_part :: "string \<Rightarrow> string \<times> string list \<times> string \<Rightarrow> string \<times> string list \<times> string" where
  "sig_part part acc =
     (let (key_id, headers, signature) = acc; (k0, v0, ok) = cut part ''='' in
      if \<not> ok then acc
      else let k = trim_space k0; val = trim_set {CHR 0x22} (trim_space v0) in
        if k = ''keyId'' then (val, headers, signature)
        else if k = ''headers'' then (key_id, Go_Strings.fields (to_lower val), signature)
        else if k = ''signature'' then (key_id, headers, val)
        else acc)"

definition parseSignatureHeader :: "string \<Rightarrow> (string \<times> string list \<times> string) option" where
  "parseSignatureHeader v =
     (let (key_id, headers, signature) = fold sig_part (split_on CHR '','' v) ([], [], []) in
      if key_id = [] \<or> signature = [] then None
      else Some (key_id, if headers = [] then [''date''] else headers, signature))"

section \<open>Verification\<close>

definition digest_of :: "('w, 'k) gw_env \<Rightarrow> string \<Rightarrow> string" where
  "digest_of E body = ''SHA-256='' @ std_encode (env_sha256 E body)"

text \<open>The checks before the library is called; \<^const>\<open>None\<close> means that they pass.\<close>

definition signature_policy :: "('w, 'k) gw_env \<Rightarrow> gotime \<Rightarrow> http_request \<Rightarrow> string \<Rightarrow> gw_error option" where
  "signature_policy E now rq body =
     (let sigHdr = header_get (rq_headers rq) ''Signature'' in
      if sigHdr = [] then Some ErrNoSignatureHeader
      else case parseSignatureHeader sigHdr of
        None \<Rightarrow> Some ErrIncompleteSignature
      | Some (_, headers, _) \<Rightarrow>
          if \<not> (\<forall>required\<in>set minSignedHeaders. required \<in> set headers) then Some ErrIncompleteSignature
          else let dateStr = header_get (rq_headers rq) ''Date'' in
            if dateStr = [] then Some ErrIncompleteSignature
            else case env_parse_http_time E dateStr of
              None \<Rightarrow> Some ErrIncompleteSignature
            | Some sent \<Rightarrow>
                (let skew = now - sent in
                 if skew > maxClockSkew \<or> skew < - maxClockSkew then Some ErrStaleRequest
                 else if body \<noteq> [] \<and> ''digest'' \<notin> set headers then Some ErrIncompleteSignature
                 else if ''digest'' \<in> set headers \<and> header_get (rq_headers rq) ''Digest'' \<noteq> digest_of E body
                   then Some ErrDigestMismatch
                 else None))"

definition verifyRequest ::
  "('w, 'k) gw_env \<Rightarrow> http_request \<Rightarrow> string \<Rightarrow> (string \<Rightarrow> ('w, gw_error + 'k) gw) \<Rightarrow> ('w, gw_error + string) gw" where
  "verifyRequest E rq body fetchKey = do {
     now \<leftarrow> world (env_now E);
     (case signature_policy E now rq body of
        Some e \<Rightarrow> ret (Inl e)
      | None \<Rightarrow>
          (case env_verifier E rq of
             None \<Rightarrow> ret (Inl ErrNewVerifier)
           | Some (key_id, verify) \<Rightarrow> do {
               pub \<leftarrow> fetchKey key_id;
               (case pub of
                  Inl e \<Rightarrow> ret (Inl e)
                | Inr k \<Rightarrow> ret (if verify k then Inr key_id else Inl ErrVerify))
             }))
   }"

section \<open>Properties\<close>

lemma emits_signRequest [keeps_intros]: "emits P (signRequest E k rq b)"
  unfolding signRequest_def by (intro keeps_intros)

lemma emits_verifyRequest [keeps_intros]:
  "(\<And>k. emits P (fetchKey k)) \<Longrightarrow> emits P (verifyRequest E rq body fetchKey)"
  unfolding verifyRequest_def by (intro keeps_intros)

text \<open>
  C6: what acceptance of a request guarantees.  A request is accepted only if its signature covers
  the request target, the host and the date, the date lies within twelve hours of now, a body is
  bound by a signed digest that is its SHA-256, and the library verified it with the key that was
  fetched for the key id that is returned.
\<close>

theorem verified_request:
  assumes "run_state (verifyRequest E rq body fetchKey) s = (Inr key_id, s')"
  shows "\<exists>k0 headers sig sent now verify k s1 s2.
     parseSignatureHeader (header_get (rq_headers rq) ''Signature'') = Some (k0, headers, sig) \<and>
     set minSignedHeaders \<subseteq> set headers \<and>
     env_parse_http_time E (header_get (rq_headers rq) ''Date'') = Some sent \<and>
     now = fst (env_now E (st_world s)) \<and> \<bar>now - sent\<bar> \<le> maxClockSkew \<and>
     (body \<noteq> [] \<or> ''digest'' \<in> set headers \<longrightarrow> header_get (rq_headers rq) ''Digest'' = digest_of E body) \<and>
     env_verifier E rq = Some (key_id, verify) \<and> run_state (fetchKey key_id) s1 = (Inr k, s2) \<and> verify k"
proof -
  let ?now = "fst (env_now E (st_world s))"
  have pol: "signature_policy E ?now rq body = None"
    using assms by (auto simp: verifyRequest_def split: option.splits)
  from pol obtain k0 headers sig sent where h:
    "parseSignatureHeader (header_get (rq_headers rq) ''Signature'') = Some (k0, headers, sig)"
    "set minSignedHeaders \<subseteq> set headers"
    "env_parse_http_time E (header_get (rq_headers rq) ''Date'') = Some sent"
    "\<bar>?now - sent\<bar> \<le> maxClockSkew"
    "body \<noteq> [] \<or> ''digest'' \<in> set headers \<longrightarrow> header_get (rq_headers rq) ''Digest'' = digest_of E body"
    unfolding signature_policy_def Let_def
    by (auto simp: subset_eq abs_le_iff not_less split: if_splits option.splits)
  obtain verify k s1 s2 where "env_verifier E rq = Some (key_id, verify)"
    "run_state (fetchKey key_id) s1 = (Inr k, s2)" "verify k"
    using assms pol
    by (auto simp: verifyRequest_def split: option.splits prod.splits sum.splits if_splits)
  with h show ?thesis by blast
qed

definition sample_signed :: http_request where
  "sample_signed = \<lparr>rq_method = ''POST'', rq_url = ''https://gw.example/inbox'',
     rq_headers = [(''Signature'', ''keyId=k,headers=(request-target) host date digest,signature=s''),
       (''Date'', ''now''), (''Digest'', ''SHA-256=aA=='')], rq_body = Some ''x''\<rparr>"

lemma verified_request_witness:
  "\<exists>verify. env_verifier (sample_env []) sample_signed = Some (''https://m.example/users/bob#main-key'', verify) \<and>
     header_get (rq_headers sample_signed) ''Digest'' = digest_of (sample_env []) ''x''"
proof -
  let ?E = "sample_env []"
  have pol: "signature_policy ?E 0 sample_signed ''x'' = None" by code_simp
  have now: "env_now ?E = (\<lambda>w. (0, w))" by (simp add: sample_env_def)
  have v: "env_verifier ?E sample_signed = Some (''https://m.example/users/bob#main-key'', \<lambda>k. k = ''K'')"
    by (simp add: sample_env_def)
  have "run_state (verifyRequest ?E sample_signed ''x'' (\<lambda>_. ret (Inr ''K''))) (start_state []) =
      (Inr ''https://m.example/users/bob#main-key'', start_state [])"
    using pol v by (simp add: verifyRequest_def now start_state_def)
  from verified_request [OF this] show ?thesis by fastforce
qed

end
