(* ===== verification/Transport.thy ===== *)
theory Transport
  imports Http_Sig
begin

text \<open>
  The outbound HTTP layer of \<open>server.go\<close>: the hardened client with its redirect loop, \<open>sendRetry\<close>,
  the memoised \<open>signedGet\<close>, and the operations built on them (\<open>fetchActor\<close>, \<open>fetchKey\<close>,
  \<open>remoteInbox\<close>, \<open>apGetJSON\<close>, \<open>apGetArray\<close>, \<open>fetchMedia\<close>, \<open>postSigned\<close>).
\<close>

definition maxBodyBytes :: nat where "maxBodyBytes = 1048576"
definition maxMediaBytes :: nat where "maxMediaBytes = 16777216"
definition userAgent :: string where "userAgent = ''warpnet-gateway/0.1.86''"

section \<open>The HTTP client\<close>

text \<open>
  Where a response redirects to: \<open>None\<close> when the client returns it, \<open>Some None\<close> when its
  \<open>Location\<close> does not resolve.
\<close>

definition redirect_target :: "('w, 'k) gw_env \<Rightarrow> http_request \<Rightarrow> http_response \<Rightarrow> string option option" where
  "redirect_target E rq resp =
     (if rs_status resp \<notin> {301, 302, 303, 307, 308} \<or> header_get (rs_headers resp) ''Location'' = [] then None
      else Some (env_resolve_ref E (rq_url rq) (header_get (rs_headers resp) ''Location'')))"

definition redirect_request :: "http_request \<Rightarrow> http_response \<Rightarrow> string \<Rightarrow> http_request" where
  "redirect_request rq resp loc =
     (if rs_status resp \<in> {307, 308} then rq\<lparr>rq_url := loc\<rparr>
      else rq\<lparr>rq_url := loc, rq_body := None,
             rq_method := (if rq_method rq \<in> {''GET'', ''HEAD''} then rq_method rq else ''GET'')\<rparr>)"

text \<open>
  \<open>Client.Do\<close> of \<open>newSafeClient\<close>: the dialer's control function sees the resolved address, and every
  redirect hop passes \<open>CheckRedirect\<close>; \<open>via\<close> counts the redirects followed so far.
\<close>

function client_do :: "('w, 'k) gw_env \<Rightarrow> nat \<Rightarrow> http_request \<Rightarrow> ('w, http_response option) gw" where
  "client_do E via rq = do {
     addr \<leftarrow> world (env_dial E (rq_url rq));
     (if dialControl addr \<noteq> None then ret None
      else do {
        emit (EvSend via addr rq);
        r \<leftarrow> world (env_roundtrip E rq);
        (case r of
           None \<Rightarrow> ret None
         | Some resp \<Rightarrow>
             (case redirect_target E rq resp of
                None \<Rightarrow> ret (Some resp)
              | Some None \<Rightarrow> ret None
              | Some (Some loc) \<Rightarrow>
                  if checkRedirect (Suc via) loc \<noteq> None then ret None
                  else client_do E (Suc via) (redirect_request rq resp loc)))
      })
   }"
  by pat_completeness auto
termination
  by (relation "measure (\<lambda>(E, via, rq). maxRedirects - via)")
    (auto simp: checkRedirect_def split: if_splits)

declare client_do.simps [simp del]

section \<open>Sending with retries\<close>

definition stop_trying :: "gw_error \<Rightarrow> bool" where
  "stop_trying e \<longleftrightarrow> e \<in> {ErrBuildRequest, ErrSign, ErrBodyTooLarge}"

definition with_user_agent :: "http_request \<Rightarrow> http_request" where
  "with_user_agent rq =
     (if header_get (rq_headers rq) ''User-Agent'' = [] then with_header ''User-Agent'' userAgent rq else rq)"

text \<open>One attempt of \<open>sendRetry\<close>: build, send, read at most \<open>limit + 1\<close> bytes, classify.\<close>

definition attempt ::
  "('w, 'k) gw_env \<Rightarrow> nat \<Rightarrow> ('w, gw_error + http_request) gw \<Rightarrow> sendvars \<Rightarrow> ('w, gw_error option \<times> sendvars) gw" where
  "attempt E limit newReq v = do {
     rr \<leftarrow> newReq;
     (case rr of
        Inl e \<Rightarrow> ret (Some e, v)
      | Inr rq \<Rightarrow> do {
          resp \<leftarrow> client_do E 0 (with_user_agent rq);
          (case resp of
             None \<Rightarrow> ret (Some ErrNetwork, v)
           | Some r \<Rightarrow>
               (let body = take (limit + 1) (rs_data r);
                    v' = \<lparr>sv_status = rs_status r, sv_body = body, sv_header = rs_headers r\<rparr> in
                if \<not> rs_read_ok r then ret (Some ErrNetwork, v')
                else if rs_status r \<ge> 300 \<and> retryableStatus (rs_status r)
                  then ret (Some (ErrRemoteStatus (rs_status r)), v')
                else if rs_status r < 300 \<and> length body > limit then ret (Some ErrBodyTooLarge, v')
                else ret (None, v')))
        })
   }"

definition no_vars :: sendvars where
  "no_vars = \<lparr>sv_status = 0, sv_body = [], sv_header = []\<rparr>"

definition sendRetry ::
  "('w, 'k) gw_env \<Rightarrow> nat \<Rightarrow> ('w, gw_error + http_request) gw \<Rightarrow> ('w, gw_error option \<times> sendvars) gw" where
  "sendRetry E limit newReq = (case env_try E of
     None \<Rightarrow> attempt E limit newReq no_vars
   | Some retry \<Rightarrow> retry (attempt E limit newReq) no_vars)"

text \<open>\<open>http.NewRequestWithContext\<close> fails when the URL does not parse.\<close>

definition new_request :: "string \<Rightarrow> string \<Rightarrow> string option \<Rightarrow> http_request option" where
  "new_request meth raw body =
     (if url_parse raw = None then None
      else Some \<lparr>rq_method = meth, rq_url = raw, rq_headers = [], rq_body = body\<rparr>)"

definition signGet :: "('w, 'k) gw_env \<Rightarrow> http_request \<Rightarrow> ('w, gw_error + http_request) gw" where
  "signGet E rq = (if \<not> gw_has_key (env_gw E) then ret (Inr rq)
     else signRequest E (instanceKeyID (env_gw E)) rq None)"

definition get_request ::
  "('w, 'k) gw_env \<Rightarrow> string \<Rightarrow> string option \<Rightarrow> ('w, gw_error + http_request) gw" where
  "get_request E raw accept = (case new_request ''GET'' raw None of
     None \<Rightarrow> ret (Inl ErrBuildRequest)
   | Some rq \<Rightarrow> signGet E (case accept of Some a \<Rightarrow> with_header ''Accept'' a rq | None \<Rightarrow> rq))"

text \<open>\<open>signedGet\<close>: the cache, then the flight of a concurrent caller if one is open, then the request.\<close>

definition signedGet :: "('w, 'k) gw_env \<Rightarrow> string \<Rightarrow> string \<Rightarrow> ('w, gw_error + nat \<times> string) gw" where
  "signedGet E raw accept =
     (let key = accept @ '' '' @ raw in do {
        hit \<leftarrow> world (env_get_cache E key);
        (case hit of
           Some c \<Rightarrow> ret (Inr c)
         | None \<Rightarrow> do {
             joined \<leftarrow> world (env_flight E key);
             (case joined of
                Some r \<Rightarrow> ret r
              | None \<Rightarrow> do {
                  hit2 \<leftarrow> world (env_get_cache E key);
                  (case hit2 of
                     Some c \<Rightarrow> ret (Inr c)
                   | None \<Rightarrow> do {
                       (e, v) \<leftarrow> sendRetry E maxBodyBytes (get_request E raw (Some accept));
                       (case e of
                          Some err \<Rightarrow> ret (Inl err)
                        | None \<Rightarrow> do {
                            world_do (env_add_cache E key (sv_status v, sv_body v));
                            ret (Inr (sv_status v, sv_body v))
                          })
                     })
                })
           })
      })"

section \<open>Operations\<close>

text \<open>The common part of \<open>fetchActor\<close>, \<open>apGetJSON\<close> and \<open>apGetArray\<close>.\<close>

definition guardedGet :: "('w, 'k) gw_env \<Rightarrow> string \<Rightarrow> string \<Rightarrow> ('w, gw_error + json) gw" where
  "guardedGet E raw accept = (case checkRemoteURL (env_gw E) raw of
     Some e \<Rightarrow> ret (Inl (ErrURL e))
   | None \<Rightarrow> do {
       r \<leftarrow> signedGet E raw accept;
       (case r of
          Inl e \<Rightarrow> ret (Inl e)
        | Inr (status, bt) \<Rightarrow>
            if status \<noteq> 200 then ret (Inl (ErrRemoteStatus status))
            else (case env_unmarshal E bt of None \<Rightarrow> ret (Inl ErrUnmarshal) | Some j \<Rightarrow> ret (Inr j)))
     })"

text \<open>Decoding into a map or a slice accepts \<open>null\<close>, as a nil value, and nothing of another shape.\<close>

definition as_document :: "gw_error + json \<Rightarrow> gw_error + gomap" where
  "as_document r = (case r of
     Inl e \<Rightarrow> Inl e
   | Inr (JObj m) \<Rightarrow> Inr (Some m)
   | Inr JNull \<Rightarrow> Inr None
   | Inr _ \<Rightarrow> Inl ErrUnmarshal)"

definition as_array :: "gw_error + json \<Rightarrow> gw_error + json list" where
  "as_array r = (case r of
     Inl e \<Rightarrow> Inl e
   | Inr (JArr xs) \<Rightarrow> Inr xs
   | Inr JNull \<Rightarrow> Inr []
   | Inr _ \<Rightarrow> Inl ErrUnmarshal)"

definition apGetJSON :: "('w, 'k) gw_env \<Rightarrow> string \<Rightarrow> string \<Rightarrow> ('w, gw_error + gomap) gw" where
  "apGetJSON E raw accept = do { r \<leftarrow> guardedGet E raw accept; ret (as_document r) }"

definition apGetArray :: "('w, 'k) gw_env \<Rightarrow> string \<Rightarrow> string \<Rightarrow> ('w, gw_error + json list) gw" where
  "apGetArray E raw accept = do { r \<leftarrow> guardedGet E raw accept; ret (as_array r) }"

definition fetchActor :: "('w, 'k) gw_env \<Rightarrow> string \<Rightarrow> ('w, gw_error + gomap) gw" where
  "fetchActor E actorURL = do { r \<leftarrow> guardedGet E actorURL contentTypeAP; ret (as_document r) }"

text \<open>\<open>fetchKey\<close>: the actor document behind a key id, and the key in it.\<close>

definition publicKey_of :: "gomap \<Rightarrow> gomap" where
  "publicKey_of m = (case jget m ''publicKey'' of
     JObj pk \<Rightarrow> Some pk
   | JArr (x # _) \<Rightarrow> asMap x
   | _ \<Rightarrow> None)"

definition key_of_actor :: "('w, 'k) gw_env \<Rightarrow> gomap \<Rightarrow> gw_error + 'k" where
  "key_of_actor E m = (case publicKey_of m of
     None \<Rightarrow> Inl ErrActorMalformed
   | Some pk \<Rightarrow>
       (let pem = str_or_empty (jget (Some pk) ''publicKeyPem'') in
        if pem = [] then Inl ErrActorMalformed
        else (case env_parse_pem E pem of None \<Rightarrow> Inl ErrBadPublicKey | Some k \<Rightarrow> Inr k)))"

definition fetchKey :: "('w, 'k) gw_env \<Rightarrow> string \<Rightarrow> ('w, gw_error + 'k) gw" where
  "fetchKey E key_id = do {
     r \<leftarrow> fetchActor E (fst (cut key_id ''#''));
     ret (case r of Inl e \<Rightarrow> Inl e | Inr m \<Rightarrow> key_of_actor E m)
   }"

definition inbox_of_actor :: "gomap \<Rightarrow> gw_error + string" where
  "inbox_of_actor m =
     (let si = (case jget m ''endpoints'' of
            JObj ep \<Rightarrow> str_or_empty (jget (Some ep) ''sharedInbox'') | _ \<Rightarrow> []);
          inbox = str_or_empty (jget m ''inbox'') in
      if si \<noteq> [] then Inr si else if inbox \<noteq> [] then Inr inbox else Inl ErrActorMalformed)"

definition remoteInbox :: "('w, 'k) gw_env \<Rightarrow> string \<Rightarrow> ('w, gw_error + string) gw" where
  "remoteInbox E actorURL = do {
     r \<leftarrow> fetchActor E actorURL;
     ret (case r of Inl e \<Rightarrow> Inl e | Inr m \<Rightarrow> inbox_of_actor m)
   }"

definition fetchMedia :: "('w, 'k) gw_env \<Rightarrow> string \<Rightarrow> ('w, gw_error + string \<times> string) gw" where
  "fetchMedia E raw = (case checkRemoteURL (env_gw E) raw of
     Some e \<Rightarrow> ret (Inl (ErrURL e))
   | None \<Rightarrow> do {
       (e, v) \<leftarrow> sendRetry E maxMediaBytes (get_request E raw None);
       (case e of
          Some err \<Rightarrow> ret (Inl err)
        | None \<Rightarrow>
            if sv_status v \<noteq> 200 then ret (Inl (ErrRemoteStatus (sv_status v)))
            else ret (Inr (header_get (sv_header v) ''Content-Type'', sv_body v)))
     })"

definition post_request ::
  "('w, 'k) gw_env \<Rightarrow> string \<Rightarrow> string \<Rightarrow> string \<Rightarrow> ('w, gw_error + http_request) gw" where
  "post_request E localUser target body = (case new_request ''POST'' target (Some body) of
     None \<Rightarrow> ret (Inl ErrBuildRequest)
   | Some rq \<Rightarrow> signRequest E (keyID (env_gw E) localUser) (with_header ''Content-Type'' contentTypeAP rq) (Some body))"

text \<open>\<open>postSigned\<close>; the response snippet only decorates the error.\<close>

definition postSigned :: "('w, 'k) gw_env \<Rightarrow> string \<Rightarrow> string \<Rightarrow> activity \<Rightarrow> ('w, gw_error option) gw" where
  "postSigned E localUser target doc = (case checkRemoteURL (env_gw E) target of
     Some e \<Rightarrow> ret (Some (ErrURL e))
   | None \<Rightarrow>
       (case env_marshal E doc of
          None \<Rightarrow> ret (Some ErrMarshal)
        | Some body \<Rightarrow> do {
            (e, v) \<leftarrow> sendRetry E maxBodyBytes (post_request E localUser target body);
            (case e of
               Some err \<Rightarrow> ret (Some err)
             | None \<Rightarrow> ret (if sv_status v \<ge> 300 then Some (ErrRemoteStatus (sv_status v)) else None))
          }))"

section \<open>The contract of the libraries\<close>

text \<open>
  \<open>Retrier.Try\<close>: the operation is attempted, once at least unless the context is done, and again
  only after an error that does not tell it to stop; between attempts time passes.  The result is
  that of the last attempt, or the context's error.
\<close>

inductive tries ::
  "(sendvars \<Rightarrow> ('w gw_state, gw_error option \<times> sendvars) state) \<Rightarrow> sendvars \<Rightarrow> 'w gw_state \<Rightarrow>
    gw_error option \<Rightarrow> sendvars \<Rightarrow> 'w gw_state \<Rightarrow> bool"
  for op where
    tries_last: "run_state (op v) s = ((r, v'), s') \<Longrightarrow> tries op v s r v' s'"
  | tries_again: "run_state (op v) s = ((Some e, v1), s1) \<Longrightarrow> \<not> stop_trying e \<Longrightarrow>
      tries op v1 (s1\<lparr>st_world := w\<rparr>) r v' s' \<Longrightarrow> tries op v s r v' s'"
  | tries_cancelled: "tries op v s (Some ErrCancelled) v s"

definition retrier_ok :: "('w, 'k) gw_env \<Rightarrow> bool" where
  "retrier_ok E \<longleftrightarrow> (\<forall>retry. env_try E = Some retry \<longrightarrow>
     (\<forall>op v s r v' s'. run_state (retry op v) s = ((r, v'), s') \<longrightarrow> tries op v s r v' s'))"

text \<open>The signer only adds headers to a request.\<close>

definition signer_ok :: "('w, 'k) gw_env \<Rightarrow> bool" where
  "signer_ok E \<longleftrightarrow> (\<forall>hs k rq body rq'. env_sign E hs k rq body = Some rq' \<longrightarrow>
     rq_url rq' = rq_url rq \<and> rq_method rq' = rq_method rq)"

lemma tries_extends:
  assumes "\<And>v. emits P (op v)" "tries op v s r v' s'" shows "extends P s s'"
  using assms(2)
proof induction
  case (tries_last v s r v' s')
  from emitsD [OF assms(1) this] show ?case .
next
  case (tries_again v s e v1 s1 w r v' s')
  have "extends P s s1" by (rule emitsD [OF assms(1) tries_again.hyps(1)])
  moreover have "extends P s1 s'" using tries_again.IH by (simp add: extends_def)
  ultimately show ?case by (rule extends_trans)
qed simp

lemma tries_success:
  assumes "tries op v s None v' s'" shows "\<exists>v1 s1. run_state (op v1) s1 = ((None, v'), s')"
  using assms by (induction r \<equiv> "None :: gw_error option" v' s' rule: tries.induct) auto

section \<open>Every request is guarded\<close>

text \<open>What the guard promises of a request on the wire, and of each redirect hop.\<close>

fun guarded :: "gateway \<Rightarrow> gw_event \<Rightarrow> bool" where
  "guarded g (EvSend hop addr rq) \<longleftrightarrow> dialControl addr = None \<and> hop < maxRedirects \<and>
     (if hop = 0 then checkRemoteURL g (rq_url rq) = None else validateRemoteURL (rq_url rq) = None)"
| "guarded g (EvNode peer rt p) \<longleftrightarrow> True"

lemma redirect_request_url [simp]: "rq_url (redirect_request rq resp loc) = loc"
  by (simp add: redirect_request_def)

lemma client_do_guarded:
  "via < maxRedirects \<Longrightarrow>
   (if via = 0 then checkRemoteURL g (rq_url rq) = None else validateRemoteURL (rq_url rq) = None) \<Longrightarrow>
   emits (guarded g) (client_do E via rq)"
proof (induction E via rq rule: client_do.induct)
  case (1 E via rq)
  show ?case
    by (subst client_do.simps, intro keeps_intros)
      (use 1 in \<open>auto simp: checkRedirect_def split: if_splits intro!: keeps_intros\<close>)
qed

lemma with_user_agent_url [simp]: "rq_url (with_user_agent rq) = rq_url rq"
  by (simp add: with_user_agent_def with_header_def)

text \<open>A request builder that only builds requests of a kind, and in particular requests to one URL.\<close>

definition makes :: "(http_request \<Rightarrow> bool) \<Rightarrow> ('w, gw_error + http_request) gw \<Rightarrow> bool" where
  "makes Q m \<longleftrightarrow> (\<forall>P. emits P m) \<and> pred_state (\<lambda>r. \<forall>rq. r = Inr rq \<longrightarrow> Q rq) m"

abbreviation builds :: "string \<Rightarrow> ('w, gw_error + http_request) gw \<Rightarrow> bool" where
  "builds url \<equiv> makes (\<lambda>rq. rq_url rq = url)"

lemma makesI:
  "(\<And>P. emits P m) \<Longrightarrow> (\<And>s rq s'. run_state m s = (Inr rq, s') \<Longrightarrow> Q rq) \<Longrightarrow> makes Q m"
  unfolding makes_def by (auto intro!: pred_stateI)

lemma makesD: "makes Q m \<Longrightarrow> run_state m s = (Inr rq, s') \<Longrightarrow> Q rq"
  unfolding makes_def by (auto dest: pred_stateD)

lemma signRequest_url:
  "signer_ok E \<Longrightarrow> run_state (signRequest E k rq b) s = (Inr rq', s') \<Longrightarrow> rq_url rq' = rq_url rq"
  unfolding signer_ok_def
  by (auto simp: signRequest_def with_header_def split: option.splits if_splits)

lemma builds_get: "signer_ok E \<Longrightarrow> builds url (get_request E url accept)"
  by (rule makesI)
    (auto simp: get_request_def signGet_def new_request_def with_header_def
      split: if_splits option.splits dest!: signRequest_url intro!: keeps_intros)

lemma builds_post: "signer_ok E \<Longrightarrow> builds url (post_request E u url body)"
  by (rule makesI)
    (auto simp: post_request_def new_request_def with_header_def
      split: if_splits option.splits dest!: signRequest_url intro!: keeps_intros)

text \<open>What an attempt emits is what the client emits for the requests that are built.\<close>

lemma attempt_emits:
  assumes "makes Q m" "\<And>rq. Q rq \<Longrightarrow> emits P (client_do E 0 (with_user_agent rq))"
  shows "emits P (attempt E limit m v)"
proof (rule emitsI)
  fix s a s' assume r: "run_state (attempt E limit m v) s = (a, s')"
  obtain rr t where m: "run_state m s = (rr, t)" by fastforce
  have "emits P m" using assms(1) by (simp add: makes_def)
  then have e: "extends P s t" using m by (rule emitsD)
  show "extends P s s'"
  proof (cases rr)
    case (Inl err)
    with r m e show ?thesis by (simp add: attempt_def)
  next
    case (Inr rq)
    obtain resp u where d: "run_state (client_do E 0 (with_user_agent rq)) t = (resp, u)" by fastforce
    have "emits P (client_do E 0 (with_user_agent rq))"
      using makesD [OF assms(1)] m Inr by (intro assms(2)) blast
    then have "extends P t u" using d by (rule emitsD)
    moreover have "s' = u"
      using r m d Inr by (auto simp: attempt_def Let_def split: option.splits if_splits)
    ultimately show ?thesis using e extends_trans by blast
  qed
qed

lemma sendRetry_emits:
  assumes "retrier_ok E" "makes Q m" "\<And>rq. Q rq \<Longrightarrow> emits P (client_do E 0 (with_user_agent rq))"
  shows "emits P (sendRetry E limit m)"
proof (cases "env_try E")
  case None
  then show ?thesis using attempt_emits [OF assms(2,3)] by (simp add: sendRetry_def)
next
  case (Some retry)
  show ?thesis
  proof (rule emitsI)
    fix s a s' assume "run_state (sendRetry E limit m) s = (a, s')"
    then have "tries (attempt E limit m) no_vars s (fst a) (snd a) s'"
      using assms(1) Some by (cases a) (auto simp: sendRetry_def retrier_ok_def)
    moreover have "emits P (attempt E limit m v)" for v using assms(2,3) by (rule attempt_emits)
    ultimately show "extends P s s'" by (rule tries_extends [rotated])
  qed
qed

lemma sendRetry_guarded [keeps_intros]:
  assumes "retrier_ok E" "builds url m" "checkRemoteURL g url = None"
  shows "emits (guarded g) (sendRetry E limit m)"
  using assms(1,2) by (rule sendRetry_emits, intro client_do_guarded) (use assms(3) in \<open>simp_all add: maxRedirects_def\<close>)

text \<open>The reads emit what the requests they send emit.\<close>

lemma reads_emit:
  assumes "\<And>raw accept limit. checkRemoteURL (env_gw E) raw = None \<Longrightarrow> emits P (sendRetry E limit (get_request E raw accept))"
  shows "emits P (guardedGet E raw accept)" "emits P (apGetJSON E raw accept)" "emits P (apGetArray E raw accept)"
    "emits P (fetchActor E raw)" "emits P (fetchKey E raw)" "emits P (remoteInbox E raw)" "emits P (fetchMedia E raw)"
proof -
  have "emits P (signedGet E url accept)" if "checkRemoteURL (env_gw E) url = None" for url accept
    using that unfolding signedGet_def by (auto intro!: keeps_intros assms)
  then have g: "emits P (guardedGet E url accept)" for url accept
    unfolding guardedGet_def by (auto intro!: keeps_intros)
  then show "emits P (guardedGet E raw accept)" .
  from g show "emits P (apGetJSON E raw accept)" "emits P (apGetArray E raw accept)" "emits P (fetchActor E raw)"
    "emits P (fetchKey E raw)" "emits P (remoteInbox E raw)" "emits P (fetchMedia E raw)"
    unfolding apGetJSON_def apGetArray_def fetchKey_def remoteInbox_def fetchActor_def fetchMedia_def
    by (auto intro!: keeps_intros assms)
qed

text \<open>The libraries keep their contracts.\<close>

definition env_ok :: "('w, 'k) gw_env \<Rightarrow> bool" where
  "env_ok E \<longleftrightarrow> retrier_ok E \<and> signer_ok E"

abbreviation guarded_by :: "('w, 'k) gw_env \<Rightarrow> ('w, 'a) gw \<Rightarrow> bool" where
  "guarded_by E m \<equiv> emits (guarded (env_gw E)) m"

lemma transport_guarded [keeps_intros]:
  assumes "env_ok E"
  shows "guarded_by E (guardedGet E raw accept)" "guarded_by E (apGetJSON E raw accept)" "guarded_by E (apGetArray E raw accept)"
    "guarded_by E (fetchActor E raw)" "guarded_by E (fetchKey E raw)" "guarded_by E (remoteInbox E raw)"
    "guarded_by E (fetchMedia E raw)" "guarded_by E (postSigned E u raw doc)"
proof -
  have "guarded_by E (sendRetry E limit (get_request E url accept))" if "checkRemoteURL (env_gw E) url = None" for url accept limit
    by (rule sendRetry_guarded [OF _ builds_get that]) (use assms in \<open>simp_all add: env_ok_def\<close>)
  note reads = reads_emit [OF this]
  show "guarded_by E (guardedGet E raw accept)" "guarded_by E (apGetJSON E raw accept)" "guarded_by E (apGetArray E raw accept)"
    "guarded_by E (fetchActor E raw)" "guarded_by E (fetchKey E raw)" "guarded_by E (remoteInbox E raw)"
    "guarded_by E (fetchMedia E raw)" by (rule reads; assumption)+
  show "guarded_by E (postSigned E u raw doc)"
    using assms unfolding postSigned_def by (auto intro!: keeps_intros builds_post simp: env_ok_def)
qed

section \<open>Complete bodies\<close>

text \<open>The variables hold a completely read, final response; one with a success status is not cut off.\<close>

definition delivered :: "nat \<Rightarrow> http_response \<Rightarrow> sendvars \<Rightarrow> bool" where
  "delivered limit r v \<longleftrightarrow> rs_read_ok r \<and> sv_status v = rs_status r \<and> sv_header v = rs_headers r \<and>
     sv_body v = take (limit + 1) (rs_data r) \<and>
     (rs_status r < 300 \<longrightarrow> sv_body v = rs_data r \<and> length (sv_body v) \<le> limit) \<and>
     \<not> (rs_status r \<ge> 300 \<and> retryableStatus (rs_status r))"

lemma delivered_200:
  assumes "delivered limit r v" "sv_status v = 200"
  shows "rs_status r = 200 \<and> rs_read_ok r \<and> sv_body v = rs_data r \<and> length (sv_body v) \<le> limit \<and>
    sv_header v = rs_headers r"
proof -
  have "rs_status r = 200" "rs_read_ok r" "sv_header v = rs_headers r"
    using assms by (simp_all add: delivered_def)
  moreover have "rs_status r < 300 \<longrightarrow> sv_body v = rs_data r \<and> length (sv_body v) \<le> limit"
    using assms(1) unfolding delivered_def by blast
  ultimately show ?thesis by auto
qed

text \<open>
  The response \<open>r\<close> is the answer of the environment to the last request that was put on the wire on the
  way from \<open>s\<close> to \<open>s'\<close>, and nothing happened in the world since.
\<close>

definition answered :: "('w, 'k) gw_env \<Rightarrow> 'w gw_state \<Rightarrow> 'w gw_state \<Rightarrow> http_response \<Rightarrow> bool" where
  "answered E s s' r \<longleftrightarrow> (\<exists>es hop addr rq w. st_trace s' = st_trace s @ es @ [EvSend hop addr rq] \<and>
     env_roundtrip E rq w = (Some r, st_world s'))"

lemma answered_later:
  assumes "st_trace t = st_trace s @ fs" and "answered E t s' r"
  shows "answered E s s' r"
proof -
  obtain es hop addr rq w where "st_trace s' = st_trace t @ es @ [EvSend hop addr rq]"
    "env_roundtrip E rq w = (Some r, st_world s')" using assms(2) unfolding answered_def by blast
  with assms(1) show ?thesis unfolding answered_def by (intro exI [of _ "fs @ es"] exI [of _ hop] exI) auto
qed

lemma client_do_answered: "run_state (client_do E via rq) s = (Some resp, s') \<Longrightarrow> answered E s s' resp"
proof (induction E via rq arbitrary: s rule: client_do.induct)
  case (1 E via rq)
  obtain addr w1 where d: "env_dial E (rq_url rq) (st_world s) = (addr, w1)" by fastforce
  obtain ro w2 where r: "env_roundtrip E rq w1 = (ro, w2)" by fastforce
  let ?s1 = "s\<lparr>st_trace := st_trace s @ [EvSend via addr rq], st_world := w2\<rparr>"
  note run = 1(2) [unfolded client_do.simps [of E via rq]]
  have c: "dialControl addr = None" using run d by (cases "dialControl addr = None") simp_all
  then obtain r1 where r1: "ro = Some r1" using run d r by (cases ro) simp_all
  consider "redirect_target E rq r1 = None" "resp = r1" "s' = ?s1"
    | loc where "redirect_target E rq r1 = Some (Some loc)" "checkRedirect (Suc via) loc = None"
        "run_state (client_do E (Suc via) (redirect_request rq r1 loc)) ?s1 = (Some resp, s')"
    using run d r r1 c by (auto split: option.splits if_splits)
  then show ?case
  proof cases
    case 1
    then show ?thesis using r r1 unfolding answered_def
      by (intro exI [of _ "[]"] exI [of _ via] exI [of _ addr] exI [of _ rq] exI [of _ w1]) simp
  next
    case (2 loc)
    have "answered E ?s1 s' resp"
      by (rule "1.IH" [where x = addr and xb = r1]) (use 2 r1 c in simp_all)
    then show ?thesis by (rule answered_later [rotated]) simp
  qed
qed

lemma client_do_extends: "emits (\<lambda>_. True) (client_do E via rq)"
proof (induction E via rq rule: client_do.induct)
  case (1 E via rq)
  show ?case by (subst client_do.simps, intro keeps_intros) (use 1 in \<open>auto intro!: keeps_intros\<close>)
qed

lemma attempt_delivered:
  assumes m: "\<And>P. emits P m" and run: "run_state (attempt E limit m v) s = ((None, v'), s')"
  shows "\<exists>r. answered E s s' r \<and> delivered limit r v'"
proof -
  obtain rq t r where b: "run_state m s = (Inr rq, t)"
    and c: "run_state (client_do E 0 (with_user_agent rq)) t = (Some r, s')" and d: "delivered limit r v'"
    using run by (auto simp: attempt_def Let_def delivered_def not_less split: sum.splits option.splits if_splits prod.splits)
  obtain fs where "st_trace t = st_trace s @ fs"
    using emitsD [OF m b, of "\<lambda>_. True"] by (auto simp: extends_def)
  from answered_later [OF this client_do_answered [OF c]] d show ?thesis by blast
qed

lemma tries_from:
  assumes "tries op v s None v' s'" and op: "\<And>v. emits (\<lambda>_. True) (op v)"
  shows "\<exists>v1 s1. extends (\<lambda>_. True) s s1 \<and> run_state (op v1) s1 = ((None, v'), s')"
  using assms(1)
proof (induction r \<equiv> "None :: gw_error option" v' s' rule: tries.induct)
  case (tries_last v s v' s')
  then show ?case using extends_refl by blast
next
  case (tries_again v s e v1 s1 w v' s')
  then obtain v2 s2 where s2: "extends (\<lambda>_. True) (s1\<lparr>st_world := w\<rparr>) s2" "run_state (op v2) s2 = ((None, v'), s')" by blast
  have "extends (\<lambda>_. True) s s1" using emitsD [OF op tries_again(1)] .
  moreover have "extends (\<lambda>_. True) s1 s2" using s2(1) by (simp add: extends_def)
  ultimately show ?case using s2(2) extends_trans by blast
qed

text \<open>What a success of \<open>sendRetry\<close> hands out: the answer to the last request, read and classified.\<close>

lemma sendRetry_delivered:
  assumes "retrier_ok E" and m: "\<And>P. emits P m" and run: "run_state (sendRetry E limit m) s = ((None, v'), s')"
  shows "\<exists>r. answered E s s' r \<and> delivered limit r v'"
proof (cases "env_try E")
  case None
  then show ?thesis using run attempt_delivered [OF m] by (simp add: sendRetry_def)
next
  case (Some retry)
  then have "tries (attempt E limit m) no_vars s None v' s'"
    using assms by (auto simp: sendRetry_def retrier_ok_def)
  moreover have "emits (\<lambda>_. True) (attempt E limit m v)" for v
    by (rule attempt_emits [where Q = "\<lambda>_. True"]) (auto intro: makesI m client_do_extends)
  ultimately obtain v1 s1 where s1: "extends (\<lambda>_. True) s s1" "run_state (attempt E limit m v1) s1 = ((None, v'), s')"
    using tries_from by blast
  from attempt_delivered [OF m s1(2)] obtain r where "answered E s1 s' r" "delivered limit r v'" by blast
  then show ?thesis using s1(1) answered_later unfolding extends_def by blast
qed

lemma get_request_emits: "emits P (get_request E raw accept)"
  unfolding get_request_def signGet_def by (auto intro!: keeps_intros)

lemma fetchMedia_sent:
  assumes "run_state (fetchMedia E raw) s = (Inr (ct, media), s')"
  obtains v where "run_state (sendRetry E maxMediaBytes (get_request E raw None)) s = ((None, v), s')"
    "sv_status v = 200" "ct = header_get (sv_header v) ''Content-Type''" "media = sv_body v"
  using assms by (auto simp: fetchMedia_def split: option.splits if_splits prod.splits)

text \<open>
  C38: media is never cut off.  Bytes that \<open>fetchMedia\<close> returns are the whole body of the response that
  the environment gave to the last request put on the wire during the call, the type is that response's
  \<open>Content-Type\<close>, its status was 200, it was read to its end, and it is no larger than the limit; whatever
  the retrier did before, and whatever redirects were followed.
\<close>

theorem fetched_media_complete:
  assumes "retrier_ok E" "run_state (fetchMedia E raw) s = (Inr (ct, media), s')"
  shows "\<exists>es hop addr rq w r. st_trace s' = st_trace s @ es @ [EvSend hop addr rq] \<and>
    env_roundtrip E rq w = (Some r, st_world s') \<and> rs_status r = 200 \<and> rs_read_ok r \<and>
    media = rs_data r \<and> ct = header_get (rs_headers r) ''Content-Type'' \<and> length media \<le> maxMediaBytes"
proof -
  obtain v where v: "run_state (sendRetry E maxMediaBytes (get_request E raw None)) s = ((None, v), s')"
    "sv_status v = 200" "ct = header_get (sv_header v) ''Content-Type''" "media = sv_body v"
    using fetchMedia_sent [OF assms(2)] .
  from sendRetry_delivered [OF assms(1) get_request_emits v(1)] obtain r where
    r: "answered E s s' r" "delivered maxMediaBytes r v" by blast
  from delivered_200 [OF r(2) v(2)] v(3,4) r(1) show ?thesis unfolding answered_def by metis
qed

lemma sample_retrier_ok: "retrier_ok (sample_env docs)"
  by (simp add: retrier_ok_def sample_env_def)

lemma sample_env_ok: "env_ok (sample_env docs)"
  by (simp add: env_ok_def retrier_ok_def signer_ok_def sample_env_def)

lemma sample_url_ok:
  "checkRemoteURL sample_gateway ''https://m.example/a.png'' = None" "url_parse ''https://m.example/a.png'' \<noteq> None"
  "dialControl ''203.0.113.7'' = None"
  by (code_simp)+

lemma sample_fetch:
  "fst (run_state (fetchMedia (sample_env []) ''https://m.example/a.png'') (start_state [ok_response ''png'']))
    = Inr ([], ''png'')"
  using sample_url_ok
  by (simp add: fetchMedia_def sample_env_def sendRetry_def attempt_def get_request_def new_request_def signGet_def
      signRequest_def client_do.simps start_state_def ok_response_def with_user_agent_def with_header_def
      redirect_target_def sample_gateway_def header_get_def Let_def maxMediaBytes_def no_vars_def
      split: option.split)

lemma fetched_media_complete_witness:
  "\<exists>s' es hop addr rq w r. run_state (fetchMedia (sample_env []) ''https://m.example/a.png'') (start_state [ok_response ''png''])
      = (Inr ([], ''png''), s') \<and> st_trace s' = es @ [EvSend hop addr rq] \<and>
    env_roundtrip (sample_env []) rq w = (Some r, st_world s') \<and> ''png'' = rs_data r \<and> rs_read_ok r"
proof -
  obtain s' where run: "run_state (fetchMedia (sample_env []) ''https://m.example/a.png'') (start_state [ok_response ''png''])
      = (Inr ([], ''png''), s')"
    using sample_fetch by (metis prod.collapse)
  have t: "st_trace (start_state [ok_response ''png'']) = []" by (simp add: start_state_def)
  from fetched_media_complete [OF sample_retrier_ok run, unfolded t append_Nil] run show ?thesis by blast
qed

end
