(* ===== verification/Flights.thy ===== *)
theory Flights
  imports Transport
begin

text \<open>
  Concurrent identical requests (\<open>signedGet\<close> of \<open>server.go\<close>): the callers of one gateway as they
  interleave over the response cache and the flights of \<open>singleflight\<close>.  \<open>Transport\<close> runs one caller and
  takes what the cache and a joined flight answer as given; here all callers run, and the answers follow.
  The cache and \<open>singleflight\<close> are third-party packages: their operations are parameters, and what their
  documentation promises is \<open>lru_contract\<close> and \<open>singleflight_contract\<close>.
\<close>

definition getCacheTTL :: int where "getCacheTTL = 1000000000"
definition getCacheSize :: nat where "getCacheSize = 2048"

type_synonym cachedGet = "nat \<times> string"

section \<open>The packages\<close>

text \<open>
  \<open>expirable.LRU\<close>: \<open>NewLRU\<close> of a size and a time to live; \<open>Get\<close>, which may reorder the entries; \<open>Add\<close>, with the
  keys it evicts; and the removal of expired entries in the background.  \<open>gl_held\<close> observes the entries,
  with the times at which they were added.
\<close>

record 'c get_lru =
  gl_new :: "nat \<Rightarrow> int \<Rightarrow> 'c"
  gl_get :: "gotime \<Rightarrow> string \<Rightarrow> 'c \<Rightarrow> cachedGet option \<times> 'c"
  gl_add :: "gotime \<Rightarrow> string \<Rightarrow> cachedGet \<Rightarrow> 'c \<Rightarrow> string list \<times> 'c"
  gl_expire :: "gotime \<Rightarrow> 'c \<Rightarrow> 'c"
  gl_held :: "'c \<Rightarrow> string \<rightharpoonup> cachedGet \<times> gotime"

definition lru_contract :: "'c get_lru \<Rightarrow> bool" where
  "lru_contract C \<longleftrightarrow>
     gl_held C (gl_new C getCacheSize getCacheTTL) = Map.empty \<and>
     (\<forall>now k c v. fst (gl_get C now k c) = Some v \<longrightarrow> (\<exists>t. gl_held C c k = Some (v, t) \<and> now \<le> t + getCacheTTL)) \<and>
     (\<forall>now k c v t. gl_held C c k = Some (v, t) \<and> now < t + getCacheTTL \<longrightarrow> fst (gl_get C now k c) = Some v) \<and>
     (\<forall>now k c. gl_held C (snd (gl_get C now k c)) = gl_held C c) \<and>
     (\<forall>now k v c. k \<notin> set (fst (gl_add C now k v c)) \<and>
        gl_held C (snd (gl_add C now k v c)) =
          (\<lambda>x. if x \<in> set (fst (gl_add C now k v c)) then None else gl_held C c x)(k \<mapsto> (v, now))) \<and>
     (\<forall>now c k. gl_held C (gl_expire C now c) k \<noteq> gl_held C c k \<longrightarrow>
        gl_held C (gl_expire C now c) k = None \<and> (\<exists>v t. gl_held C c k = Some (v, t) \<and> t + getCacheTTL \<le> now))"

lemma lru_contractD:
  assumes "lru_contract C"
  shows "gl_held C (gl_new C getCacheSize getCacheTTL) = Map.empty"
    and "fst (gl_get C now k c) = Some v \<Longrightarrow> \<exists>t. gl_held C c k = Some (v, t) \<and> now \<le> t + getCacheTTL"
    and "gl_held C c k = Some (v, t) \<Longrightarrow> now < t + getCacheTTL \<Longrightarrow> fst (gl_get C now k c) = Some v"
    and "gl_held C (snd (gl_get C now k c)) = gl_held C c"
    and "k \<notin> set (fst (gl_add C now k v c))"
    and "gl_held C (snd (gl_add C now k v c)) =
      (\<lambda>x. if x \<in> set (fst (gl_add C now k v c)) then None else gl_held C c x)(k \<mapsto> (v, now))"
    and "gl_held C (gl_expire C now c) k \<noteq> gl_held C c k \<Longrightarrow>
      gl_held C (gl_expire C now c) k = None \<and> (\<exists>v t. gl_held C c k = Some (v, t) \<and> t + getCacheTTL \<le> now)"
  using assms unfolding lru_contract_def by blast+

text \<open>
  \<open>singleflight.Group\<close>: \<open>Do\<close> of a caller either runs his function or has him wait for a caller whose function
  runs for the same key, until that one ends.  \<open>sg_leader\<close> observes whose function runs for a key.
\<close>

record 'g flight_group =
  sg_new :: 'g
  sg_do :: "string \<Rightarrow> nat \<Rightarrow> 'g \<Rightarrow> nat option \<times> 'g"
  sg_end :: "string \<Rightarrow> 'g \<Rightarrow> 'g"
  sg_leader :: "'g \<Rightarrow> string \<rightharpoonup> nat"

definition singleflight_contract :: "'g flight_group \<Rightarrow> bool" where
  "singleflight_contract G \<longleftrightarrow> sg_leader G (sg_new G) = Map.empty \<and>
     (\<forall>k i g. fst (sg_do G k i g) = sg_leader G g k) \<and>
     (\<forall>k i g. sg_leader G (snd (sg_do G k i g)) =
        (if sg_leader G g k = None then (sg_leader G g)(k \<mapsto> i) else sg_leader G g)) \<and>
     (\<forall>k g. sg_leader G (sg_end G k g) = (sg_leader G g)(k := None))"

lemma singleflight_contractD:
  assumes "singleflight_contract G"
  shows "sg_leader G (sg_new G) = Map.empty"
    and "fst (sg_do G k i g) = sg_leader G g k"
    and "sg_leader G (snd (sg_do G k i g)) =
      (if sg_leader G g k = None then (sg_leader G g)(k \<mapsto> i) else sg_leader G g)"
    and "sg_leader G (sg_end G k g) = (sg_leader G g)(k := None)"
  using assms unfolding singleflight_contract_def by blast+

section \<open>The callers\<close>

text \<open>
  Where a caller is in \<open>signedGet\<close>: before the first look-up in the cache; past it; running the flight's
  function, before the second look-up; waiting for the response; returning from the flight's function;
  waiting for the flight of another caller; and back, with the caller whose look-up or flight answered.
\<close>

datatype place =
    Absent
  | Entering
  | Missed
  | Leading
  | Fetching
  | Returning "gw_error + cachedGet"
  | Joined nat
  | Answered nat "gw_error + cachedGet"

text \<open>What happens upstream and in the cache, by key.\<close>

datatype flight_event =
    Sent (fe_key: string) gotime
  | Stored (fe_key: string) gotime cachedGet
  | Failed (fe_key: string) gotime gw_error
  | Evicted (fe_key: string)

text \<open>
  The state: the clock; the cache; the group; each caller's place, key, time of arrival, and whether its
  context is done; and the events.
\<close>

record ('c, 'g) flights =
  fl_now :: gotime
  fl_cache :: 'c
  fl_group :: 'g
  fl_place :: "nat \<Rightarrow> place"
  fl_key :: "nat \<Rightarrow> string"
  fl_since :: "nat \<Rightarrow> gotime"
  fl_cancelled :: "nat \<Rightarrow> bool"
  fl_log :: "flight_event list"

definition no_flights :: "'c get_lru \<Rightarrow> 'g flight_group \<Rightarrow> gotime \<Rightarrow> ('c, 'g) flights" where
  "no_flights C G t = \<lparr>fl_now = t, fl_cache = gl_new C getCacheSize getCacheTTL, fl_group = sg_new G,
     fl_place = (\<lambda>_. Absent), fl_key = (\<lambda>_. []), fl_since = (\<lambda>_. t), fl_cancelled = (\<lambda>_. False), fl_log = []\<rparr>"

abbreviation go_to :: "nat \<Rightarrow> place \<Rightarrow> ('c, 'g) flights \<Rightarrow> ('c, 'g) flights" where
  "go_to i p s \<equiv> s\<lparr>fl_place := (fl_place s)(i := p)\<rparr>"

abbreviation log_events :: "flight_event list \<Rightarrow> ('c, 'g) flights \<Rightarrow> ('c, 'g) flights" where
  "log_events es s \<equiv> s\<lparr>fl_log := fl_log s @ es\<rparr>"

definition enter_get :: "nat \<Rightarrow> string \<Rightarrow> string \<Rightarrow> ('c, 'g) flights \<Rightarrow> ('c, 'g) flights" where
  "enter_get i accept raw s = s\<lparr>fl_place := (fl_place s)(i := Entering),
     fl_key := (fl_key s)(i := accept @ '' '' @ raw), fl_since := (fl_since s)(i := fl_now s)\<rparr>"

definition first_lookup :: "'c get_lru \<Rightarrow> nat \<Rightarrow> ('c, 'g) flights \<Rightarrow> ('c, 'g) flights" where
  "first_lookup C i s = (case gl_get C (fl_now s) (fl_key s i) (fl_cache s) of (found, c) \<Rightarrow>
     go_to i (case found of Some v \<Rightarrow> Answered i (Inr v) | None \<Rightarrow> Missed) (s\<lparr>fl_cache := c\<rparr>))"

definition enter_flight :: "'g flight_group \<Rightarrow> nat \<Rightarrow> ('c, 'g) flights \<Rightarrow> ('c, 'g) flights" where
  "enter_flight G i s = (case sg_do G (fl_key s i) i (fl_group s) of (leader, g) \<Rightarrow>
     go_to i (case leader of Some j \<Rightarrow> Joined j | None \<Rightarrow> Leading) (s\<lparr>fl_group := g\<rparr>))"

definition second_lookup :: "'c get_lru \<Rightarrow> nat \<Rightarrow> ('c, 'g) flights \<Rightarrow> ('c, 'g) flights" where
  "second_lookup C i s = (case gl_get C (fl_now s) (fl_key s i) (fl_cache s) of
     (Some v, c) \<Rightarrow> go_to i (Returning (Inr v)) (s\<lparr>fl_cache := c\<rparr>)
   | (None, c) \<Rightarrow> log_events [Sent (fl_key s i) (fl_now s)] (go_to i Fetching (s\<lparr>fl_cache := c\<rparr>)))"

definition got_response :: "'c get_lru \<Rightarrow> nat \<Rightarrow> gw_error + cachedGet \<Rightarrow> ('c, 'g) flights \<Rightarrow> ('c, 'g) flights" where
  "got_response C i r s = (case r of
     Inl e \<Rightarrow> log_events [Failed (fl_key s i) (fl_now s) e] (go_to i (Returning (Inl e)) s)
   | Inr v \<Rightarrow> (case gl_add C (fl_now s) (fl_key s i) v (fl_cache s) of (evicted, c) \<Rightarrow>
       log_events (Stored (fl_key s i) (fl_now s) v # map Evicted evicted)
         (go_to i (Returning (Inr v)) (s\<lparr>fl_cache := c\<rparr>))))"

definition end_flight :: "'g flight_group \<Rightarrow> nat \<Rightarrow> gw_error + cachedGet \<Rightarrow> ('c, 'g) flights \<Rightarrow> ('c, 'g) flights" where
  "end_flight G i r s = s\<lparr>fl_group := sg_end G (fl_key s i) (fl_group s),
     fl_place := (\<lambda>x. if x = i \<or> fl_place s x = Joined i then Answered i r else fl_place s x)\<rparr>"

text \<open>The steps, in any order.  The request runs under the context of the caller that leads the flight.\<close>

inductive flight_step :: "'c get_lru \<Rightarrow> 'g flight_group \<Rightarrow> ('c, 'g) flights \<Rightarrow> ('c, 'g) flights \<Rightarrow> bool" for C G where
  fs_time: "fl_now s \<le> t \<Longrightarrow> flight_step C G s (s\<lparr>fl_now := t\<rparr>)"
| fs_expire: "flight_step C G s (s\<lparr>fl_cache := gl_expire C (fl_now s) (fl_cache s)\<rparr>)"
| fs_cancel: "flight_step C G s (s\<lparr>fl_cancelled := (fl_cancelled s)(i := True)\<rparr>)"
| fs_enter: "fl_place s i = Absent \<Longrightarrow> flight_step C G s (enter_get i accept raw s)"
| fs_first: "fl_place s i = Entering \<Longrightarrow> flight_step C G s (first_lookup C i s)"
| fs_flight: "fl_place s i = Missed \<Longrightarrow> flight_step C G s (enter_flight G i s)"
| fs_second: "fl_place s i = Leading \<Longrightarrow> flight_step C G s (second_lookup C i s)"
| fs_response: "fl_place s i = Fetching \<Longrightarrow> r = Inl ErrCancelled \<longrightarrow> fl_cancelled s i \<Longrightarrow>
    flight_step C G s (got_response C i r s)"
| fs_end: "fl_place s i = Returning r \<Longrightarrow> flight_step C G s (end_flight G i r s)"

inductive flight_reach :: "'c get_lru \<Rightarrow> 'g flight_group \<Rightarrow> gotime \<Rightarrow> ('c, 'g) flights \<Rightarrow> bool" for C G t0 where
  fr_new: "flight_reach C G t0 (no_flights C G t0)"
| fr_step: "flight_reach C G t0 s \<Longrightarrow> flight_step C G s s' \<Longrightarrow> flight_reach C G t0 s'"

section \<open>One flight per key\<close>

fun flying :: "place \<Rightarrow> bool" where
  "flying Leading = True" | "flying Fetching = True" | "flying (Returning r) = True" | "flying p = False"

text \<open>
  The group's map names exactly the callers that run a function, each under its own key; whoever waits,
  waits for one of them, with the same key.
\<close>

definition one_flight :: "(string \<rightharpoonup> nat) \<Rightarrow> (nat \<Rightarrow> place) \<Rightarrow> (nat \<Rightarrow> string) \<Rightarrow> bool" where
  "one_flight opn plc key \<longleftrightarrow> (\<forall>j k. opn k = Some j \<longleftrightarrow> flying (plc j) \<and> key j = k) \<and>
     (\<forall>i j. plc i = Joined j \<longrightarrow> flying (plc j) \<and> key j = key i)"

lemma one_flightD:
  assumes "one_flight opn plc key"
  shows "opn k = Some j \<longleftrightarrow> flying (plc j) \<and> key j = k" and "plc i = Joined j \<Longrightarrow> flying (plc j)"
    and "plc i = Joined j \<Longrightarrow> key j = key i"
  using assms unfolding one_flight_def by blast+

lemma one_flight_unique: "one_flight opn plc key \<Longrightarrow> flying (plc i) \<Longrightarrow> flying (plc j) \<Longrightarrow> key i = key j \<Longrightarrow> i = j"
  by (metis one_flightD(1) option.inject)

lemma one_flight_move:
  "one_flight opn plc key \<Longrightarrow> flying p = flying (plc i) \<Longrightarrow> (\<And>j. p \<noteq> Joined j) \<Longrightarrow> one_flight opn (plc(i := p)) key"
  unfolding one_flight_def by auto

lemma one_flight_arrive:
  assumes "one_flight opn plc key" and "plc i = Absent"
  shows "one_flight opn (plc(i := Entering)) (key(i := k))"
proof -
  have "opn k' \<noteq> Some i" "plc j \<noteq> Joined i" for k' j
    using one_flightD [OF assms(1)] assms(2) by fastforce+
  then show ?thesis using assms unfolding one_flight_def by auto
qed

lemma one_flight_join:
  assumes "one_flight opn plc key" and "plc i = Missed" and "opn (key i) = Some j"
  shows "one_flight opn (plc(i := Joined j)) key"
proof -
  have "opn k' \<noteq> Some i" "plc x \<noteq> Joined i" for k' x
    using one_flightD [OF assms(1)] assms(2) by fastforce+
  moreover have "flying (plc j)" "key j = key i" using one_flightD(1) [OF assms(1)] assms(3) by blast+
  ultimately show ?thesis using assms unfolding one_flight_def by auto
qed

lemma one_flight_lead:
  assumes "one_flight opn plc key" and "plc i = Missed" and "opn (key i) = None"
  shows "one_flight (opn(key i \<mapsto> i)) (plc(i := Leading)) key"
proof -
  have "opn k' \<noteq> Some i" "plc x \<noteq> Joined i" for k' x
    using one_flightD [OF assms(1)] assms(2) by fastforce+
  moreover have "\<not> (flying (plc j) \<and> key j = key i)" for j
    using one_flightD(1) [OF assms(1), of "key i" j] assms(3) by simp
  ultimately show ?thesis using assms unfolding one_flight_def by auto
qed

lemma one_flight_end:
  assumes "one_flight opn plc key" and "plc i = Returning r"
  shows "one_flight (opn(key i := None)) (\<lambda>x. if x = i \<or> plc x = Joined i then Answered i r else plc x) key"
proof -
  have "flying (plc j) \<and> key j = key i \<longleftrightarrow> j = i" for j
    using one_flight_unique [OF assms(1), of j i] assms(2) by auto
  then show ?thesis using assms(1) unfolding one_flight_def by (auto split: if_splits) (metis flying.simps)+
qed

definition flights_inv :: "'g flight_group \<Rightarrow> ('c, 'g) flights \<Rightarrow> bool" where
  "flights_inv G s \<longleftrightarrow> one_flight (sg_leader G (fl_group s)) (fl_place s) (fl_key s)"

lemma flights_inv_step:
  assumes sf: "singleflight_contract G"
  shows "flight_step C G s s' \<Longrightarrow> flights_inv G s \<Longrightarrow> flights_inv G s'"
proof (induction rule: flight_step.induct)
  case (fs_end s i r)
  then show ?case by (simp add: flights_inv_def end_flight_def singleflight_contractD(4) [OF sf] one_flight_end)
next
  case (fs_enter s i accept raw)
  then show ?case by (simp add: flights_inv_def enter_get_def one_flight_arrive)
next
  case (fs_flight s i)
  then show ?case
    using singleflight_contractD(2,3) [OF sf, of "fl_key s i" i "fl_group s"]
    by (auto simp: flights_inv_def enter_flight_def one_flight_join one_flight_lead split: option.splits prod.splits)
qed (simp_all add: flights_inv_def first_lookup_def second_lookup_def got_response_def one_flight_move
  split: option.split sum.split prod.split)

lemma flight_reach_inv: "singleflight_contract G \<Longrightarrow> flight_reach C G t0 s \<Longrightarrow> flights_inv G s"
proof (rotate_tac, induction rule: flight_reach.induct)
  case fr_new
  then show ?case by (simp add: flights_inv_def no_flights_def one_flight_def singleflight_contractD(1))
next
  case (fr_step s s')
  then show ?case by (blast intro: flights_inv_step)
qed

section \<open>What goes upstream\<close>

text \<open>
  One key as the remote server may see it: no request under way and nothing fresh in the cache, a request
  under way, or a response stored at some time and still held.
\<close>

datatype key_state = KIdle | KBusy | KFresh gotime

fun key_step :: "string \<Rightarrow> key_state \<Rightarrow> flight_event \<Rightarrow> key_state option" where
  "key_step k st (Sent k' t) = (if k' \<noteq> k then Some st else
     (case st of KIdle \<Rightarrow> Some KBusy | KBusy \<Rightarrow> None | KFresh u \<Rightarrow> if u + getCacheTTL \<le> t then Some KBusy else None))"
| "key_step k st (Stored k' t c) = (if k' \<noteq> k then Some st else if st = KBusy then Some (KFresh t) else None)"
| "key_step k st (Failed k' t e) = (if k' \<noteq> k then Some st else if st = KBusy then Some KIdle else None)"
| "key_step k st (Evicted k') = (if k' \<noteq> k then Some st else if st = KBusy then Some KBusy else Some KIdle)"

fun key_run :: "string \<Rightarrow> key_state \<Rightarrow> flight_event list \<Rightarrow> key_state option" where
  "key_run k st [] = Some st"
| "key_run k st (e # es) = (case key_step k st e of None \<Rightarrow> None | Some st' \<Rightarrow> key_run k st' es)"

lemma key_run_append [simp]:
  "key_run k st (xs @ ys) = (case key_run k st xs of None \<Rightarrow> None | Some st' \<Rightarrow> key_run k st' ys)"
  by (induction xs arbitrary: st) (auto split: option.split)

text \<open>The state of a key agrees with the callers that fetch and with the cache.\<close>

definition key_agrees :: "'c get_lru \<Rightarrow> ('c, 'g) flights \<Rightarrow> string \<Rightarrow> key_state \<Rightarrow> bool" where
  "key_agrees C s k st \<longleftrightarrow> (st = KBusy \<longleftrightarrow> (\<exists>i. fl_place s i = Fetching \<and> fl_key s i = k)) \<and>
     (\<forall>t. st = KFresh t \<longrightarrow> (\<exists>v. gl_held C (fl_cache s) k = Some (v, t)) \<or> t + getCacheTTL \<le> fl_now s)"

definition upstream_ok :: "'c get_lru \<Rightarrow> ('c, 'g) flights \<Rightarrow> bool" where
  "upstream_ok C s \<longleftrightarrow> (\<forall>k. \<exists>st. key_run k KIdle (fl_log s) = Some st \<and> key_agrees C s k st)"

lemma upstream_okI:
  assumes "\<And>k st. key_run k KIdle (fl_log s) = Some st \<Longrightarrow> key_agrees C s k st \<Longrightarrow>
      \<exists>st'. key_run k KIdle (fl_log s') = Some st' \<and> key_agrees C s' k st'"
    and "upstream_ok C s"
  shows "upstream_ok C s'"
  using assms unfolding upstream_ok_def by meson

text \<open>A step that sends and stores nothing, leaves the fetching callers alone and drops only what is too old.\<close>

lemma upstream_quiet:
  assumes "upstream_ok C s" and "fl_log s' = fl_log s" and "fl_now s \<le> fl_now s'"
    and "\<And>k. gl_held C (fl_cache s') k \<noteq> gl_held C (fl_cache s) k \<Longrightarrow>
      \<exists>v t. gl_held C (fl_cache s) k = Some (v, t) \<and> t + getCacheTTL \<le> fl_now s"
    and "\<And>i. fl_place s' i = Fetching \<longleftrightarrow> fl_place s i = Fetching"
    and "\<And>i. fl_place s i = Fetching \<Longrightarrow> fl_key s' i = fl_key s i"
  shows "upstream_ok C s'"
proof (rule upstream_okI [OF _ assms(1)])
  fix k st assume r: "key_run k KIdle (fl_log s) = Some st" and a: "key_agrees C s k st"
  have "(\<exists>v. gl_held C (fl_cache s') k = Some (v, t)) \<or> t + getCacheTTL \<le> fl_now s'" if "st = KFresh t" for t
    using a that assms(3) assms(4) [of k] by (fastforce simp: key_agrees_def)
  moreover have "st = KBusy \<longleftrightarrow> (\<exists>i. fl_place s' i = Fetching \<and> fl_key s' i = k)"
    using a assms(5,6) by (auto simp: key_agrees_def)
  ultimately show "\<exists>st'. key_run k KIdle (fl_log s') = Some st' \<and> key_agrees C s' k st'"
    using r assms(2) by (simp add: key_agrees_def)
qed

lemma second_lookup_hit:
  "fst (gl_get C (fl_now s) (fl_key s i) (fl_cache s)) = Some v \<Longrightarrow>
   second_lookup C i s = go_to i (Returning (Inr v)) (s\<lparr>fl_cache := snd (gl_get C (fl_now s) (fl_key s i) (fl_cache s))\<rparr>)"
  by (auto simp: second_lookup_def split: prod.split option.split)

lemma second_lookup_miss:
  "fst (gl_get C (fl_now s) (fl_key s i) (fl_cache s)) = None \<Longrightarrow>
   second_lookup C i s = log_events [Sent (fl_key s i) (fl_now s)]
     (go_to i Fetching (s\<lparr>fl_cache := snd (gl_get C (fl_now s) (fl_key s i) (fl_cache s))\<rparr>))"
  by (auto simp: second_lookup_def split: prod.split option.split)

lemma upstream_second:
  assumes lru: "lru_contract C" and ok: "upstream_ok C s" and inv: "flights_inv G s" and i: "fl_place s i = Leading"
  shows "upstream_ok C (second_lookup C i s)"
proof (cases "fst (gl_get C (fl_now s) (fl_key s i) (fl_cache s))")
  case (Some v)
  show ?thesis
    by (rule upstream_quiet [OF ok]) (simp_all add: second_lookup_hit [OF Some] i lru_contractD(4) [OF lru])
next
  case None
  have idle: "fl_place s j \<noteq> Fetching \<or> fl_key s j \<noteq> fl_key s i" for j
    using one_flight_unique [of "sg_leader G (fl_group s)" "fl_place s" "fl_key s" i j] inv i by (auto simp: flights_inv_def)
  have old: "t + getCacheTTL \<le> fl_now s" if "gl_held C (fl_cache s) (fl_key s i) = Some (v, t)" for v t
    using lru_contractD(3) [OF lru that, of "fl_now s"] None by fastforce
  show ?thesis
  proof (rule upstream_okI [OF _ ok])
    fix k st assume r: "key_run k KIdle (fl_log s) = Some st" and a: "key_agrees C s k st"
    show "\<exists>st'. key_run k KIdle (fl_log (second_lookup C i s)) = Some st' \<and> key_agrees C (second_lookup C i s) k st'"
    proof (cases "k = fl_key s i")
      case True
      then have "st \<noteq> KBusy" using a idle by (auto simp: key_agrees_def)
      then have "key_run k KIdle (fl_log (second_lookup C i s)) = Some KBusy"
        using r a True old by (auto simp: second_lookup_miss [OF None] key_agrees_def split: key_state.split)
      then show ?thesis using True by (auto simp: second_lookup_miss [OF None] key_agrees_def)
    next
      case False
      then show ?thesis using r a i lru_contractD(4) [OF lru]
        by (auto simp: second_lookup_miss [OF None] key_agrees_def) metis
    qed
  qed
qed

text \<open>What a key's state becomes when the cache evicts keys.\<close>

lemma key_run_evicted:
  "key_run k st (map Evicted ks) = Some (if k \<in> set ks \<and> st \<noteq> KBusy then KIdle else st)"
  by (induction ks arbitrary: st) auto

lemma got_response_ok:
  "got_response C i (Inr v) s = log_events (Stored (fl_key s i) (fl_now s) v #
       map Evicted (fst (gl_add C (fl_now s) (fl_key s i) v (fl_cache s))))
     (go_to i (Returning (Inr v)) (s\<lparr>fl_cache := snd (gl_add C (fl_now s) (fl_key s i) v (fl_cache s))\<rparr>))"
  by (simp add: got_response_def split: prod.split)

lemma upstream_response:
  assumes lru: "lru_contract C" and ok: "upstream_ok C s" and inv: "flights_inv G s" and i: "fl_place s i = Fetching"
  shows "upstream_ok C (got_response C i r s)"
proof (rule upstream_okI [OF _ ok])
  have alone: "fl_place s j \<noteq> Fetching \<or> fl_key s j \<noteq> fl_key s i \<or> j = i" for j
    using one_flight_unique [of "sg_leader G (fl_group s)" "fl_place s" "fl_key s" i j] inv i by (auto simp: flights_inv_def)
  fix k st assume run: "key_run k KIdle (fl_log s) = Some st" and a: "key_agrees C s k st"
  have busy: "st = KBusy" if "k = fl_key s i" using a i that by (auto simp: key_agrees_def)
  show "\<exists>st'. key_run k KIdle (fl_log (got_response C i r s)) = Some st' \<and> key_agrees C (got_response C i r s) k st'"
  proof (cases r)
    case (Inl e)
    show ?thesis using run a i busy alone
      by (cases "k = fl_key s i") (auto simp: got_response_def Inl key_agrees_def, metis+)
  next
    case (Inr v)
    define ks where "ks = fst (gl_add C (fl_now s) (fl_key s i) v (fl_cache s))"
    have own: "fl_key s i \<notin> set ks" using lru_contractD(5) [OF lru] by (simp add: ks_def)
    have held: "gl_held C (snd (gl_add C (fl_now s) (fl_key s i) v (fl_cache s))) =
        (\<lambda>x. if x \<in> set ks then None else gl_held C (fl_cache s) x)(fl_key s i \<mapsto> (v, fl_now s))"
      unfolding ks_def by (rule lru_contractD(6) [OF lru])
    show ?thesis
    proof (cases "k = fl_key s i")
      case True
      then show ?thesis using run busy alone own
        by (auto simp: Inr got_response_ok ks_def [symmetric] held key_run_evicted key_agrees_def)
    next
      case False
      then show ?thesis using run a i
        by (auto simp: Inr got_response_ok ks_def [symmetric] held key_run_evicted key_agrees_def)
    qed
  qed
qed

lemma upstream_ok_step:
  assumes lru: "lru_contract C"
  shows "flight_step C G s s' \<Longrightarrow> flights_inv G s \<Longrightarrow> upstream_ok C s \<Longrightarrow> upstream_ok C s'"
proof (induction rule: flight_step.induct)
  case (fs_second s i)
  then show ?case by (simp add: upstream_second [OF lru])
next
  case (fs_response s i r)
  then show ?case by (simp add: upstream_response [OF lru])
next
  case (fs_expire s)
  show ?case by (rule upstream_quiet [OF fs_expire(2)]) (use lru_contractD(7) [OF lru] in auto)
next
  case (fs_enter s i accept raw)
  show ?case by (rule upstream_quiet [OF fs_enter(3)]) (auto simp: enter_get_def fs_enter(1))
next
  case (fs_first s i)
  show ?case by (rule upstream_quiet [OF fs_first(3)])
    (use lru_contractD(4) [OF lru, of "fl_now s" "fl_key s i" "fl_cache s"] in
      \<open>auto simp: first_lookup_def fs_first(1) split: option.splits prod.splits\<close>)
next
  case (fs_flight s i)
  show ?case by (rule upstream_quiet [OF fs_flight(3)])
    (auto simp: enter_flight_def fs_flight(1) split: option.splits prod.splits)
next
  case (fs_end s i r)
  show ?case by (rule upstream_quiet [OF fs_end(3)]) (auto simp: end_flight_def fs_end(1))
next
  case (fs_time s t)
  show ?case by (rule upstream_quiet [OF fs_time(3)]) (simp_all add: fs_time(1))
next
  case (fs_cancel s i)
  show ?case by (rule upstream_quiet [OF fs_cancel(2)]) simp_all
qed

lemma flight_reach_upstream:
  assumes "lru_contract C" and "singleflight_contract G"
  shows "flight_reach C G t0 s \<Longrightarrow> upstream_ok C s"
proof (induction rule: flight_reach.induct)
  case fr_new
  show ?case by (simp add: upstream_ok_def key_agrees_def no_flights_def)
next
  case (fr_step s s')
  then show ?case using upstream_ok_step [OF assms(1)] flight_reach_inv [OF assms(2)] by blast
qed

section \<open>What the callers get\<close>

text \<open>
  An answer of a key under which a caller \<open>i\<close> looked: a response stored for that key less than the time to
  live before \<open>i\<close> arrived, or later; or the error of a request for that key, the cancellation of \<open>i\<close>'s own
  context if it is one.
\<close>

definition got_from :: "('c, 'g) flights \<Rightarrow> nat \<Rightarrow> gw_error + cachedGet \<Rightarrow> bool" where
  "got_from s i r = (case r of
     Inr c \<Rightarrow> (\<exists>t. Stored (fl_key s i) t c \<in> set (fl_log s) \<and> fl_since s i \<le> t + getCacheTTL)
   | Inl e \<Rightarrow> (\<exists>t. Failed (fl_key s i) t e \<in> set (fl_log s)) \<and> (e = ErrCancelled \<longrightarrow> fl_cancelled s i))"

text \<open>The answer a place carries, with the caller it came from.\<close>

fun place_answer :: "nat \<Rightarrow> place \<Rightarrow> (nat \<times> (gw_error + cachedGet)) option" where
  "place_answer i (Returning r) = Some (i, r)"
| "place_answer i (Answered j r) = Some (j, r)"
| "place_answer i p = None"

definition answers_ok :: "'c get_lru \<Rightarrow> ('c, 'g) flights \<Rightarrow> bool" where
  "answers_ok C s \<longleftrightarrow> (\<forall>k c t. gl_held C (fl_cache s) k = Some (c, t) \<longrightarrow> Stored k t c \<in> set (fl_log s)) \<and>
     (\<forall>i. fl_place s i \<noteq> Absent \<longrightarrow> fl_since s i \<le> fl_now s) \<and>
     (\<forall>i j r. place_answer i (fl_place s i) = Some (j, r) \<longrightarrow>
        fl_place s j \<noteq> Absent \<and> fl_key s j = fl_key s i \<and> got_from s j r)"

lemma answers_okD:
  assumes "answers_ok C s"
  shows "gl_held C (fl_cache s) k = Some (c, t) \<Longrightarrow> Stored k t c \<in> set (fl_log s)"
    and "fl_place s i \<noteq> Absent \<Longrightarrow> fl_since s i \<le> fl_now s"
    and "place_answer i (fl_place s i) = Some (j, r) \<Longrightarrow>
      fl_place s j \<noteq> Absent \<and> fl_key s j = fl_key s i \<and> got_from s j r"
  using assms unfolding answers_ok_def by blast+

text \<open>An answer stays one while the events grow and contexts are cancelled.\<close>

lemma got_from_grows:
  assumes "got_from s i r" and "fl_key s' i = fl_key s i" and "fl_since s' i = fl_since s i"
    and "set (fl_log s) \<subseteq> set (fl_log s')" and "fl_cancelled s i \<Longrightarrow> fl_cancelled s' i"
  shows "got_from s' i r"
  using assms by (auto simp: got_from_def split: sum.splits)

lemma cache_hit_got:
  assumes "lru_contract C" and "answers_ok C s" and "fl_place s i \<noteq> Absent"
    and "fst (gl_get C (fl_now s) (fl_key s i) (fl_cache s)) = Some v"
  shows "got_from s i (Inr v)"
proof -
  obtain t where t: "gl_held C (fl_cache s) (fl_key s i) = Some (v, t)" "fl_now s \<le> t + getCacheTTL"
    using lru_contractD(2) [OF assms(1,4)] by blast
  then show ?thesis using answers_okD(1,2) [OF assms(2)] assms(3) by (fastforce simp: got_from_def)
qed

text \<open>
  One move keeps the answers: time and events only grow, nobody's key or arrival changes once he is there,
  and every answer that is new is an answer.
\<close>

lemma answers_move:
  assumes ok: "answers_ok C s"
    and cache: "\<And>k c t. gl_held C (fl_cache s') k = Some (c, t) \<Longrightarrow> gl_held C (fl_cache s) k = Some (c, t) \<or> Stored k t c \<in> set (fl_log s')"
    and now: "fl_now s \<le> fl_now s'" and grow: "set (fl_log s) \<subseteq> set (fl_log s')"
    and stays: "\<And>j. fl_place s j \<noteq> Absent \<Longrightarrow> fl_place s' j \<noteq> Absent \<and> fl_key s' j = fl_key s j \<and>
      fl_since s' j = fl_since s j \<and> (fl_cancelled s j \<longrightarrow> fl_cancelled s' j)"
    and comes: "\<And>j. fl_place s j = Absent \<Longrightarrow> fl_place s' j \<noteq> Absent \<Longrightarrow> fl_since s' j \<le> fl_now s'"
    and new: "\<And>j m r. place_answer j (fl_place s' j) = Some (m, r) \<Longrightarrow>
      place_answer j (fl_place s j) = Some (m, r) \<or>
      fl_place s' m \<noteq> Absent \<and> fl_key s' m = fl_key s' j \<and> got_from s' m r"
  shows "answers_ok C s'"
  unfolding answers_ok_def
proof (intro conjI allI impI)
  show "Stored k t c \<in> set (fl_log s')" if "gl_held C (fl_cache s') k = Some (c, t)" for k c t
    using cache [OF that] answers_okD(1) [OF ok] grow by blast
  show "fl_since s' i \<le> fl_now s'" if "fl_place s' i \<noteq> Absent" for i
    using stays [of i] comes [of i] answers_okD(2) [OF ok, of i] now that by fastforce
  fix i j r assume a: "place_answer i (fl_place s' i) = Some (j, r)"
  have "fl_place s' j \<noteq> Absent \<and> fl_key s' j = fl_key s' i \<and> got_from s' j r"
    if old: "place_answer i (fl_place s i) = Some (j, r)"
  proof -
    have i: "fl_place s i \<noteq> Absent" using old by auto
    have j: "fl_place s j \<noteq> Absent" "fl_key s j = fl_key s i" "got_from s j r" using answers_okD(3) [OF ok old] by auto
    then show ?thesis using stays [of i] stays [of j] i got_from_grows [OF j(3), of s'] grow by auto
  qed
  then show "fl_place s' j \<noteq> Absent" "fl_key s' j = fl_key s' i" "got_from s' j r" using new [OF a] by blast+
qed

lemma answers_first:
  assumes lru: "lru_contract C" and ok: "answers_ok C s" and i: "fl_place s i = Entering"
  shows "answers_ok C (first_lookup C i s)"
proof -
  let ?c = "snd (gl_get C (fl_now s) (fl_key s i) (fl_cache s))"
  note held = lru_contractD(4) [OF lru, of "fl_now s" "fl_key s i" "fl_cache s"]
  show ?thesis
  proof (cases "fst (gl_get C (fl_now s) (fl_key s i) (fl_cache s))")
    case None
    then have f: "first_lookup C i s = go_to i Missed (s\<lparr>fl_cache := ?c\<rparr>)"
      by (auto simp: first_lookup_def split: prod.split)
    show ?thesis by (rule answers_move [OF ok]) (auto simp: f held i split: if_splits)
  next
    case (Some v)
    then have f: "first_lookup C i s = go_to i (Answered i (Inr v)) (s\<lparr>fl_cache := ?c\<rparr>)"
      by (auto simp: first_lookup_def split: prod.split)
    have "got_from s i (Inr v)" using cache_hit_got [OF lru ok _ Some] i by simp
    then have "got_from (first_lookup C i s) i (Inr v)" by (rule got_from_grows) (simp_all add: f)
    then show ?thesis by (intro answers_move [OF ok]) (auto simp: f held i split: if_splits)
  qed
qed

lemma answers_second:
  assumes lru: "lru_contract C" and ok: "answers_ok C s" and i: "fl_place s i = Leading"
  shows "answers_ok C (second_lookup C i s)"
proof (cases "fst (gl_get C (fl_now s) (fl_key s i) (fl_cache s))")
  case None
  show ?thesis by (rule answers_move [OF ok])
    (auto simp: second_lookup_miss [OF None] lru_contractD(4) [OF lru] i split: if_splits)
next
  case (Some v)
  have "got_from s i (Inr v)" using cache_hit_got [OF lru ok _ Some] i by simp
  then have "got_from (second_lookup C i s) i (Inr v)"
    by (rule got_from_grows) (simp_all add: second_lookup_hit [OF Some])
  then show ?thesis by (intro answers_move [OF ok])
    (auto simp: second_lookup_hit [OF Some] lru_contractD(4) [OF lru] i split: if_splits)
qed

lemma answers_response:
  assumes lru: "lru_contract C" and ok: "answers_ok C s" and i: "fl_place s i = Fetching"
    and c: "r = Inl ErrCancelled \<longrightarrow> fl_cancelled s i"
  shows "answers_ok C (got_response C i r s)"
proof (cases r)
  case (Inl e)
  then have "got_from (got_response C i r s) i r" using c by (auto simp: got_from_def got_response_def)
  then show ?thesis by (intro answers_move [OF ok]) (auto simp: got_response_def Inl i split: if_splits)
next
  case (Inr v)
  have "fl_since s i \<le> fl_now s" using answers_okD(2) [OF ok, of i] i by simp
  then have "got_from (got_response C i r s) i r"
    by (auto simp: got_from_def Inr got_response_ok getCacheTTL_def intro!: exI [of _ "fl_now s"])
  then show ?thesis by (intro answers_move [OF ok])
    (auto simp: Inr got_response_ok lru_contractD(6) [OF lru] i split: if_splits)
qed

lemma answers_end:
  assumes ok: "answers_ok C s" and inv: "flights_inv G s" and i: "fl_place s i = Returning r"
  shows "answers_ok C (end_flight G i r s)"
proof -
  have "got_from s i r" using answers_okD(3) [OF ok, of i i r] i by simp
  then have g: "got_from (end_flight G i r s) i r" by (rule got_from_grows) (simp_all add: end_flight_def)
  have "fl_key s j = fl_key s i" if "fl_place s j = Joined i" for j
    using one_flightD(3) [OF inv [unfolded flights_inv_def] that] by simp
  then have new: "place_answer j (fl_place s j) = Some (m, r') \<or> fl_place (end_flight G i r s) m \<noteq> Absent \<and>
      fl_key (end_flight G i r s) m = fl_key (end_flight G i r s) j \<and> got_from (end_flight G i r s) m r'"
    if "place_answer j (fl_place (end_flight G i r s) j) = Some (m, r')" for j m r'
    using that g by (cases "j = i \<or> fl_place s j = Joined i") (auto simp: end_flight_def)
  show ?thesis by (rule answers_move [OF ok _ _ _ _ _ new]) (auto simp: end_flight_def i split: if_splits)
qed

lemma answers_ok_step:
  assumes lru: "lru_contract C"
  shows "flight_step C G s s' \<Longrightarrow> flights_inv G s \<Longrightarrow> answers_ok C s \<Longrightarrow> answers_ok C s'"
proof (induction rule: flight_step.induct)
  case (fs_first s i)
  then show ?case by (simp add: answers_first [OF lru])
next
  case (fs_second s i)
  then show ?case by (simp add: answers_second [OF lru])
next
  case (fs_response s i r)
  then show ?case by (simp add: answers_response [OF lru])
next
  case (fs_end s i r)
  then show ?case by (simp add: answers_end)
next
  case (fs_enter s i accept raw)
  show ?case by (rule answers_move [OF fs_enter(3)]) (auto simp: enter_get_def fs_enter(1) split: if_splits)
next
  case (fs_flight s i)
  show ?case by (rule answers_move [OF fs_flight(3)])
    (auto simp: enter_flight_def fs_flight(1) split: option.splits prod.splits if_splits)
next
  case (fs_time s t)
  show ?case by (rule answers_move [OF fs_time(3)]) (auto simp: fs_time(1))
next
  case (fs_cancel s i)
  show ?case by (rule answers_move [OF fs_cancel(2)]) auto
next
  case (fs_expire s)
  have "gl_held C (fl_cache s) k = Some (v, t)" if "gl_held C (gl_expire C (fl_now s) (fl_cache s)) k = Some (v, t)" for k v t
    using lru_contractD(7) [OF lru, of "fl_now s" "fl_cache s" k] that by fastforce
  then show ?case by (intro answers_move [OF fs_expire(2)]) auto
qed

lemma flight_reach_answers:
  assumes "lru_contract C" and "singleflight_contract G"
  shows "flight_reach C G t0 s \<Longrightarrow> answers_ok C s"
proof (induction rule: flight_reach.induct)
  case fr_new
  show ?case by (simp add: answers_ok_def no_flights_def lru_contractD(1) [OF assms(1)])
next
  case (fr_step s s')
  then show ?case using answers_ok_step [OF assms(1)] flight_reach_inv [OF assms(2)] by blast
qed

section \<open>Running the callers\<close>

text \<open>A schedule of moves, each done where its step is enabled.\<close>

datatype flight_move =
    Passes gotime
  | Expires
  | Cancels nat
  | Enters nat string string
  | LooksUp nat
  | TakesFlight nat
  | LooksAgain nat
  | Gets nat "gw_error + cachedGet"
  | Lands nat

fun flight_do :: "'c get_lru \<Rightarrow> 'g flight_group \<Rightarrow> flight_move \<Rightarrow> ('c, 'g) flights \<Rightarrow> ('c, 'g) flights option" where
  "flight_do C G (Passes t) s = (if fl_now s \<le> t then Some (s\<lparr>fl_now := t\<rparr>) else None)"
| "flight_do C G Expires s = Some (s\<lparr>fl_cache := gl_expire C (fl_now s) (fl_cache s)\<rparr>)"
| "flight_do C G (Cancels i) s = Some (s\<lparr>fl_cancelled := (fl_cancelled s)(i := True)\<rparr>)"
| "flight_do C G (Enters i accept raw) s = (if fl_place s i = Absent then Some (enter_get i accept raw s) else None)"
| "flight_do C G (LooksUp i) s = (if fl_place s i = Entering then Some (first_lookup C i s) else None)"
| "flight_do C G (TakesFlight i) s = (if fl_place s i = Missed then Some (enter_flight G i s) else None)"
| "flight_do C G (LooksAgain i) s = (if fl_place s i = Leading then Some (second_lookup C i s) else None)"
| "flight_do C G (Gets i r) s = (if fl_place s i = Fetching \<and> (r = Inl ErrCancelled \<longrightarrow> fl_cancelled s i)
     then Some (got_response C i r s) else None)"
| "flight_do C G (Lands i) s = (case fl_place s i of Returning r \<Rightarrow> Some (end_flight G i r s) | _ \<Rightarrow> None)"

fun flight_run :: "'c get_lru \<Rightarrow> 'g flight_group \<Rightarrow> flight_move list \<Rightarrow> ('c, 'g) flights \<Rightarrow> ('c, 'g) flights option" where
  "flight_run C G [] s = Some s"
| "flight_run C G (m # ms) s = (case flight_do C G m s of None \<Rightarrow> None | Some s' \<Rightarrow> flight_run C G ms s')"

lemma flight_do_step: "flight_do C G m s = Some s' \<Longrightarrow> flight_step C G s s'"
  by (cases m) (auto split: if_splits place.splits intro: flight_step.intros)

lemma flight_step_iff: "flight_step C G s s' \<longleftrightarrow> (\<exists>m. flight_do C G m s = Some s')"
proof
  assume "flight_step C G s s'"
  then show "\<exists>m. flight_do C G m s = Some s'"
  proof (cases rule: flight_step.cases)
    case (fs_time t)
    then show ?thesis by (intro exI [of _ "Passes t"]) simp
  next
    case fs_expire
    then show ?thesis by (intro exI [of _ Expires]) simp
  next
    case (fs_cancel i)
    then show ?thesis by (intro exI [of _ "Cancels i"]) simp
  next
    case (fs_enter i accept raw)
    then show ?thesis by (intro exI [of _ "Enters i accept raw"]) simp
  next
    case (fs_first i)
    then show ?thesis by (intro exI [of _ "LooksUp i"]) simp
  next
    case (fs_flight i)
    then show ?thesis by (intro exI [of _ "TakesFlight i"]) simp
  next
    case (fs_second i)
    then show ?thesis by (intro exI [of _ "LooksAgain i"]) simp
  next
    case (fs_response i r)
    then show ?thesis by (intro exI [of _ "Gets i r"]) simp
  next
    case (fs_end i r)
    then show ?thesis by (intro exI [of _ "Lands i"]) simp
  qed
qed (blast intro: flight_do_step)

lemma flight_run_reach: "flight_reach C G t0 s \<Longrightarrow> flight_run C G ms s = Some s' \<Longrightarrow> flight_reach C G t0 s'"
proof (induction ms arbitrary: s)
  case (Cons m ms)
  from Cons.prems(2) obtain s1 where s1: "flight_do C G m s = Some s1" "flight_run C G ms s1 = Some s'"
    by (auto split: option.splits)
  then show ?case using Cons.IH [OF fr_step [OF Cons.prems(1) flight_do_step [OF s1(1)]] s1(2)] by simp
qed simp

text \<open>One caller alone, from arrival to the answer \<open>r\<close> of his request.\<close>

definition lone_get :: "nat \<Rightarrow> string \<Rightarrow> string \<Rightarrow> gw_error + cachedGet \<Rightarrow> flight_move list" where
  "lone_get i accept raw r = [Enters i accept raw, LooksUp i, TakesFlight i, LooksAgain i, Gets i r, Lands i]"

section \<open>The properties\<close>

lemma key_run_busy:
  assumes "key_run k KBusy ys = Some st" and "st \<noteq> KBusy"
  shows "(\<exists>u e. Failed k u e \<in> set ys) \<or> (\<exists>u c. Stored k u c \<in> set ys \<and> (st = KFresh u \<or> Evicted k \<in> set ys))"
  using assms
proof (induction ys arbitrary: st rule: rev_induct)
  case (snoc e ys)
  then obtain st0 where r: "key_run k KBusy ys = Some st0" and e: "key_step k st0 e = Some st"
    by (auto split: option.splits)
  show ?case
  proof (cases "st0 = KBusy")
    case True
    then have "(\<exists>u x. e = Failed k u x) \<or> (\<exists>u c. e = Stored k u c \<and> st = KFresh u)"
      using e snoc.prems(2) by (cases e) (simp_all split: if_splits)
    then show ?thesis by (auto simp del: split_paired_Ex)
  next
    case False
    from snoc.IH [OF r False] show ?thesis using e False snoc.prems(2)
      by (cases e) (auto split: if_splits key_state.splits)
  qed
qed simp

lemma key_run_sent:
  assumes "key_run k st (xs @ Sent k t # ys @ Sent k t' # zs) \<noteq> None"
  shows "\<exists>st'. key_run k KBusy ys = Some st' \<and> st' \<noteq> KBusy \<and> (\<forall>u. st' = KFresh u \<longrightarrow> u + getCacheTTL \<le> t')"
  using assms by (auto split: option.splits key_state.splits if_splits)

text \<open>
  C13: identical requests collapse.  Whatever the callers, the clock, the cache and the cancellations do, at
  most one request per URL and media type is under way; and between two requests for the same one either a
  request for it failed, or a response was stored that the cache dropped or that was older than its time to
  live when the second was sent.
\<close>

theorem identical_gets_collapse:
  assumes "lru_contract C" and "singleflight_contract G" and "flight_reach C G t0 s"
  shows "(fl_place s i = Fetching \<and> fl_place s j = Fetching \<and> fl_key s i = fl_key s j \<longrightarrow> i = j) \<and>
    (fl_log s = xs @ Sent k t # ys @ Sent k t' # zs \<longrightarrow>
      (\<exists>u e. Failed k u e \<in> set ys) \<or>
      (\<exists>u c. Stored k u c \<in> set ys \<and> (u + getCacheTTL \<le> t' \<or> Evicted k \<in> set ys)))"
proof (intro conjI impI)
  assume f: "fl_place s i = Fetching \<and> fl_place s j = Fetching \<and> fl_key s i = fl_key s j"
  show "i = j"
    by (rule one_flight_unique [OF flight_reach_inv [OF assms(2,3), unfolded flights_inv_def]]) (simp_all add: f)
next
  assume l: "fl_log s = xs @ Sent k t # ys @ Sent k t' # zs"
  then have "key_run k KIdle (xs @ Sent k t # ys @ Sent k t' # zs) \<noteq> None"
    using flight_reach_upstream [OF assms(1,2,3)] unfolding upstream_ok_def by (metis option.distinct(1))
  then obtain st where st: "key_run k KBusy ys = Some st" "st \<noteq> KBusy" "\<And>u. st = KFresh u \<Longrightarrow> u + getCacheTTL \<le> t'"
    using key_run_sent by blast
  show "(\<exists>u e. Failed k u e \<in> set ys) \<or>
      (\<exists>u c. Stored k u c \<in> set ys \<and> (u + getCacheTTL \<le> t' \<or> Evicted k \<in> set ys))"
    using key_run_busy [OF st(1,2)] st(3) by blast
qed

text \<open>
  C14: whoever waited shares the leader's result.  Every answer, to whichever caller, is that of a caller who
  asked for the same URL and media type: a response stored for it, at most the time to live before
  that caller arrived, or later, or the error of a request for it; and a caller is told that the request was
  cancelled only when the context of the caller leading it is done, though his own may not be.
\<close>

theorem answers_are_the_leaders:
  assumes "lru_contract C" and "singleflight_contract G" and "flight_reach C G t0 s" and "fl_place s i = Answered j r"
  shows "fl_key s j = fl_key s i \<and> (case r of
     Inr c \<Rightarrow> \<exists>t. Stored (fl_key s i) t c \<in> set (fl_log s) \<and> fl_since s j \<le> t + getCacheTTL
   | Inl e \<Rightarrow> (\<exists>t. Failed (fl_key s i) t e \<in> set (fl_log s)) \<and> (e = ErrCancelled \<longrightarrow> fl_cancelled s j))"
proof -
  have "fl_key s j = fl_key s i" "got_from s j r"
    using answers_okD(3) [OF flight_reach_answers [OF assms(1,2,3)], of i j r] assms(4) by auto
  then show ?thesis by (auto simp: got_from_def split: sum.splits)
qed

text \<open>Two callers of one URL, a second apart: two requests, the second because the first response is too old.\<close>

definition two_in_turn :: "flight_move list" where
  "two_in_turn = lone_get 0 ''a'' ''u'' (Inr (200, ''x'')) @ [Passes 1000000000] @ lone_get 1 ''a'' ''u'' (Inr (200, ''y''))"

text \<open>Two callers at once: the second waits for the first, whose context is cancelled.\<close>

definition one_cancelled :: "flight_move list" where
  "one_cancelled = [Enters 0 ''a'' ''u'', LooksUp 0, TakesFlight 0, LooksAgain 0, Enters 1 ''a'' ''u'', LooksUp 1,
     TakesFlight 1, Cancels 0, Gets 0 (Inl ErrCancelled), Lands 0]"

text \<open>The packages as maps, for the runs.\<close>

definition map_lru :: "(string \<rightharpoonup> cachedGet \<times> gotime) get_lru" where
  "map_lru = \<lparr>gl_new = (\<lambda>_ _. Map.empty),
     gl_get = (\<lambda>now k c. (case c k of Some (v, t) \<Rightarrow> if now < t + getCacheTTL then Some v else None | None \<Rightarrow> None, c)),
     gl_add = (\<lambda>now k v c. ([], c(k \<mapsto> (v, now)))), gl_expire = (\<lambda>_ c. c), gl_held = (\<lambda>c. c)\<rparr>"

definition map_group :: "(string \<rightharpoonup> nat) flight_group" where
  "map_group = \<lparr>sg_new = Map.empty, sg_do = (\<lambda>k i g. (g k, if g k = None then g(k \<mapsto> i) else g)),
     sg_end = (\<lambda>k g. g(k := None)), sg_leader = (\<lambda>g. g)\<rparr>"

lemma map_lru_contract: "lru_contract map_lru"
  by (auto simp: lru_contract_def map_lru_def split: option.splits if_splits)

lemma map_group_contract: "singleflight_contract map_group"
  by (simp add: singleflight_contract_def map_group_def)

abbreviation map_run :: "flight_move list \<Rightarrow> (string \<rightharpoonup> cachedGet \<times> gotime, string \<rightharpoonup> nat) flights option" where
  "map_run ms \<equiv> flight_run map_lru map_group ms (no_flights map_lru map_group 0)"

lemmas flight_run_simps = lone_get_def two_in_turn_def one_cancelled_def enter_get_def first_lookup_def
  enter_flight_def second_lookup_def got_response_def end_flight_def no_flights_def map_lru_def map_group_def
  getCacheTTL_def

lemma two_in_turn_run:
  "\<exists>s. map_run two_in_turn = Some s \<and> fl_log s = [Sent ''a u'' 0, Stored ''a u'' 0 (200, ''x''),
     Sent ''a u'' 1000000000, Stored ''a u'' 1000000000 (200, ''y'')]"
  by (simp add: flight_run_simps)

lemma one_cancelled_run:
  "\<exists>s. map_run one_cancelled = Some s \<and> fl_place s 1 = Answered 0 (Inl ErrCancelled) \<and>
     fl_cancelled s 0 \<and> \<not> fl_cancelled s 1"
  by (simp add: flight_run_simps)

lemma map_run_reaches: "map_run ms = Some s \<Longrightarrow> flight_reach map_lru map_group 0 s"
  by (rule flight_run_reach [OF fr_new])

theorem identical_gets_collapse_witness:
  "\<exists>s ys. flight_reach map_lru map_group 0 s \<and>
     fl_log s = [] @ Sent ''a u'' 0 # ys @ Sent ''a u'' 1000000000 # [Stored ''a u'' 1000000000 (200, ''y'')] \<and>
     ((\<exists>u e. Failed ''a u'' u e \<in> set ys) \<or>
      (\<exists>u c. Stored ''a u'' u c \<in> set ys \<and> (u + getCacheTTL \<le> 1000000000 \<or> Evicted ''a u'' \<in> set ys)))"
proof -
  obtain s where s: "map_run two_in_turn = Some s"
    and l: "fl_log s = [Sent ''a u'' 0, Stored ''a u'' 0 (200, ''x''), Sent ''a u'' 1000000000, Stored ''a u'' 1000000000 (200, ''y'')]"
    using two_in_turn_run by blast
  have l': "fl_log s = [] @ Sent ''a u'' 0 # [Stored ''a u'' 0 (200, ''x'')] @ Sent ''a u'' 1000000000 #
      [Stored ''a u'' 1000000000 (200, ''y'')]"
    using l by simp
  from identical_gets_collapse [OF map_lru_contract map_group_contract map_run_reaches [OF s],
      THEN conjunct2, THEN mp, OF l']
  show ?thesis
    by (intro exI [of _ s] exI [of _ "[Stored ''a u'' 0 (200, ''x'')]"] conjI map_run_reaches [OF s] l')
qed

theorem answers_are_the_leaders_witness:
  "\<exists>s. flight_reach map_lru map_group 0 s \<and> fl_place s 1 = Answered 0 (Inl ErrCancelled) \<and> \<not> fl_cancelled s 1 \<and>
     fl_cancelled s 0 \<and> fl_key s 0 = fl_key s 1 \<and> (\<exists>t. Failed (fl_key s 1) t ErrCancelled \<in> set (fl_log s))"
proof -
  obtain s where s: "map_run one_cancelled = Some s"
    and a: "fl_place s 1 = Answered 0 (Inl ErrCancelled)" and n: "\<not> fl_cancelled s 1"
    using one_cancelled_run by blast
  from answers_are_the_leaders [OF map_lru_contract map_group_contract map_run_reaches [OF s] a]
  show ?thesis using map_run_reaches [OF s] a n by auto
qed

end
