(* ===== verification/Bridge.thy ===== *)
theory Bridge
  imports Transport
begin

text \<open>
  \<open>mastodonBridge\<close> (\<open>mastodon-bridge.go\<close>): the conversion between Warpnet requests and the Fediverse.
  As in the code, the bridge depends on the gateway only through the interface \<open>apTransport\<close>, a
  record of operations; its implementation by the gateway is in theory \<open>Ap_Gateway\<close>.
\<close>

section \<open>The transport interface\<close>

record 'w apTransport =
  ap_getJSON :: "string \<Rightarrow> string \<Rightarrow> ('w, gw_error + gomap) gw"
  ap_resolveActorID :: "string \<Rightarrow> ('w, gw_error + string) gw"
  ap_getArray :: "string \<Rightarrow> string \<Rightarrow> ('w, gw_error + json list) gw"
  ap_fetchActor :: "string \<Rightarrow> ('w, gw_error + gomap) gw"
  ap_remoteInbox :: "string \<Rightarrow> ('w, gw_error + string) gw"
  ap_actorID :: "string \<Rightarrow> string"
  ap_postSigned :: "string \<Rightarrow> string \<Rightarrow> activity \<Rightarrow> ('w, gw_error option) gw"
  ap_deliverFollow :: "string \<Rightarrow> string \<Rightarrow> bool \<Rightarrow> ('w, unit) gw"
  ap_fetchMedia :: "string \<Rightarrow> ('w, gw_error + string \<times> string) gw"
  ap_isSelfHost :: "string \<Rightarrow> bool"

record 'w bridge =
  br_ap :: "'w apTransport"
  br_nodeID :: string
  br_lib :: warp_lib
  br_now :: "'w \<Rightarrow> gotime \<times> 'w"
  br_token :: "'w \<Rightarrow> string \<times> 'w"

record tweetsResponse =
  tr_UserId :: string
  tr_Tweets :: "tweet list"
  tr_Cursor :: string

definition tweets_for :: "string \<Rightarrow> tweetsResponse" where
  "tweets_for handle = \<lparr>tr_UserId = handle, tr_Tweets = [], tr_Cursor = []\<rparr>"

section \<open>Profiles\<close>

definition resolveHandle :: "'w bridge \<Rightarrow> string \<Rightarrow> ('w, gw_error + string) gw" where
  "resolveHandle B handle = ap_resolveActorID (br_ap B) handle"

definition collectionCount :: "'w bridge \<Rightarrow> string \<Rightarrow> ('w, u64) gw" where
  "collectionCount B collURL =
     (if collURL = [] then ret 0
      else do {
        r \<leftarrow> ap_getJSON (br_ap B) collURL contentTypeAP;
        (case r of
           Inl e \<Rightarrow> ret 0
         | Inr m \<Rightarrow> ret (case m of None \<Rightarrow> 0 | Some kvs \<Rightarrow> apCollectionCount (lib_oor (br_lib B)) (JObj kvs)))
      })"

definition getUser :: "'w bridge \<Rightarrow> string \<Rightarrow> bool \<Rightarrow> ('w, gw_error + user) gw" where
  "getUser B handle withCounts = do {
     a \<leftarrow> resolveHandle B handle;
     (case a of
        Inl e \<Rightarrow> ret (Inl e)
      | Inr actorURL \<Rightarrow> do {
          r \<leftarrow> ap_fetchActor (br_ap B) actorURL;
          (case r of
             Inl e \<Rightarrow> ret (Inl e)
           | Inr m \<Rightarrow> do {
               now \<leftarrow> world (br_now B);
               let u = actorToUser (br_lib B) now handle actorURL m (br_nodeID B) in
               if \<not> withCounts then ret (Inr u)
               else do {
                 followers \<leftarrow> collectionCount B (asString (jget m ''followers''));
                 following \<leftarrow> collectionCount B (asString (jget m ''following''));
                 outbox \<leftarrow> collectionCount B (asString (jget m ''outbox''));
                 ret (Inr (u\<lparr>usr_FollowersCount := followers, usr_FollowingsCount := following,
                   usr_TweetsCount := outbox\<rparr>))
               }
             })
        })
   }"

section \<open>Tweets\<close>

text \<open>\<open>fillQuotedAuthor\<close>: the quoted author of a quote whose URL does not embed it.\<close>

definition note_of :: "gomap \<Rightarrow> gomap" where
  "note_of m = (case asMap (jget m ''object'') of Some inner \<Rightarrow> Some inner | None \<Rightarrow> m)"

definition fillQuotedAuthor :: "'w bridge \<Rightarrow> tweet \<Rightarrow> ('w, tweet) gw" where
  "fillQuotedAuthor B t = (case t_QuotedTweetId t of
     None \<Rightarrow> ret t
   | Some q \<Rightarrow>
       if t_QuotedUserId t \<noteq> None then ret t
       else do {
         r \<leftarrow> ap_getJSON (br_ap B) q contentTypeAP;
         (case r of
            Inl e \<Rightarrow> ret t
          | Inr m \<Rightarrow>
              (let author = asString (jget (note_of m) ''attributedTo'') in
               ret (if author \<noteq> [] then t\<lparr>t_QuotedUserId := Some (handleFromActorURL author)\<rparr> else t)))
       })"

definition note_tweet :: "'w bridge \<Rightarrow> string \<Rightarrow> gomap \<Rightarrow> ('w, tweet option) gw" where
  "note_tweet B handle m = do { now \<leftarrow> world (br_now B); ret (noteToTweet (br_lib B) now handle m) }"

definition author_handle :: "gomap \<Rightarrow> string" where
  "author_handle m = handleFromActorURL (asString (jget m ''attributedTo''))"

definition activityToTweet :: "'w bridge \<Rightarrow> string \<Rightarrow> gomap \<Rightarrow> ('w, tweet option) gw" where
  "activityToTweet B handle obj =
     (if asString (jget obj ''type'') = typeAnnounce then
        (let boosted = asString (jget obj ''object'') in
         if boosted = [] then ret None
         else do {
           r \<leftarrow> ap_getJSON (br_ap B) boosted contentTypeAP;
           (case r of
              Inl e \<Rightarrow> ret None
            | Inr bm \<Rightarrow> do {
                t \<leftarrow> note_tweet B (author_handle bm) bm;
                (case t of
                   None \<Rightarrow> ret None
                 | Some t0 \<Rightarrow> do {
                     t1 \<leftarrow> fillQuotedAuthor B (t0\<lparr>t_RetweetedBy := Some handle\<rparr>);
                     ret (Some t1)
                   })
              })
         })
      else do {
        t \<leftarrow> note_tweet B handle (note_of obj);
        (case t of
           None \<Rightarrow> ret None
         | Some t0 \<Rightarrow> do { t1 \<leftarrow> fillQuotedAuthor B t0; ret (Some t1) })
      })"

definition somes :: "'a option list \<Rightarrow> 'a list" where
  "somes xs = [x. Some x \<leftarrow> xs]"

definition resolveTimelineItems :: "'w bridge \<Rightarrow> string \<Rightarrow> json list \<Rightarrow> ('w, tweet list) gw" where
  "resolveTimelineItems B handle items = do {
     ts \<leftarrow> map_gw (\<lambda>it. case asMap it of
         None \<Rightarrow> ret None
       | Some obj \<Rightarrow> activityToTweet B handle (Some obj)) items;
     ret (somes ts)
   }"

text \<open>One REST page: its top-level statuses and the id of its last one.\<close>

fun rest_page :: "warp_lib \<Rightarrow> gotime \<Rightarrow> string \<Rightarrow> json list \<Rightarrow> string \<Rightarrow> tweet list \<times> string" where
  "rest_page L now host [] lastID = ([], lastID)"
| "rest_page L now host (it # its) lastID =
     (case asMap it of
        None \<Rightarrow> rest_page L now host its lastID
      | Some s \<Rightarrow>
          (let sid = asString (jget (Some s) ''id'');
               (ts, l) = rest_page L now host its (if sid \<noteq> [] then sid else lastID) in
           if asString (jget (Some s) ''in_reply_to_id'') \<noteq> [] then (ts, l)
           else (case restStatusToTweet L now host (Some s) of Some t \<Rightarrow> (t # ts, l) | None \<Rightarrow> (ts, l))))"

text \<open>The cursor after a page: the same URL with \<open>max_id\<close> set.\<close>

definition next_page_url :: "string \<Rightarrow> string \<Rightarrow> string" where
  "next_page_url pageURL lastID = (case url_parse pageURL of
     None \<Rightarrow> []
   | Some u \<Rightarrow> (case url_with_query pageURL
         (values_encode (values_set ''max_id'' lastID (parse_query (u_rawquery u)))) of
       None \<Rightarrow> [] | Some s \<Rightarrow> s))"

definition restTweetsPage :: "'w bridge \<Rightarrow> string \<Rightarrow> string \<Rightarrow> ('w, tweetsResponse \<times> bool) gw" where
  "restTweetsPage B handle pageURL = do {
     r \<leftarrow> ap_getArray (br_ap B) pageURL ''application/json'';
     (case r of
        Inl e \<Rightarrow> ret (tweets_for handle, False)
      | Inr arr \<Rightarrow> do {
          now \<leftarrow> world (br_now B);
          let host = (case url_parse pageURL of Some u \<Rightarrow> u_host u | None \<Rightarrow> []);
              (ts, lastID) = rest_page (br_lib B) now host arr [] in
          ret (\<lparr>tr_UserId = handle, tr_Tweets = ts,
                tr_Cursor = (if lastID \<noteq> [] \<and> arr \<noteq> [] then next_page_url pageURL lastID else [])\<rparr>, True)
        })
   }"

text \<open>A \<open>name@instance\<close> handle, with or without a leading \<open>@\<close>.\<close>

definition split_handle :: "string \<Rightarrow> (string \<times> string) option" where
  "split_handle handle =
     (let (name, inst, ok) = cut (trim_prefix handle ''@'') ''@'' in
      if \<not> ok \<or> name = [] \<or> inst = [] then None else Some (name, inst))"

definition lookup_url :: "string \<Rightarrow> string \<Rightarrow> string" where
  "lookup_url name inst = ''https://'' @ inst @ ''/api/v1/accounts/lookup?acct='' @ query_escape (name @ ''@'' @ inst)"

definition statuses_url :: "string \<Rightarrow> string \<Rightarrow> string" where
  "statuses_url inst accID = ''https://'' @ inst @ ''/api/v1/accounts/'' @ accID @ ''/statuses?limit=40&exclude_replies=true''"

definition restTweets :: "'w bridge \<Rightarrow> string \<Rightarrow> ('w, tweetsResponse \<times> bool) gw" where
  "restTweets B handle = (case split_handle handle of
     None \<Rightarrow> ret (tweets_for [], False)
   | Some (name, inst) \<Rightarrow> do {
       r \<leftarrow> ap_getJSON (br_ap B) (lookup_url name inst) ''application/json'';
       (case r of
          Inl e \<Rightarrow> ret (tweets_for [], False)
        | Inr look \<Rightarrow>
            (let accID = asString (jget look ''id'') in
             if accID = [] then ret (tweets_for [], False)
             else restTweetsPage B handle (statuses_url inst accID)))
     })"

text \<open>\<open>apTweets\<close>: the page to read (\<open>Inr None\<close> when the actor has none), then the page itself.\<close>

definition outbox_page :: "'w bridge \<Rightarrow> string \<Rightarrow> string option \<Rightarrow> ('w, gw_error + string option) gw" where
  "outbox_page B handle cursor =
     (if pageCursor cursor \<noteq> [] then ret (Inr (Some (pageCursor cursor)))
      else do {
        a \<leftarrow> resolveHandle B handle;
        (case a of
           Inl e \<Rightarrow> ret (Inl e)
         | Inr actorURL \<Rightarrow> do {
             r \<leftarrow> ap_fetchActor (br_ap B) actorURL;
             (case r of
                Inl e \<Rightarrow> ret (Inl e)
              | Inr m \<Rightarrow>
                  (let outbox = asString (jget m ''outbox'') in
                   if outbox = [] then ret (Inr None)
                   else do {
                     ob \<leftarrow> ap_getJSON (br_ap B) outbox contentTypeAP;
                     ret (case ob of
                        Inl e \<Rightarrow> Inl e
                      | Inr om \<Rightarrow> Inr (let f = asString (jget om ''first'') in if f = [] then None else Some f))
                   }))
           })
      })"

definition apTweets :: "'w bridge \<Rightarrow> string \<Rightarrow> string option \<Rightarrow> ('w, gw_error + tweetsResponse) gw" where
  "apTweets B handle cursor = do {
     pg \<leftarrow> outbox_page B handle cursor;
     (case pg of
        Inl e \<Rightarrow> ret (Inl e)
      | Inr None \<Rightarrow> ret (Inr (tweets_for handle))
      | Inr (Some pageURL) \<Rightarrow> do {
          r \<leftarrow> ap_getJSON (br_ap B) pageURL contentTypeAP;
          (case r of
             Inl e \<Rightarrow> ret (Inl e)
           | Inr page \<Rightarrow> do {
               ts \<leftarrow> resolveTimelineItems B handle (asSlice (jget page ''orderedItems''));
               ret (Inr \<lparr>tr_UserId = handle, tr_Tweets = topLevelOnly ts,
                 tr_Cursor = asString (jget page ''next'')\<rparr>)
             })
        })
   }"

definition getTweets :: "'w bridge \<Rightarrow> string \<Rightarrow> string option \<Rightarrow> ('w, gw_error + tweetsResponse) gw" where
  "getTweets B handle cursor =
     (let pc = pageCursor cursor in
      if pc \<noteq> [] then
        (if isRESTStatusesURL pc then do { (resp, _) \<leftarrow> restTweetsPage B handle pc; ret (Inr resp) }
         else apTweets B handle cursor)
      else do {
        (resp, ok) \<leftarrow> restTweets B handle;
        if ok then ret (Inr resp) else apTweets B handle cursor
      })"

section \<open>Single statuses, their counts, their replies\<close>

definition status_api :: "string \<Rightarrow> string \<Rightarrow> string" where
  "status_api host i = ''https://'' @ host @ ''/api/v1/statuses/'' @ i"

text \<open>\<open>apTweet\<close> returns the zero tweet, without an error, for a document that is no note.\<close>

definition apTweet :: "'w bridge \<Rightarrow> string \<Rightarrow> ('w, gw_error + tweet) gw" where
  "apTweet B noteURL = do {
     r \<leftarrow> ap_getJSON (br_ap B) noteURL contentTypeAP;
     (case r of
        Inl e \<Rightarrow> ret (Inl e)
      | Inr m0 \<Rightarrow> do {
          t \<leftarrow> note_tweet B (author_handle (note_of m0)) (note_of m0);
          (case t of
             None \<Rightarrow> ret (Inr zero_tweet)
           | Some t0 \<Rightarrow> do { t1 \<leftarrow> fillQuotedAuthor B t0; ret (Inr t1) })
        })
   }"

definition getTweet :: "'w bridge \<Rightarrow> string \<Rightarrow> ('w, gw_error + tweet) gw" where
  "getTweet B url0 =
     (let noteURL = trim_prefix url0 (lib_retweet_prefix (br_lib B)) in
      case restStatusRef noteURL of
        None \<Rightarrow> apTweet B noteURL
      | Some (host, i) \<Rightarrow> do {
          r \<leftarrow> ap_getJSON (br_ap B) (status_api host i) ''application/json'';
          (case r of
             Inl e \<Rightarrow> apTweet B noteURL
           | Inr m \<Rightarrow> do {
               now \<leftarrow> world (br_now B);
               (case restStatusToTweet (br_lib B) now host m of
                  Some t \<Rightarrow> ret (Inr t)
                | None \<Rightarrow> apTweet B noteURL)
             })
        })"

definition getTweetStats :: "'w bridge \<Rightarrow> string \<Rightarrow> ('w, gw_error + tweetStatsResponse) gw" where
  "getTweetStats B url0 =
     (let L = br_lib B; noteURL = trim_prefix url0 (lib_retweet_prefix L);
          viaAP = do {
            r \<leftarrow> ap_getJSON (br_ap B) noteURL contentTypeAP;
            ret (case r of
               Inl e \<Rightarrow> Inl e
             | Inr m0 \<Rightarrow> (let m = note_of m0 in
                 Inr (tweetStats L noteURL (apCollectionCount (lib_oor L) (jget m ''likes''))
                   (apCollectionCount (lib_oor L) (jget m ''shares''))
                   (apCollectionCount (lib_oor L) (jget m ''replies'')))))
          } in
      case restStatusRef noteURL of
        None \<Rightarrow> viaAP
      | Some (host, i) \<Rightarrow> do {
          r \<leftarrow> ap_getJSON (br_ap B) (status_api host i) ''application/json'';
          (case r of
             Inl e \<Rightarrow> viaAP
           | Inr m \<Rightarrow>
               if jhas m ''replies_count'' then
                 ret (Inr (tweetStats L noteURL (numField (lib_oor L) (jget m ''favourites_count''))
                   (numField (lib_oor L) (jget m ''reblogs_count''))
                   (numField (lib_oor L) (jget m ''replies_count''))))
               else viaAP)
        })"

definition maxReplies :: nat where "maxReplies = 50"

text \<open>The direct replies among the descendants of a context document, up to the room left.\<close>

fun context_items ::
  "'w bridge \<Rightarrow> gotime \<Rightarrow> string \<Rightarrow> string \<Rightarrow> string \<Rightarrow> nat \<Rightarrow> json list \<Rightarrow> tweet list" where
  "context_items B now host i noteURL room [] = []"
| "context_items B now host i noteURL room (it # its) =
     (if room = 0 then []
      else case asMap it of
        None \<Rightarrow> context_items B now host i noteURL room its
      | Some s \<Rightarrow>
          if asString (jget (Some s) ''in_reply_to_id'') \<noteq> i then context_items B now host i noteURL room its
          else (case restReplyToTweet (br_lib B) now host (Some s) noteURL [i \<mapsto> noteURL] of
              None \<Rightarrow> context_items B now host i noteURL room its
            | Some t \<Rightarrow>
                nativizeOwnStatus (ap_isSelfHost (br_ap B)) t (asMap (jget (Some s) ''account''))
                  # context_items B now host i noteURL (room - 1) its))"

definition contextReplies :: "'w bridge \<Rightarrow> string \<Rightarrow> ('w, tweet list option) gw" where
  "contextReplies B noteURL = (case restStatusRef noteURL of
     None \<Rightarrow> ret None
   | Some (host, i) \<Rightarrow> do {
       r \<leftarrow> ap_getJSON (br_ap B) (status_api host i @ ''/context'') ''application/json'';
       (case r of
          Inl e \<Rightarrow> ret None
        | Inr m \<Rightarrow>
            if \<not> jhas m ''descendants'' \<and> \<not> jhas m ''ancestors'' then ret None
            else do {
              now \<leftarrow> world (br_now B);
              ret (Some (context_items B now host i noteURL maxReplies (asSlice (jget m ''descendants''))))
            })
     })"

definition resolveReplyItem :: "'w bridge \<Rightarrow> json \<Rightarrow> ('w, tweet option) gw" where
  "resolveReplyItem B it = do {
     note \<leftarrow> (case asMap it of
         Some m \<Rightarrow> ret (Some m)
       | None \<Rightarrow>
           (let u = asString it in
            if u = [] then ret None
            else do {
              r \<leftarrow> ap_getJSON (br_ap B) u contentTypeAP;
              ret (case r of Inl e \<Rightarrow> None | Inr m \<Rightarrow> m)
            }));
     (case note of
        None \<Rightarrow> ret None
      | Some m \<Rightarrow> do {
          t \<leftarrow> note_tweet B (author_handle (Some m)) (Some m);
          (case t of
             None \<Rightarrow> ret None
           | Some t0 \<Rightarrow> do { t1 \<leftarrow> fillQuotedAuthor B t0; ret (Some t1) })
        })
   }"

definition resolveReplyItems :: "'w bridge \<Rightarrow> json list \<Rightarrow> ('w, tweet list) gw" where
  "resolveReplyItems B items = do { ts \<leftarrow> map_gw (resolveReplyItem B) items; ret (somes ts) }"

definition page_items :: "gomap \<Rightarrow> json list" where
  "page_items page = (let items = asSlice (jget page ''items'') in
     if items = [] then asSlice (jget page ''orderedItems'') else items)"

text \<open>The page walk of \<open>apReplies\<close>: \<open>n\<close> pages are left, \<open>acc\<close> is what has been collected.\<close>

fun reply_pages ::
  "'w bridge \<Rightarrow> nat \<Rightarrow> gomap \<Rightarrow> string \<Rightarrow> tweet list \<Rightarrow> ('w, tweet list) gw" where
  "reply_pages B 0 page pageURL acc = ret acc"
| "reply_pages B (Suc n) page pageURL acc =
     (if length acc \<ge> maxReplies then ret acc
      else do {
        pg \<leftarrow> (case page of
            Some m \<Rightarrow> ret (Some m)
          | None \<Rightarrow>
              if pageURL = [] then ret None
              else do {
                r \<leftarrow> ap_getJSON (br_ap B) pageURL contentTypeAP;
                ret (case r of Inl e \<Rightarrow> None | Inr m \<Rightarrow> m)
              });
        (case pg of
           None \<Rightarrow> ret acc
         | Some m \<Rightarrow> do {
             ts \<leftarrow> resolveReplyItems B (take (maxReplies - length acc) (page_items (Some m)));
             reply_pages B n None (asString (jget (Some m) ''next'')) (acc @ ts)
           })
      })"

definition apReplies :: "'w bridge \<Rightarrow> string \<Rightarrow> ('w, gw_error + tweet list) gw" where
  "apReplies B noteURL = do {
     r \<leftarrow> ap_getJSON (br_ap B) noteURL contentTypeAP;
     (case r of
        Inl e \<Rightarrow> ret (Inl e)
      | Inr m \<Rightarrow>
          (let repliesURL = asString (jget m ''replies'') in
           if repliesURL = [] then ret (Inr [])
           else do {
             c \<leftarrow> ap_getJSON (br_ap B) repliesURL contentTypeAP;
             (case c of
                Inl e \<Rightarrow> ret (Inr [])
              | Inr coll \<Rightarrow>
                  (let page = asMap (jget coll ''first'');
                       pageURL = (if page = None then asString (jget coll ''first'') else []) in do {
                     ts \<leftarrow> reply_pages B 5 page pageURL [];
                     ret (Inr ts)
                   }))
           }))
   }"

definition getReplies :: "'w bridge \<Rightarrow> string \<Rightarrow> ('w, gw_error + tweet list) gw" where
  "getReplies B url0 =
     (let noteURL = trim_prefix url0 (lib_retweet_prefix (br_lib B)) in do {
        c \<leftarrow> contextReplies B noteURL;
        (case c of
           Some ts \<Rightarrow> ret (Inr ts)
         | None \<Rightarrow> do {
             r \<leftarrow> apReplies B noteURL;
             ret (map_sum (\<lambda>e. e) (map (\<lambda>t. nativizeOwnStatus (ap_isSelfHost (br_ap B)) t None)) r)
           })
      })"

definition getTweetsOrReplies :: "'w bridge \<Rightarrow> payload \<Rightarrow> ('w, gw_error + tweetsResponse) gw" where
  "getTweetsOrReplies B ev =
     (if ga_RootId ev \<noteq> [] \<or> ga_ParentId ev \<noteq> [] then do {
        r \<leftarrow> getReplies B (if ga_ParentId ev = [] then ga_RootId ev else ga_ParentId ev);
        ret (map_sum (\<lambda>e. e) (\<lambda>ts. (tweets_for [])\<lparr>tr_Tweets := ts\<rparr>) r)
      }
      else getTweets B (ga_UserId ev) (ga_Cursor ev))"

section \<open>Follow lists and images\<close>

definition follow_page :: "'w bridge \<Rightarrow> gomap \<Rightarrow> string list \<times> string" where
  "follow_page B page =
     (dropSelfHandles (ap_isSelfHost (br_ap B)) (collectHandles page), asString (jget page ''next''))"

definition read_follow_page :: "'w bridge \<Rightarrow> string \<Rightarrow> ('w, gw_error + string list \<times> string) gw" where
  "read_follow_page B pageURL = do {
     r \<leftarrow> ap_getJSON (br_ap B) pageURL contentTypeAP;
     ret (Inr (case r of Inl e \<Rightarrow> ([], []) | Inr page \<Rightarrow> follow_page B page))
   }"

definition followList ::
  "'w bridge \<Rightarrow> string \<Rightarrow> string option \<Rightarrow> string \<Rightarrow> ('w, gw_error + string list \<times> string) gw" where
  "followList B handle cursor field =
     (if pageCursor cursor \<noteq> [] then read_follow_page B (pageCursor cursor)
      else do {
        a \<leftarrow> resolveHandle B handle;
        (case a of
           Inl e \<Rightarrow> ret (Inl e)
         | Inr actorURL \<Rightarrow> do {
             r \<leftarrow> ap_fetchActor (br_ap B) actorURL;
             (case r of
                Inl e \<Rightarrow> ret (Inl e)
              | Inr m \<Rightarrow>
                  (let coll = asString (jget m field) in
                   if coll = [] then ret (Inr ([], []))
                   else do {
                     p \<leftarrow> ap_getJSON (br_ap B) coll contentTypeAP;
                     (case p of
                        Inl e \<Rightarrow> ret (Inr ([], []))
                      | Inr page \<Rightarrow>
                          (let hasItems = asSlice (jget page ''orderedItems'') \<noteq> [] \<or> asSlice (jget page ''items'') \<noteq> [];
                               first = asString (jget page ''first'') in
                           if first \<noteq> [] \<and> \<not> hasItems then read_follow_page B first
                           else ret (Inr (follow_page B page))))
                   }))
           })
      })"

definition getImage :: "'w bridge \<Rightarrow> string \<Rightarrow> ('w, gw_error + string) gw" where
  "getImage B raw = do {
     r \<leftarrow> ap_fetchMedia (br_ap B) raw;
     ret (case r of
        Inl e \<Rightarrow> Inl e
      | Inr (mime, bytes) \<Rightarrow>
          Inr (''data:'' @ (if mime = [] then ''image/jpeg'' else mime) @ '';base64,'' @ std_encode bytes))
   }"

section \<open>Writes\<close>

definition authorInbox :: "'w bridge \<Rightarrow> string \<Rightarrow> ('w, gw_error + gomap \<times> string) gw" where
  "authorInbox B objectURL = do {
     r \<leftarrow> ap_getJSON (br_ap B) (trim_prefix objectURL (lib_retweet_prefix (br_lib B))) contentTypeAP;
     (case r of
        Inl e \<Rightarrow> ret (Inl e)
      | Inr m0 \<Rightarrow>
          (let m = note_of m0; author = asString (jget m ''attributedTo'') in
           if author = [] then ret (Inl ErrNoAttributedTo)
           else do {
             i \<leftarrow> ap_remoteInbox (br_ap B) author;
             ret (case i of Inl e \<Rightarrow> Inl e | Inr inbox \<Rightarrow> Inr (m, inbox))
           }))
   }"

text \<open>\<open>undoIf\<close> draws a token only for an Undo.\<close>

definition wrap_undo :: "'w bridge \<Rightarrow> string \<Rightarrow> activity \<Rightarrow> bool \<Rightarrow> ('w, activity) gw" where
  "wrap_undo B actor inner undo =
     (if \<not> undo then ret (undoIf actor [] inner False)
      else do { tok \<leftarrow> world (br_token B); ret (undoIf actor tok inner True) })"

definition react :: "'w bridge \<Rightarrow> string \<Rightarrow> string \<Rightarrow> string \<Rightarrow> bool \<Rightarrow> ('w, gw_error + u64) gw" where
  "react B localUser objectURL emoji undo =
     (if \<not> undo \<and> emoji \<noteq> lib_default_reaction (br_lib B) then ret (Inr 0)
      else do {
        a \<leftarrow> authorInbox B objectURL;
        (case a of
           Inl e \<Rightarrow> ret (Inl e)
         | Inr (note, inbox) \<Rightarrow> do {
             tok \<leftarrow> world (br_token B);
             let actor = ap_actorID (br_ap B) localUser;
                 like = Activity (CtxIRI asContext) (actor @ ''#like-'' @ tok) typeLike actor
                   (ObjIRI (asString (jget note ''id''))) [] [] in do {
               doc \<leftarrow> wrap_undo B actor like undo;
               d \<leftarrow> ap_postSigned (br_ap B) localUser inbox doc;
               (case d of
                  Some e \<Rightarrow> ret (Inl e)
                | None \<Rightarrow>
                    (let count = apCollectionCount (lib_oor (br_lib B)) (jget note ''likes'') in
                     ret (Inr (if undo then (if count > 0 then count - 1 else count) else count + 1))))
             }
           })
      })"

definition announce :: "'w bridge \<Rightarrow> string \<Rightarrow> string \<Rightarrow> bool \<Rightarrow> ('w, gw_error option) gw" where
  "announce B localUser objectURL undo = do {
     a \<leftarrow> authorInbox B objectURL;
     (case a of
        Inl e \<Rightarrow> ret (Some e)
      | Inr (note, inbox) \<Rightarrow> do {
          tok \<leftarrow> world (br_token B);
          let actor = ap_actorID (br_ap B) localUser;
              ann = Activity (CtxIRI asContext) (actor @ ''#announce-'' @ tok) typeAnnounce actor
                (ObjIRI (asString (jget note ''id''))) [asPublic] [] in do {
            doc \<leftarrow> wrap_undo B actor ann undo;
            ap_postSigned (br_ap B) localUser inbox doc
          }
        })
   }"

definition follow :: "'w bridge \<Rightarrow> string \<Rightarrow> string \<Rightarrow> bool \<Rightarrow> ('w, gw_error option) gw" where
  "follow B localUser handle undo = do {
     a \<leftarrow> resolveHandle B handle;
     (case a of
        Inl e \<Rightarrow> ret (Some e)
      | Inr actorURL \<Rightarrow> do { ap_deliverFollow (br_ap B) localUser actorURL undo; ret None })
   }"

definition reply :: "'w bridge \<Rightarrow> tweet \<Rightarrow> ('w, gw_error option) gw" where
  "reply B ev = do {
     a \<leftarrow> authorInbox B (reply_parent ev);
     (case a of
        Inl e \<Rightarrow> ret (Some e)
      | Inr (obj, inbox) \<Rightarrow> do {
          tok \<leftarrow> (if t_Id ev = [] then world (br_token B) else ret []);
          now \<leftarrow> world (br_now B);
          ap_postSigned (br_ap B) (t_UserId ev) inbox
            (reply_activity (br_lib B) (ap_actorID (br_ap B) (t_UserId ev)) now tok
              (asString (jget obj ''attributedTo'')) ev)
        })
   }"

definition delete :: "'w bridge \<Rightarrow> payload \<Rightarrow> ('w, gw_error option) gw" where
  "delete B ev = do {
     a \<leftarrow> authorInbox B (delete_parent ev);
     (case a of
        Inl e \<Rightarrow> ret (Some e)
      | Inr (obj, inbox) \<Rightarrow>
          ap_postSigned (br_ap B) (dt_UserId ev) inbox
            (delete_activity (ap_actorID (br_ap B) (dt_UserId ev)) (asString (jget obj ''attributedTo'')) ev))
   }"

section \<open>The contract of the transport\<close>

text \<open>
  A bridge over a transport whose reads, when \<open>ok\<close> holds, emit only events that satisfy \<open>P\<close>.  Every
  operation of the bridge that reads then does the same, since it acts through the transport alone.
\<close>

locale ap_reads =
  fixes B :: "'w bridge" and ok :: bool and P :: "gw_event \<Rightarrow> bool"
  assumes get_json: "ok \<Longrightarrow> emits P (ap_getJSON (br_ap B) u a)"
    and resolve_actor: "ok \<Longrightarrow> emits P (ap_resolveActorID (br_ap B) h)"
    and get_array: "ok \<Longrightarrow> emits P (ap_getArray (br_ap B) u a)"
    and fetch_actor: "ok \<Longrightarrow> emits P (ap_fetchActor (br_ap B) u)"
    and remote_inbox: "ok \<Longrightarrow> emits P (ap_remoteInbox (br_ap B) u)"
    and fetch_media: "ok \<Longrightarrow> emits P (ap_fetchMedia (br_ap B) u)"
begin

lemmas read_steps = keeps_intros get_json resolve_actor get_array fetch_actor remote_inbox fetch_media

lemma emits_getUser: "ok \<Longrightarrow> emits P (getUser B h c)"
  unfolding getUser_def resolveHandle_def collectionCount_def by (auto intro!: read_steps)

lemma emits_note_tweet: "emits P (note_tweet B h m)"
  unfolding note_tweet_def by (intro read_steps)

lemma emits_fill: "ok \<Longrightarrow> emits P (fillQuotedAuthor B t)"
  unfolding fillQuotedAuthor_def by (auto intro!: read_steps)

lemma emits_activity: "ok \<Longrightarrow> emits P (activityToTweet B h obj)"
  unfolding activityToTweet_def by (auto intro!: read_steps emits_fill emits_note_tweet)

lemma emits_rest_page: "ok \<Longrightarrow> emits P (restTweetsPage B h u)"
  unfolding restTweetsPage_def by (auto intro!: read_steps)

lemma emits_apTweets: "ok \<Longrightarrow> emits P (apTweets B h c)"
  unfolding apTweets_def outbox_page_def resolveHandle_def resolveTimelineItems_def
  by (auto intro!: read_steps emits_activity)

lemma emits_getTweets: "ok \<Longrightarrow> emits P (getTweets B h c)"
  unfolding getTweets_def restTweets_def by (auto intro!: read_steps emits_rest_page emits_apTweets)

lemma emits_apTweet: "ok \<Longrightarrow> emits P (apTweet B u)"
  unfolding apTweet_def by (auto intro!: read_steps emits_note_tweet emits_fill)

lemma emits_getTweet: "ok \<Longrightarrow> emits P (getTweet B u)"
  unfolding getTweet_def by (auto intro!: read_steps emits_apTweet)

lemma emits_stats: "ok \<Longrightarrow> emits P (getTweetStats B u)"
  unfolding getTweetStats_def by (auto intro!: read_steps)

lemma emits_reply_item: "ok \<Longrightarrow> emits P (resolveReplyItem B it)"
  unfolding resolveReplyItem_def by (auto intro!: read_steps emits_note_tweet emits_fill)

lemma emits_reply_pages: "ok \<Longrightarrow> emits P (reply_pages B n page u acc)"
  by (induction n arbitrary: page u acc)
    (auto simp: resolveReplyItems_def intro!: read_steps emits_reply_item)

lemma emits_getReplies: "ok \<Longrightarrow> emits P (getReplies B u)"
  unfolding getReplies_def contextReplies_def apReplies_def by (auto intro!: read_steps emits_reply_pages)

lemma emits_tweets_or_replies: "ok \<Longrightarrow> emits P (getTweetsOrReplies B ev)"
  unfolding getTweetsOrReplies_def by (auto intro!: read_steps emits_getReplies emits_getTweets)

lemma emits_followList: "ok \<Longrightarrow> emits P (followList B h c f)"
  unfolding followList_def read_follow_page_def resolveHandle_def by (auto intro!: read_steps)

lemma emits_getImage: "ok \<Longrightarrow> emits P (getImage B u)"
  unfolding getImage_def by (auto intro!: read_steps)

lemma emits_authorInbox: "ok \<Longrightarrow> emits P (authorInbox B u)"
  unfolding authorInbox_def by (auto intro!: read_steps)

lemma emits_wrap_undo: "emits P (wrap_undo B a i u)"
  unfolding wrap_undo_def by (intro read_steps)

lemmas read_operations = emits_getUser emits_getTweets emits_getTweet emits_stats emits_tweets_or_replies
  emits_followList emits_getImage

end

text \<open>When the deliveries emit only such events too, so does every operation.\<close>

locale ap_contract = ap_reads +
  assumes post_signed: "ok \<Longrightarrow> emits P (ap_postSigned (br_ap B) l u d)"
    and deliver_follow: "ok \<Longrightarrow> emits P (ap_deliverFollow (br_ap B) l u b)"
begin

lemma emits_writes:
  assumes "ok"
  shows "emits P (react B l u e undo)" "emits P (announce B l u undo)" "emits P (follow B l h undo)"
    "emits P (reply B ev)" "emits P (delete B del)"
  using assms unfolding react_def announce_def follow_def reply_def delete_def resolveHandle_def
  by (auto intro!: read_steps post_signed deliver_follow emits_authorInbox emits_wrap_undo)

lemmas all_operations = read_operations emits_writes

end

end
