(* ===== verification/Ap_Gateway.thy ===== *)
theory Ap_Gateway
  imports Bridge
begin

text \<open>
  The gateway as the bridge's transport: \<open>resolveActorID\<close> (\<open>mastodon-bridge.go\<close>), \<open>deliverFollow\<close>
  (\<open>outbound.go\<close>), and the record of operations that implements \<open>apTransport\<close>.
\<close>

section \<open>Resolving user ids\<close>

fun self_link :: "json list \<Rightarrow> string option" where
  "self_link [] = None"
| "self_link (l # ls) =
     (case asMap l of
        None \<Rightarrow> self_link ls
      | Some link \<Rightarrow>
          if asString (jget (Some link) ''rel'') \<noteq> ''self'' then self_link ls
          else let href = str_or_empty (jget (Some link) ''href'') in
            if href \<noteq> [] then Some href else self_link ls)"

definition webfinger_url :: "string \<Rightarrow> string \<Rightarrow> string" where
  "webfinger_url name inst =
     ''https://'' @ inst @ ''/.well-known/webfinger?resource=acct:'' @ name @ ''@'' @ inst"

definition resolveActorID :: "('w, 'k) gw_env \<Rightarrow> string \<Rightarrow> ('w, gw_error + string) gw" where
  "resolveActorID E handle = (case decodeActorID handle of
     Inr actorURL \<Rightarrow> ret (if isSelfURL (env_gw E) actorURL then Inl ErrSelfUser else Inr actorURL)
   | Inl _ \<Rightarrow>
       (case split_handle handle of
          None \<Rightarrow> ret (Inl ErrNotHandle)
        | Some (name, inst) \<Rightarrow>
            if isSelfHost (env_gw E) inst then ret (Inl ErrSelfUser)
            else do {
              hit \<leftarrow> world (env_get_actor E handle);
              (case hit of
                 Some actorURL \<Rightarrow> ret (Inr actorURL)
               | None \<Rightarrow> do {
                   r \<leftarrow> apGetJSON E (webfinger_url name inst) contentTypeJRD;
                   (case r of
                      Inl e \<Rightarrow> ret (Inl e)
                    | Inr doc \<Rightarrow>
                        (case self_link (asSlice (jget doc ''links'')) of
                           None \<Rightarrow> ret (Inl ErrNoSelfLink)
                         | Some href \<Rightarrow> do {
                             world_do (env_add_actor E handle href);
                             ret (Inr href)
                           }))
                 })
            }))"

section \<open>Delivering follows\<close>

definition follow_activity :: "gateway \<Rightarrow> string \<Rightarrow> string \<Rightarrow> string \<Rightarrow> activity" where
  "follow_activity g token localUser remoteActorURL =
     Activity (CtxIRI asContext) (actorID g localUser @ ''#follow-'' @ token) typeFollow (actorID g localUser)
       (ObjIRI remoteActorURL) [] []"

definition undo_follow_activity :: "gateway \<Rightarrow> string \<Rightarrow> string \<Rightarrow> activity \<Rightarrow> activity" where
  "undo_follow_activity g token localUser fl =
     Activity (CtxIRI asContext) (actorID g localUser @ ''#unfollow-'' @ token) typeUndo (actorID g localUser)
       (ObjActivity fl) [] []"

definition deliverFollow :: "('w, 'k) gw_env \<Rightarrow> string \<Rightarrow> string \<Rightarrow> bool \<Rightarrow> ('w, unit) gw" where
  "deliverFollow E localUser remoteActorURL undo = do {
     r \<leftarrow> remoteInbox E remoteActorURL;
     (case r of
        Inl e \<Rightarrow> ret ()
      | Inr inbox \<Rightarrow> do {
          tok \<leftarrow> world (env_token E);
          let fl = follow_activity (env_gw E) tok localUser remoteActorURL in do {
            doc \<leftarrow> (if undo then do {
                t2 \<leftarrow> world (env_token E);
                ret (undo_follow_activity (env_gw E) t2 localUser fl)
              } else ret fl);
            _ \<leftarrow> postSigned E localUser inbox doc;
            ret ()
          }
        })
   }"

section \<open>The implementation of the interface\<close>

definition gateway_transport :: "('w, 'k) gw_env \<Rightarrow> 'w apTransport" where
  "gateway_transport E =
     \<lparr>ap_getJSON = apGetJSON E, ap_resolveActorID = resolveActorID E, ap_getArray = apGetArray E,
      ap_fetchActor = fetchActor E, ap_remoteInbox = remoteInbox E, ap_actorID = actorID (env_gw E),
      ap_postSigned = postSigned E, ap_deliverFollow = deliverFollow E, ap_fetchMedia = fetchMedia E,
      ap_isSelfHost = isSelfHost (env_gw E)\<rparr>"

definition newMastodonBridge :: "('w, 'k) gw_env \<Rightarrow> string \<Rightarrow> 'w bridge" where
  "newMastodonBridge E nodeID =
     \<lparr>br_ap = gateway_transport E, br_nodeID = nodeID, br_lib = env_lib E, br_now = env_now E,
      br_token = env_token E\<rparr>"

lemma bridge_ap [simp]: "br_ap (newMastodonBridge E nodeID) = gateway_transport E"
  "br_lib (newMastodonBridge E nodeID) = env_lib E"
  by (simp_all add: newMastodonBridge_def)

lemma resolve_guarded [keeps_intros]: "env_ok E \<Longrightarrow> guarded_by E (resolveActorID E h)"
  unfolding resolveActorID_def by (auto intro!: keeps_intros)

lemma deliver_guarded [keeps_intros]: "env_ok E \<Longrightarrow> guarded_by E (deliverFollow E l u b)"
  unfolding deliverFollow_def by (auto intro!: keeps_intros)

interpretation gw_bridge: ap_contract "newMastodonBridge E nodeID" "env_ok E" "guarded (env_gw E)"
  for E :: "('w, 'k) gw_env" and nodeID
  by unfold_locales (auto simp: gateway_transport_def intro!: keeps_intros)

section \<open>Properties\<close>

text \<open>What it means, on the trace, that a computation only sends guarded requests.\<close>

lemma guarded_by_iff:
  "guarded_by E m \<longleftrightarrow>
     (\<forall>s. \<exists>es. st_trace (snd (run_state m s)) = st_trace s @ es \<and> (\<forall>e\<in>set es. guarded (env_gw E) e))"
  by (simp add: emits_def state_io_rel_def extends_def)

text \<open>
  C2: no request escapes the guard.  Whatever the bridge is asked to read or write, on whatever
  handle, cursor, URL or event, every request it puts on the wire went to an address outside the
  forbidden ranges; its first hop was accepted by \<open>checkRemoteURL\<close>, which also refuses the gateway's
  own URLs; every redirect hop was accepted by \<open>validateRemoteURL\<close>; and no chain exceeds the limit.
\<close>

theorem bridge_requests_guarded:
  assumes "env_ok E"
  shows "guarded_by E (getUser (newMastodonBridge E n) h c) \<and>
    guarded_by E (getTweetsOrReplies (newMastodonBridge E n) ev) \<and>
    guarded_by E (getTweet (newMastodonBridge E n) url) \<and>
    guarded_by E (getTweetStats (newMastodonBridge E n) url) \<and>
    guarded_by E (followList (newMastodonBridge E n) h cur field) \<and>
    guarded_by E (getImage (newMastodonBridge E n) url) \<and>
    guarded_by E (react (newMastodonBridge E n) l url emoji undo) \<and>
    guarded_by E (announce (newMastodonBridge E n) l url undo) \<and>
    guarded_by E (follow (newMastodonBridge E n) l h undo) \<and>
    guarded_by E (reply (newMastodonBridge E n) t) \<and>
    guarded_by E (delete (newMastodonBridge E n) del)"
  using assms by (intro conjI gw_bridge.all_operations)

lemma bridge_requests_guarded_witness:
  "guarded_by (sample_env []) (getTweet (newMastodonBridge (sample_env []) ''n'') ''https://127.0.0.1/x'')"
  using bridge_requests_guarded [OF sample_env_ok] by blast

text \<open>
  Resolution never yields this gateway.  An id that names a user of this gateway, as an encoded
  actor URL or as a handle on its host, is refused without any request; an id that is no handle is
  refused too.
\<close>

theorem self_users_not_resolved:
  "(isSelfURL (env_gw E) u \<longrightarrow> run_state (resolveActorID E (encodeActorID u)) s = (Inl ErrSelfUser, s)) \<and>
   (\<not> has_prefix h apFollowerPrefix \<longrightarrow>
     (case split_handle h of
        None \<Rightarrow> run_state (resolveActorID E h) s = (Inl ErrNotHandle, s)
      | Some (name, inst) \<Rightarrow> isSelfHost (env_gw E) inst \<longrightarrow>
          run_state (resolveActorID E h) s = (Inl ErrSelfUser, s)))"
  by (auto simp: resolveActorID_def decodeActorID_def [of h] cut_prefix_def split: option.split)

lemma self_users_not_resolved_witness:
  "run_state (resolveActorID (sample_env []) (encodeActorID ''https://gw.example/users/alice'')) (start_state [])
     = (Inl ErrSelfUser, start_state [])"
proof -
  have "isSelfURL (env_gw (sample_env [])) ''https://gw.example/users/alice''" by code_simp
  then show ?thesis using self_users_not_resolved by blast
qed

end
