(* ===== verification/Followers.thy ===== *)
theory Followers
  imports Ap_Gateway
begin

text \<open>
  The follow graph as the gateway sees it (\<open>followers.go\<close>, \<open>nodefollowers.go\<close>): the interfaces
  \<open>nodeRequester\<close>, \<open>actorResolver\<close> and \<open>followerStore\<close>, and the two follower stores.  The responses of
  a Warpnet node are decoded into Warpnet's own types by the functions of \<open>node_codec\<close>.
\<close>

section \<open>Interfaces\<close>

record 'w nodeRequester =
  nr_request :: "route \<Rightarrow> payload \<Rightarrow> ('w, gw_error + string) gw"
  nr_requestUser :: "string \<Rightarrow> route \<Rightarrow> payload \<Rightarrow> ('w, gw_error + string) gw"

text \<open>
  Decoders: the message of an error envelope, tweets, followers, followings and users with their
  cursor, a user, a tweet and the file of an image response.
\<close>

record node_codec =
  dc_error :: "string \<Rightarrow> string option"
  dc_tweets :: "string \<Rightarrow> (tweet list \<times> string) option"
  dc_followers :: "string \<Rightarrow> (string list \<times> string) option"
  dc_followings :: "string \<Rightarrow> (string list \<times> string) option"
  dc_users :: "string \<Rightarrow> (user list \<times> string) option"
  dc_user :: "string \<Rightarrow> user option"
  dc_tweet :: "string \<Rightarrow> tweet option"
  dc_image :: "string \<Rightarrow> string option"

type_synonym 'w resolver = "string \<Rightarrow> ('w, gw_error + string) gw"

record 'w followerStore =
  fs_Add :: "string \<Rightarrow> string \<Rightarrow> ('w, gw_error option) gw"
  fs_List :: "string \<Rightarrow> ('w, gw_error + string list) gw"

text \<open>\<open>nodeResponseError\<close>: a node reports a failure as an ordinary response with a message.\<close>

definition nodeResponseError :: "node_codec \<Rightarrow> string \<Rightarrow> gw_error option" where
  "nodeResponseError C bt = (case dc_error C bt of
     None \<Rightarrow> None
   | Some msg \<Rightarrow> if msg = [] then None else Some ErrNode)"

section \<open>The store on a Warpnet node\<close>

definition followersPageSize :: nat where "followersPageSize = 100"
definition followersMaxPages :: nat where "followersMaxPages = 100"

definition getFollowersEvent :: "string \<Rightarrow> nat option \<Rightarrow> string option \<Rightarrow> payload" where
  "getFollowersEvent user limit cursor = GetAllTweetsEvent user [] [] limit cursor"

definition node_add ::
  "'w nodeRequester \<Rightarrow> node_codec \<Rightarrow> string \<Rightarrow> string \<Rightarrow> ('w, gw_error option) gw" where
  "node_add R C localUser actorURL = do {
     r \<leftarrow> nr_requestUser R localUser routePostFollow (NewFollowEvent (bridgedUserID actorURL) localUser);
     ret (case r of Inl e \<Rightarrow> Some e | Inr bt \<Rightarrow> nodeResponseError C bt)
   }"

text \<open>The actor URLs of the Fediverse accounts among a list of ids; unresolvable ones are skipped.\<close>

fun resolve_ids :: "'w resolver \<Rightarrow> string list \<Rightarrow> ('w, string list) gw" where
  "resolve_ids res [] = ret []"
| "resolve_ids res (i # is) =
     (if \<not> isBridgedUserID i then resolve_ids res is
      else do {
        r \<leftarrow> res i;
        us \<leftarrow> resolve_ids res is;
        ret (case r of Inl e \<Rightarrow> us | Inr u \<Rightarrow> u # us)
      })"

text \<open>The page loop of \<open>List\<close>; the first argument counts the pages that may still be read.\<close>

fun node_list_pages ::
  "nat \<Rightarrow> 'w nodeRequester \<Rightarrow> node_codec \<Rightarrow> 'w resolver \<Rightarrow> string \<Rightarrow> string \<Rightarrow> string list \<Rightarrow>
    ('w, gw_error + string list) gw" where
  "node_list_pages 0 R C res localUser cursor urls = ret (Inr urls)"
| "node_list_pages (Suc n) R C res localUser cursor urls = do {
     r \<leftarrow> nr_requestUser R localUser routeGetFollowers (getFollowersEvent localUser (Some followersPageSize)
            (if cursor \<noteq> [] then Some cursor else None));
     (case r of
        Inl e \<Rightarrow> ret (Inl e)
      | Inr bt \<Rightarrow>
          (case nodeResponseError C bt of
             Some e \<Rightarrow> ret (Inl e)
           | None \<Rightarrow>
               (case dc_followers C bt of
                  None \<Rightarrow> ret (Inl ErrUnmarshal)
                | Some (ids, cursor') \<Rightarrow> do {
                    us \<leftarrow> resolve_ids res ids;
                    if ids = [] \<or> cursor' = [] \<or> cursor' = cursor then ret (Inr (urls @ us))
                    else node_list_pages n R C res localUser cursor' (urls @ us)
                  })))
   }"

definition nodeFollowerStore :: "'w nodeRequester \<Rightarrow> node_codec \<Rightarrow> 'w resolver \<Rightarrow> 'w followerStore" where
  "nodeFollowerStore R C res =
     \<lparr>fs_Add = node_add R C,
      fs_List = (\<lambda>localUser. node_list_pages followersMaxPages R C res localUser [] [])\<rparr>"

section \<open>The in-memory store\<close>

text \<open>The expirable cache is a third-party package: its \<open>Get\<close> (with the nil slice for a miss) and \<open>Add\<close>.\<close>

record 'w lru_lists =
  ll_get :: "string \<Rightarrow> 'w \<Rightarrow> string list \<times> 'w"
  ll_add :: "string \<Rightarrow> string list \<Rightarrow> 'w \<Rightarrow> 'w"

definition mem_add :: "'w lru_lists \<Rightarrow> string \<Rightarrow> string \<Rightarrow> ('w, gw_error option) gw" where
  "mem_add D localUser actorURL = do {
     urls \<leftarrow> world (ll_get D localUser);
     if actorURL \<in> set urls then ret None
     else do { world_do (ll_add D localUser (urls @ [actorURL])); ret None }
   }"

definition mem_list :: "'w lru_lists \<Rightarrow> string \<Rightarrow> ('w, gw_error + string list) gw" where
  "mem_list D localUser = do { urls \<leftarrow> world (ll_get D localUser); ret (Inr urls) }"

definition memFollowerStore :: "'w lru_lists \<Rightarrow> 'w followerStore" where
  "memFollowerStore D = \<lparr>fs_Add = mem_add D, fs_List = mem_list D\<rparr>"

section \<open>Contracts\<close>

text \<open>A requester all of whose requests, when \<open>ok\<close> holds, emit only events that satisfy \<open>P\<close>.\<close>

locale requester =
  fixes R :: "'w nodeRequester" and ok :: bool and P :: "gw_event \<Rightarrow> bool"
  assumes request: "ok \<Longrightarrow> emits P (nr_request R r p)"
    and request_user: "ok \<Longrightarrow> emits P (nr_requestUser R u r p)"

locale follower_store =
  fixes F :: "'w followerStore" and ok :: bool and P :: "gw_event \<Rightarrow> bool"
  assumes add: "ok \<Longrightarrow> emits P (fs_Add F u a)" and list: "ok \<Longrightarrow> emits P (fs_List F u)"

lemma resolve_ids_emits [keeps_intros]:
  "(\<And>i. emits P (res i)) \<Longrightarrow> emits P (resolve_ids res is)"
  by (induction "is") (auto intro!: keeps_intros)

context requester begin

lemma emits_node_add: "ok \<Longrightarrow> emits P (node_add R C u a)"
  unfolding node_add_def by (auto intro!: keeps_intros request_user)

lemma emits_node_pages: "ok \<Longrightarrow> (\<And>i. emits P (res i)) \<Longrightarrow> emits P (node_list_pages n R C res u c acc)"
  by (induction n arbitrary: c acc) (auto intro!: keeps_intros request_user)

lemma node_store: "(\<And>i. ok \<Longrightarrow> emits P (res i)) \<Longrightarrow> follower_store (nodeFollowerStore R C res) ok P"
  by unfold_locales (auto simp: nodeFollowerStore_def intro!: emits_node_add emits_node_pages)

end

interpretation mem_store: follower_store "memFollowerStore D" True P for D :: "'w lru_lists" and P
  by unfold_locales (auto simp: memFollowerStore_def mem_add_def mem_list_def intro!: keeps_intros)

section \<open>Properties of the in-memory store\<close>

text \<open>What the store relies on: within its bounds the cache returns what was added, and nothing else.\<close>

definition lru_lists_ok :: "'w lru_lists \<Rightarrow> bool" where
  "lru_lists_ok D \<longleftrightarrow>
     (\<forall>k w. fst (ll_get D k (snd (ll_get D k w))) = fst (ll_get D k w)) \<and>
     (\<forall>k j w. fst (ll_get D j (snd (ll_get D k w))) = fst (ll_get D j w)) \<and>
     (\<forall>k v w. fst (ll_get D k (ll_add D k v w)) = v) \<and>
     (\<forall>k j v w. j \<noteq> k \<longrightarrow> fst (ll_get D j (ll_add D k v w)) = fst (ll_get D j w))"

definition followers_in :: "'w lru_lists \<Rightarrow> string \<Rightarrow> 'w gw_state \<Rightarrow> string list" where
  "followers_in D u s = fst (ll_get D u (st_world s))"

text \<open>
  The in-memory store is a set of followers per user.  \<open>Add\<close> always succeeds and appends the actor
  unless it is already there, for that user only; so that adding twice is adding once, the list stays
  free of duplicates, and \<open>List\<close> returns it in the order of the first additions.
\<close>

theorem mem_store_is_a_set:
  assumes "lru_lists_ok D"
  shows "(case run_state (fs_Add (memFollowerStore D) u a) s of (r, s') \<Rightarrow>
      r = None \<and>
      followers_in D u s' = (if a \<in> set (followers_in D u s) then followers_in D u s else followers_in D u s @ [a]) \<and>
      (\<forall>v. v \<noteq> u \<longrightarrow> followers_in D v s' = followers_in D v s) \<and>
      (distinct (followers_in D u s) \<longrightarrow> distinct (followers_in D u s')) \<and>
      followers_in D u (snd (run_state (fs_Add (memFollowerStore D) u a) s')) = followers_in D u s' \<and>
      fst (run_state (fs_List (memFollowerStore D) u) s') = Inr (followers_in D u s'))"
  using assms unfolding lru_lists_ok_def
  by (auto simp: memFollowerStore_def mem_add_def mem_list_def followers_in_def)

definition sample_lists :: "(string \<Rightarrow> string list) lru_lists" where
  "sample_lists = \<lparr>ll_get = (\<lambda>k w. (w k, w)), ll_add = (\<lambda>k v w. w(k := v))\<rparr>"

lemma mem_store_is_a_set_witness:
  "followers_in sample_lists ''alice'' (snd (run_state (fs_Add (memFollowerStore sample_lists) ''alice'' ''b'')
     (start_state (\<lambda>_. [])))) = [''b'']"
proof -
  have ok: "lru_lists_ok sample_lists" by (simp add: lru_lists_ok_def sample_lists_def)
  have e: "followers_in sample_lists ''alice'' (start_state (\<lambda>_. [])) = []"
    by (simp add: followers_in_def sample_lists_def start_state_def)
  from mem_store_is_a_set [OF ok, of "''alice''" "''b''" "start_state (\<lambda>_. [])"] e show ?thesis
    by (simp split: prod.splits)
qed

end
