(* ===== verification/Node_Client.thy ===== *)
theory Node_Client
  imports Followers "HOL-Library.Multiset"
begin

text \<open>
  The node client (\<open>nodeclient.go\<close>, \<open>discovery.go\<close>): choosing member nodes, racing them with hedged
  requests, targeting a user's own node, and the profile source \<open>nodeSource\<close>.  The libp2p host, the
  DHT and the stream exchange are the operations of \<open>node_env\<close>.
\<close>

definition maxMemberCandidates :: nat where "maxMemberCandidates = 64"

section \<open>Hedged requests as a step relation\<close>

text \<open>
  The loop of \<open>tryMembers\<close>: the next candidate, the attempts in flight, the candidates that failed
  (kept for the statements), and the outcome once the loop has returned.
\<close>

datatype hedge_outcome = HWin string string | HTimeout | HFailed

record hedge =
  hg_next :: nat
  hg_inflight :: "string list"
  hg_failed :: "string list"
  hg_out :: "hedge_outcome option"

definition launchNext :: "string list \<Rightarrow> hedge \<Rightarrow> hedge" where
  "launchNext peers h =
     (if hg_next h < length peers
      then h\<lparr>hg_next := Suc (hg_next h), hg_inflight := hg_inflight h @ [peers ! hg_next h]\<rparr> else h)"

definition hedge_start :: "string list \<Rightarrow> hedge" where
  "hedge_start peers = launchNext peers \<lparr>hg_next = 0, hg_inflight = [], hg_failed = [], hg_out = None\<rparr>"

inductive hedge_step :: "string list \<Rightarrow> hedge \<Rightarrow> hedge \<Rightarrow> bool" for peers where
  hs_win: "hg_out h = None \<Longrightarrow> p \<in> set (hg_inflight h) \<Longrightarrow>
    hedge_step peers h (h\<lparr>hg_inflight := remove1 p (hg_inflight h), hg_out := Some (HWin p bt)\<rparr>)"
| hs_fail: "hg_out h = None \<Longrightarrow> p \<in> set (hg_inflight h) \<Longrightarrow>
    hedge_step peers h (launchNext peers
      (h\<lparr>hg_inflight := remove1 p (hg_inflight h), hg_failed := p # hg_failed h\<rparr>))"
| hs_tick: "hg_out h = None \<Longrightarrow> hg_inflight h \<noteq> [] \<Longrightarrow> hedge_step peers h (launchNext peers h)"
| hs_deadline: "hg_out h = None \<Longrightarrow> hg_inflight h \<noteq> [] \<Longrightarrow> hedge_step peers h (h\<lparr>hg_out := Some HTimeout\<rparr>)"
| hs_exhausted: "hg_out h = None \<Longrightarrow> hg_inflight h = [] \<Longrightarrow> hedge_step peers h (h\<lparr>hg_out := Some HFailed\<rparr>)"

inductive_cases hedge_stepE: "hedge_step peers h h'"

inductive hedge_reach :: "string list \<Rightarrow> hedge \<Rightarrow> bool" for peers where
  hr_start: "hedge_reach peers (hedge_start peers)"
| hr_step: "hedge_reach peers h \<Longrightarrow> hedge_step peers h h' \<Longrightarrow> hedge_reach peers h'"

text \<open>The same loop as a function of a schedule: replies and ticks as they come, then the deadline.\<close>

datatype hedge_event = HReply string "string option" | HTick

fun hedge_run :: "string list \<Rightarrow> hedge_event list \<Rightarrow> hedge \<Rightarrow> hedge" where
  "hedge_run peers evs h =
     (if hg_out h \<noteq> None then h
      else if hg_inflight h = [] then h\<lparr>hg_out := Some HFailed\<rparr>
      else (case evs of
          [] \<Rightarrow> h\<lparr>hg_out := Some HTimeout\<rparr>
        | HTick # es \<Rightarrow> hedge_run peers es (launchNext peers h)
        | HReply p r # es \<Rightarrow>
            if p \<notin> set (hg_inflight h) then hedge_run peers es h
            else (case r of
                Some bt \<Rightarrow> h\<lparr>hg_inflight := remove1 p (hg_inflight h), hg_out := Some (HWin p bt)\<rparr>
              | None \<Rightarrow> hedge_run peers es (launchNext peers
                  (h\<lparr>hg_inflight := remove1 p (hg_inflight h), hg_failed := p # hg_failed h\<rparr>)))))"

declare hedge_run.simps [simp del]

section \<open>The client\<close>

record 'w node_env =
  nc_self :: string
  nc_relays :: "string list"
  nc_has_dht :: bool
  nc_table :: "'w \<Rightarrow> string list \<times> 'w"
  nc_refresh :: "'w \<Rightarrow> 'w"
  nc_schedule :: "string list \<Rightarrow> route \<Rightarrow> payload \<Rightarrow> 'w \<Rightarrow> hedge_event list \<times> 'w"
  nc_stream :: "string \<Rightarrow> route \<Rightarrow> payload \<Rightarrow> 'w \<Rightarrow> string option \<times> 'w"
  nc_owner_get :: "string \<Rightarrow> 'w \<Rightarrow> string option \<times> 'w"
  nc_owner_add :: "string \<Rightarrow> string \<Rightarrow> 'w \<Rightarrow> 'w"
  nc_owner_remove :: "string \<Rightarrow> 'w \<Rightarrow> 'w"
  nc_decode_peer :: "string \<Rightarrow> string option"
  nc_codec :: node_codec

definition add_candidate :: "'w node_env \<Rightarrow> string \<Rightarrow> string list \<Rightarrow> string list" where
  "add_candidate N p out =
     (if p = [] \<or> p = nc_self N \<or> p \<in> set (nc_relays N) \<or> p \<in> set out then out else out @ [p])"

definition candidates :: "'w node_env \<Rightarrow> string list \<Rightarrow> string list \<Rightarrow> string list" where
  "candidates N good table = take maxMemberCandidates (fold (add_candidate N) (good @ table) [])"

definition memberCandidates :: "'w node_env \<Rightarrow> ('w, string list) gw" where
  "memberCandidates N = do {
     s \<leftarrow> State_Monad.get;
     table \<leftarrow> (if nc_has_dht N then world (nc_table N) else ret []);
     ret (candidates N (st_good s) table)
   }"

text \<open>\<open>remember\<close> moves a member to the front of the bounded list of good ones.\<close>

definition move_to_front :: "string \<Rightarrow> string list \<Rightarrow> string list" where
  "move_to_front p good = take maxMemberCandidates (p # [q \<leftarrow> good. q \<noteq> p])"

definition remember :: "string \<Rightarrow> ('w, unit) gw" where
  "remember p = State (\<lambda>s. ((), s\<lparr>st_good := move_to_front p (st_good s)\<rparr>))"

fun emit_all :: "gw_event list \<Rightarrow> ('w, unit) gw" where
  "emit_all [] = ret ()"
| "emit_all (e # es) = do { emit e; emit_all es }"

definition tryMembers ::
  "'w node_env \<Rightarrow> string list \<Rightarrow> route \<Rightarrow> payload \<Rightarrow> ('w, gw_error + string) gw" where
  "tryMembers N peers r p = do {
     evs \<leftarrow> world (nc_schedule N peers r p);
     let h = hedge_run peers evs (hedge_start peers) in do {
       emit_all (map (\<lambda>q. EvNode q r p) (take (hg_next h) peers));
       (case hg_out h of
          Some (HWin q bt) \<Rightarrow> do { remember q; ret (Inr bt) }
        | _ \<Rightarrow> ret (Inl ErrNode))
     }
   }"

definition request :: "'w node_env \<Rightarrow> route \<Rightarrow> payload \<Rightarrow> ('w, gw_error + string) gw" where
  "request N r p = do {
     peers0 \<leftarrow> memberCandidates N;
     peers \<leftarrow> (if peers0 = [] \<and> nc_has_dht N then do { world_do (nc_refresh N); memberCandidates N } else ret peers0);
     if peers = [] then ret (Inl ErrNode) else tryMembers N peers r p
   }"

definition ownerNode :: "'w node_env \<Rightarrow> string \<Rightarrow> ('w, string option) gw" where
  "ownerNode N userID = do {
     hit \<leftarrow> world (nc_owner_get N userID);
     (case hit of
        Some p \<Rightarrow> ret (Some p)
      | None \<Rightarrow> do {
          r \<leftarrow> request N routeGetUser (GetUserEvent userID);
          (case r of
             Inl e \<Rightarrow> ret None
           | Inr bt \<Rightarrow>
               (case dc_user (nc_codec N) bt of
                  None \<Rightarrow> ret None
                | Some u \<Rightarrow>
                    if usr_NodeId u = [] then ret None
                    else (case nc_decode_peer N (usr_NodeId u) of
                        None \<Rightarrow> ret None
                      | Some p \<Rightarrow> do { world_do (nc_owner_add N userID p); ret (Some p) })))
        })
   }"

definition requestUser :: "'w node_env \<Rightarrow> string \<Rightarrow> route \<Rightarrow> payload \<Rightarrow> ('w, gw_error + string) gw" where
  "requestUser N userID r p = do {
     owner \<leftarrow> ownerNode N userID;
     (case owner of
        None \<Rightarrow> request N r p
      | Some q \<Rightarrow> do {
          emit (EvNode q r p);
          resp \<leftarrow> world (nc_stream N q r p);
          (case resp of
             Some bt \<Rightarrow> do { remember q; ret (Inr bt) }
           | None \<Rightarrow> do { world_do (nc_owner_remove N userID); request N r p })
        })
   }"

definition node_requester :: "'w node_env \<Rightarrow> 'w nodeRequester" where
  "node_requester N = \<lparr>nr_request = request N, nr_requestUser = requestUser N\<rparr>"

text \<open>\<open>nodeSource.GetUser\<close>.\<close>

definition warpnet_user_of :: "user \<Rightarrow> warpnetUser" where
  "warpnet_user_of u =
     \<lparr>wu_ID = usr_Id u, wu_PreferredUsername = usr_Id u, wu_DisplayName = usr_Username u,
      wu_Summary = usr_Bio u, wu_Avatar = usr_AvatarKey u, wu_Background = usr_BackgroundImageKey u\<rparr>"

definition nodeSource_GetUser :: "'w nodeRequester \<Rightarrow> node_codec \<Rightarrow> string \<Rightarrow> ('w, warpnetUser option) gw" where
  "nodeSource_GetUser R C preferredUsername = do {
     r \<leftarrow> nr_request R routeGetUser (GetUserEvent preferredUsername);
     ret (case r of
        Inl e \<Rightarrow> None
      | Inr bt \<Rightarrow>
          (case dc_user C bt of
             None \<Rightarrow> None
           | Some u \<Rightarrow> if usr_Id u = [] then None else Some (warpnet_user_of u)))
   }"

section \<open>The race\<close>

text \<open>
  Attempts in flight, failed attempts and the winner are exactly the candidates launched so far, in
  order; and the loop runs dry only when every candidate has been launched.
\<close>

definition hedge_won :: "hedge \<Rightarrow> string list" where
  "hedge_won h = (case hg_out h of Some (HWin p bt) \<Rightarrow> [p] | _ \<Rightarrow> [])"

definition hedge_inv :: "string list \<Rightarrow> hedge \<Rightarrow> bool" where
  "hedge_inv peers h \<longleftrightarrow> hg_next h \<le> length peers \<and>
     mset (hg_inflight h) + mset (hg_failed h) + mset (hedge_won h) = mset (take (hg_next h) peers) \<and>
     (hg_inflight h = [] \<and> hedge_won h = [] \<longrightarrow> hg_next h = length peers) \<and>
     (hg_out h = Some HFailed \<longrightarrow> hg_inflight h = [])"

lemma launch_fields [simp]: "hg_failed (launchNext peers h) = hg_failed h" "hg_out (launchNext peers h) = hg_out h"
  by (simp_all add: launchNext_def)

lemma launch_inv:
  assumes "hg_next h \<le> length peers" "hg_out h = None"
    "mset (hg_inflight h) + mset (hg_failed h) = mset (take (hg_next h) peers)"
  shows "hedge_inv peers (launchNext peers h)"
  using assms by (auto simp: hedge_inv_def launchNext_def hedge_won_def take_Suc_conv_app_nth)

lemma hedge_start_inv: "hedge_inv peers (hedge_start peers)"
  unfolding hedge_start_def by (rule launch_inv) simp_all

lemma mset_moved: "p \<in> set xs \<Longrightarrow> mset (remove1 p xs) + add_mset p F = mset xs + F"
  by (induction xs) auto

lemma hedge_step_inv: "hedge_step peers h h' \<Longrightarrow> hedge_inv peers h \<Longrightarrow> hedge_inv peers h'"
proof (induction rule: hedge_step.induct)
  case (hs_fail h p)
  have "hedge_won h = []" using hs_fail by (simp add: hedge_won_def)
  then have m: "mset (hg_inflight h) + mset (hg_failed h) = mset (take (hg_next h) peers)" "hg_next h \<le> length peers"
    using hs_fail by (simp_all add: hedge_inv_def)
  then have "mset (remove1 p (hg_inflight h)) + mset (p # hg_failed h) = mset (take (hg_next h) peers)"
    using mset_moved [OF hs_fail(2), of "mset (hg_failed h)"] by (simp del: mset_remove1)
  with m(2) hs_fail(1) show ?case by (intro launch_inv) simp_all
next
  case (hs_win h p bt)
  have "hedge_won h = []" using hs_win by (simp add: hedge_won_def)
  then have m: "mset (hg_inflight h) + mset (hg_failed h) = mset (take (hg_next h) peers)" "hg_next h \<le> length peers"
    using hs_win by (simp_all add: hedge_inv_def)
  then have "mset (remove1 p (hg_inflight h)) + mset (hg_failed h) + {#p#} = mset (take (hg_next h) peers)"
    using mset_moved [OF hs_win(2), of "mset (hg_failed h)"] by (simp del: mset_remove1)
  with m(2) show ?case by (simp add: hedge_inv_def hedge_won_def del: mset_remove1)
next
  case (hs_tick h)
  then have "hedge_won h = []" by (simp add: hedge_won_def)
  with hs_tick show ?case by (intro launch_inv) (simp_all add: hedge_inv_def)
qed (auto simp: hedge_inv_def hedge_won_def)

lemma hedge_reach_inv: "hedge_reach peers h \<Longrightarrow> hedge_inv peers h"
  by (induction rule: hedge_reach.induct) (auto intro: hedge_start_inv hedge_step_inv)

lemma reach_fail:
  "hedge_reach peers h \<Longrightarrow> hg_out h = None \<Longrightarrow> p \<in> set (hg_inflight h) \<Longrightarrow>
    hedge_reach peers (launchNext peers
      (h\<lparr>hg_inflight := remove1 p (hg_inflight h), hg_failed := p # hg_failed h\<rparr>))"
  by (blast intro: hr_step hs_fail)

lemma reach_tick:
  "hedge_reach peers h \<Longrightarrow> hg_out h = None \<Longrightarrow> hg_inflight h \<noteq> [] \<Longrightarrow> hedge_reach peers (launchNext peers h)"
  by (blast intro: hr_step hs_tick)

lemma hedge_run_reach: "hedge_reach peers h \<Longrightarrow> hedge_reach peers (hedge_run peers evs h)"
proof (induction evs arbitrary: h)
  case Nil
  then show ?case by (subst hedge_run.simps) (auto intro: hr_step hedge_step.intros)
next
  case (Cons e evs)
  from Cons.prems show ?case
    by (subst hedge_run.simps)
      (auto split: hedge_event.split option.split
        intro: hr_step hedge_step.intros Cons.IH reach_fail reach_tick)
qed

lemma hedge_run_returns: "hg_out (hedge_run peers evs h) \<noteq> None"
proof (induction evs arbitrary: h)
  case (Cons e evs)
  then show ?case
    by (subst hedge_run.simps) (auto split: hedge_event.split option.split)
qed (subst hedge_run.simps, auto)

lemma hedge_tried: "hedge_inv peers h \<Longrightarrow>
    mset (hg_inflight h @ hg_failed h @ hedge_won h) = mset (take (hg_next h) peers)"
  by (simp add: hedge_inv_def add.assoc)

lemma winner_is_peer: "hedge_inv peers h \<Longrightarrow> hg_out h = Some (HWin q bt) \<Longrightarrow> q \<in> set peers"
  using mset_eq_setD [OF hedge_tried] in_set_takeD by (fastforce simp: hedge_won_def)

text \<open>
  C12: the race between member nodes.  In every interleaving of replies, failures, hedging ticks and the
  deadline: candidates are launched in order and none twice; the winner is one of them; and the race
  is reported as failed only when every single candidate was tried and failed.
\<close>

theorem race_outcome:
  assumes "hedge_reach peers h"
  shows "mset (hg_inflight h) + mset (hg_failed h) + mset (hedge_won h) = mset (take (hg_next h) peers)
    \<and> (distinct peers \<longrightarrow> distinct (hg_inflight h @ hg_failed h @ hedge_won h))
    \<and> (\<forall>p bt. hg_out h = Some (HWin p bt) \<longrightarrow> p \<in> set peers)
    \<and> (hg_out h = Some HFailed \<longrightarrow> mset (hg_failed h) = mset peers)"
proof -
  have i: "hedge_inv peers h" by (rule hedge_reach_inv [OF assms])
  then have m: "mset (hg_inflight h @ hg_failed h @ hedge_won h) = mset (take (hg_next h) peers)"
    by (rule hedge_tried)
  have "distinct peers \<Longrightarrow> distinct (hg_inflight h @ hg_failed h @ hedge_won h)"
    using mset_eq_imp_distinct_iff [OF m] by simp
  moreover have "p \<in> set peers" if "hg_out h = Some (HWin p bt)" for p bt
    using winner_is_peer [OF i that] .
  moreover have "mset (hg_failed h) = mset peers" if f: "hg_out h = Some HFailed"
  proof -
    have "hedge_won h = []" using f by (simp add: hedge_won_def)
    moreover from i f have "hg_inflight h = []" by (simp add: hedge_inv_def)
    moreover from i calculation have "hg_next h = length peers" unfolding hedge_inv_def by blast
    ultimately show ?thesis using m by simp
  qed
  ultimately show ?thesis using m by (simp add: add.assoc)
qed

lemma race_outcome_witness:
  "mset (hg_failed (hedge_run [''a'', ''b''] [HReply ''a'' None, HReply ''b'' None] (hedge_start [''a'', ''b''])))
     = mset [''a'', ''b'']"
proof -
  let ?h = "hedge_run [''a'', ''b''] [HReply ''a'' None, HReply ''b'' None] (hedge_start [''a'', ''b''])"
  have r: "hedge_reach [''a'', ''b''] ?h" by (intro hedge_run_reach hr_start)
  have "hg_out ?h = Some HFailed" by code_simp
  then show ?thesis using race_outcome [OF r] by blast
qed

section \<open>Candidates\<close>

definition member_list :: "'w node_env \<Rightarrow> string list \<Rightarrow> bool" where
  "member_list N ps \<longleftrightarrow> distinct ps \<and> (\<forall>p\<in>set ps. p \<noteq> [] \<and> p \<noteq> nc_self N \<and> p \<notin> set (nc_relays N))"

lemma add_candidate_inv: "member_list N out \<Longrightarrow> member_list N (add_candidate N q out)"
  by (auto simp: add_candidate_def member_list_def)

lemma fold_candidate_inv: "member_list N out \<Longrightarrow> member_list N (fold (add_candidate N) ps out)"
  by (induction ps arbitrary: out) (simp_all add: add_candidate_inv)

lemma member_list_take: "member_list N ps \<Longrightarrow> member_list N (take n ps)"
  unfolding member_list_def by (blast dest: in_set_takeD intro: distinct_take)

lemma fold_candidate_prefix: "prefix out (fold (add_candidate N) ps out)"
proof (induction ps arbitrary: out)
  case (Cons p ps)
  have "prefix out (add_candidate N p out)" by (simp add: add_candidate_def)
  then show ?case using Cons.IH prefix_order.trans by fastforce
qed simp

text \<open>
  Which nodes a request goes to.  The candidates are distinct, at most sixty-four, and never this
  gateway or a relay; and a member that has just been remembered is the first of them.
\<close>

theorem candidates_are_members:
  "distinct (candidates N good table) \<and> length (candidates N good table) \<le> 64 \<and>
   (\<forall>p\<in>set (candidates N good table). p \<noteq> [] \<and> p \<noteq> nc_self N \<and> p \<notin> set (nc_relays N)) \<and>
   (p \<noteq> [] \<and> p \<noteq> nc_self N \<and> p \<notin> set (nc_relays N) \<longrightarrow>
      (\<exists>rest. candidates N (move_to_front p good) table = p # rest))"
proof -
  have "member_list N (fold (add_candidate N) (good @ table) [])"
    by (rule fold_candidate_inv) (simp add: member_list_def)
  then have m: "member_list N (candidates N good table)" unfolding candidates_def by (rule member_list_take)
  have len: "length (candidates N good table) \<le> 64" by (simp add: candidates_def maxMemberCandidates_def)
  have "\<exists>rest. candidates N (move_to_front p good) table = p # rest"
    if p: "p \<noteq> [] \<and> p \<noteq> nc_self N \<and> p \<notin> set (nc_relays N)"
  proof -
    have "move_to_front p good = p # take 63 [q \<leftarrow> good. q \<noteq> p]"
      by (simp add: move_to_front_def maxMemberCandidates_def)
    moreover have "add_candidate N p [] = [p]" using p by (simp add: add_candidate_def)
    ultimately have "prefix [p] (fold (add_candidate N) (move_to_front p good @ table) [])"
      using fold_candidate_prefix [of "[p]" N "take 63 [q \<leftarrow> good. q \<noteq> p] @ table"] by simp
    then show ?thesis by (auto simp: candidates_def maxMemberCandidates_def prefix_def)
  qed
  with m len show ?thesis unfolding member_list_def by blast
qed

definition sample_node_env :: "unit node_env" where
  "sample_node_env = \<lparr>nc_self = ''gw'', nc_relays = [''r1''], nc_has_dht = True,
     nc_table = (\<lambda>w. ([''r1'', ''m1'', ''m2''], w)), nc_refresh = (\<lambda>w. w),
     nc_schedule = (\<lambda>_ _ _ w. ([HReply ''m1'' None, HReply ''m2'' (Some ''ok'')], w)),
     nc_stream = (\<lambda>_ _ _ w. (None, w)), nc_owner_get = (\<lambda>_ w. (None, w)), nc_owner_add = (\<lambda>_ _ w. w),
     nc_owner_remove = (\<lambda>_ w. w), nc_decode_peer = (\<lambda>_. None),
     nc_codec = \<lparr>dc_error = (\<lambda>_. None), dc_tweets = (\<lambda>_. None), dc_followers = (\<lambda>_. None), dc_followings = (\<lambda>_. None), dc_users = (\<lambda>_. None),
       dc_user = (\<lambda>_. None), dc_tweet = (\<lambda>_. None), dc_image = (\<lambda>_. None)\<rparr>\<rparr>"

lemma candidates_are_members_witness:
  "\<exists>rest. candidates sample_node_env (move_to_front ''m2'' []) [''r1'', ''m1'', ''m2''] = ''m2'' # rest"
proof -
  have "''m2'' \<noteq> [] \<and> ''m2'' \<noteq> nc_self sample_node_env \<and> ''m2'' \<notin> set (nc_relays sample_node_env)"
    by (simp add: sample_node_env_def)
  then show ?thesis using candidates_are_members by blast
qed

section \<open>Requests\<close>

lemma run_emit_all [simp]: "run_state (emit_all es) s = ((), s\<lparr>st_trace := st_trace s @ es\<rparr>)"
  by (induction es arbitrary: s) simp_all

lemma run_remember [simp]: "run_state (remember p) s = ((), s\<lparr>st_good := move_to_front p (st_good s)\<rparr>)"
  by (simp add: remember_def)

lemma tryMembers_run:
  assumes "run_state (tryMembers N peers r p) s = (res, s')"
  shows "\<exists>n. st_trace s' = st_trace s @ map (\<lambda>q. EvNode q r p) (take n peers) \<and>
    (case res of
       Inr bt \<Rightarrow> \<exists>q\<in>set peers. st_good s' = move_to_front q (st_good s)
     | Inl e \<Rightarrow> st_good s' = st_good s)"
proof -
  define h where "h = hedge_run peers (fst (nc_schedule N peers r p (st_world s))) (hedge_start peers)"
  have i: "hedge_inv peers h" unfolding h_def by (intro hedge_reach_inv hedge_run_reach hr_start)
  have w: "q \<in> set peers" if "hg_out h = Some (HWin q bt)" for q bt using winner_is_peer [OF i that] .
  show ?thesis
    using assms w
    by (intro exI [of _ "hg_next h"])
      (auto simp: tryMembers_def Let_def h_def [symmetric] split: option.splits hedge_outcome.splits)
qed

lemma run_members:
  "run_state (memberCandidates N) s = (ps, s') \<Longrightarrow>
    (\<exists>table. ps = candidates N (st_good s) table) \<and> st_trace s' = st_trace s \<and> st_good s' = st_good s"
  by (auto simp: memberCandidates_def split: if_splits)

lemma request_sends:
  assumes "run_state (request N r p) s = (res, s')"
  shows "\<exists>ps. st_trace s' = st_trace s @ map (\<lambda>q. EvNode q r p) ps \<and> member_list N ps \<and> length ps \<le> 64 \<and>
    (case res of
       Inr bt \<Rightarrow> \<exists>q. q \<noteq> nc_self N \<and> q \<notin> set (nc_relays N) \<and> st_good s' = move_to_front q (st_good s)
     | Inl e \<Rightarrow> st_good s' = st_good s)"
proof -
  have "\<exists>peers t. (\<exists>g table. peers = candidates N g table) \<and> st_trace t = st_trace s \<and> st_good t = st_good s \<and>
      (if peers = [] then (res, s') = (Inl ErrNode, t) else run_state (tryMembers N peers r p) t = (res, s'))"
    using assms
    by (auto simp: request_def split: prod.splits if_splits dest!: run_members)
      (metis (no_types, lifting) gw_state.select_convs(2,3) gw_state.surjective gw_state.update_convs(1))+
  then obtain peers t g table where p: "peers = candidates N g table" and t: "st_trace t = st_trace s" "st_good t = st_good s"
    and r: "if peers = [] then (res, s') = (Inl ErrNode, t) else run_state (tryMembers N peers r p) t = (res, s')"
    by blast
  have m: "member_list N peers" unfolding p candidates_def
    by (intro member_list_take fold_candidate_inv) (simp add: member_list_def)
  have len: "length peers \<le> 64" by (simp add: p candidates_def maxMemberCandidates_def)
  show ?thesis
  proof (cases "peers = []")
    case False
    with r tryMembers_run obtain n where n: "st_trace s' = st_trace t @ map (\<lambda>q. EvNode q r p) (take n peers)"
      "case res of Inr bt \<Rightarrow> \<exists>q\<in>set peers. st_good s' = move_to_front q (st_good t) | Inl e \<Rightarrow> st_good s' = st_good t"
      by fastforce
    have "member_list N (take n peers)" by (rule member_list_take [OF m])
    with n t m len show ?thesis
      by (intro exI [of _ "take n peers"]) (auto simp: member_list_def split: sum.splits)
  qed (use r t in \<open>auto simp: member_list_def\<close>)
qed

text \<open>
  A request goes to member nodes only.  The nodes a request contacts are distinct members, neither
  this gateway nor a relay; when it succeeds the list of good members changes only by moving the one
  that answered to its front, and when it fails the list does not change.
\<close>

theorem request_contacts_members:
  assumes "run_state (request N r p) s = (res, s')"
  shows "\<exists>ps. st_trace s' = st_trace s @ map (\<lambda>q. EvNode q r p) ps \<and> distinct ps \<and> length ps \<le> 64 \<and>
    (\<forall>q\<in>set ps. q \<noteq> nc_self N \<and> q \<notin> set (nc_relays N)) \<and>
    (case res of
       Inr bt \<Rightarrow> \<exists>q. q \<noteq> nc_self N \<and> q \<notin> set (nc_relays N) \<and> st_good s' = move_to_front q (st_good s)
     | Inl e \<Rightarrow> st_good s' = st_good s)"
  using request_sends [OF assms] by (auto simp: member_list_def)

lemma request_contacts_members_witness:
  "\<exists>ps. st_trace (snd (run_state (request sample_node_env routeGetUser (GetUserEvent ''u'')) (start_state ())))
     = map (\<lambda>q. EvNode q routeGetUser (GetUserEvent ''u'')) ps \<and> ''r1'' \<notin> set ps"
proof -
  obtain res s' where r: "run_state (request sample_node_env routeGetUser (GetUserEvent ''u'')) (start_state ()) = (res, s')"
    by fastforce
  from request_contacts_members [OF r] show ?thesis
    unfolding r by (auto simp: start_state_def sample_node_env_def)
qed

section \<open>The client keeps the requester's contract\<close>

lemma emits_all: "(\<And>e. e \<in> set es \<Longrightarrow> P e) \<Longrightarrow> emits P (emit_all es)"
  by (induction es) (auto intro!: keeps_intros)

lemma emits_remember [keeps_intros]: "emits P (remember p)"
  by (rule emitsI) (auto simp: remember_def extends_def)

lemma emits_get [keeps_intros]: "emits P State_Monad.get"
  by (rule emitsI) simp

lemma emits_members [keeps_intros]: "emits P (memberCandidates N)"
  unfolding memberCandidates_def by (auto intro!: keeps_intros)

lemma emits_try: "(\<And>q. P (EvNode q r p)) \<Longrightarrow> emits P (tryMembers N peers r p)"
  unfolding tryMembers_def
  by (auto intro!: keeps_intros emits_all split: option.split hedge_outcome.split)

lemma emits_request: "(\<And>q. P (EvNode q r p)) \<Longrightarrow> emits P (request N r p)"
  unfolding request_def by (auto intro!: keeps_intros emits_try)

lemma emits_owner: "(\<And>q r p. P (EvNode q r p)) \<Longrightarrow> emits P (ownerNode N u)"
  unfolding ownerNode_def by (auto intro!: keeps_intros emits_request)

interpretation node_client: requester "node_requester N" True "guarded g" for N :: "'w node_env" and g
  by unfold_locales
    (auto simp: node_requester_def requestUser_def intro!: keeps_intros emits_request emits_owner)

interpretation node_store: follower_store "nodeFollowerStore (node_requester N) C (resolveActorID E)" "env_ok E"
    "guarded (env_gw E)" for N :: "'w node_env" and C and E :: "('w, 'k) gw_env"
  by (unfold_locales)
    (auto simp: nodeFollowerStore_def intro!: node_client.emits_node_add node_client.emits_node_pages resolve_guarded)

end
