(* ===== verification/Outbound.thy ===== *)
theory Outbound
  imports Node_Client
begin

text \<open>
  Outbound federation (\<open>publish.go\<close>, \<open>outbound.go\<close>, \<open>tweetpoller.go\<close>): delivery of an activity to all
  followers, the lazily federated set of users with its scanner, the poller of a user's follows and
  the poller of their tweets.
\<close>

section \<open>Delivery to followers\<close>

definition deliver_one :: "('w, 'k) gw_env \<Rightarrow> string \<Rightarrow> activity \<Rightarrow> string \<Rightarrow> ('w, unit) gw" where
  "deliver_one E localUser doc actor = do {
     r \<leftarrow> remoteInbox E actor;
     (case r of
        Inl e \<Rightarrow> ret ()
      | Inr inbox \<Rightarrow> do { _ \<leftarrow> postSigned E localUser inbox doc; ret () })
   }"

text \<open>The fan-out; \<open>cancelled\<close> says whether the context is found done while waiting for the semaphore.\<close>

fun deliver_each ::
  "('w, 'k) gw_env \<Rightarrow> ('w \<Rightarrow> bool \<times> 'w) \<Rightarrow> string \<Rightarrow> activity \<Rightarrow> string list \<Rightarrow> ('w, unit) gw" where
  "deliver_each E cancelled localUser doc [] = ret ()"
| "deliver_each E cancelled localUser doc (a # as) = do {
     c \<leftarrow> world cancelled;
     if c then ret ()
     else do { deliver_one E localUser doc a; deliver_each E cancelled localUser doc as }
   }"

definition deliverToFollowers ::
  "('w, 'k) gw_env \<Rightarrow> 'w followerStore \<Rightarrow> ('w \<Rightarrow> bool \<times> 'w) \<Rightarrow> string \<Rightarrow> activity \<Rightarrow> ('w, unit) gw" where
  "deliverToFollowers E F cancelled localUser doc = do {
     r \<leftarrow> fs_List F localUser;
     (case r of
        Inl e \<Rightarrow> ret ()
      | Inr actors \<Rightarrow> deliver_each E cancelled localUser doc actors)
   }"

definition publishNote ::
  "('w, 'k) gw_env \<Rightarrow> 'w followerStore \<Rightarrow> ('w \<Rightarrow> bool \<times> 'w) \<Rightarrow> string \<Rightarrow> tweet \<Rightarrow> ('w, unit) gw" where
  "publishNote E F cancelled localUser t =
     deliverToFollowers E F cancelled localUser (buildCreateNote (env_lib E) (env_gw E) localUser t)"

text \<open>\<open>federateTweetAsync\<close> publishes, in a goroutine, in the name of the tweet's own author field.\<close>

definition federateTweetAsync ::
  "('w, 'k) gw_env \<Rightarrow> 'w followerStore \<Rightarrow> ('w \<Rightarrow> bool \<times> 'w) \<Rightarrow> tweet \<Rightarrow> ('w, unit) gw" where
  "federateTweetAsync E F cancelled t = publishNote E F cancelled (t_UserId t) t"

definition update_activity :: "gateway \<Rightarrow> string \<Rightarrow> string \<Rightarrow> warpnetUser \<Rightarrow> activity" where
  "update_activity g token localUser wu =
     (let actor = actorID g localUser in
      Activity (CtxList [asContext, secContext] []) (actor @ ''#update-'' @ token) typeUpdate actor
        (ObjActor (buildActor g wu)) [asPublic] [actor @ pathFollowers])"

definition sendActorUpdate ::
  "('w, 'k) gw_env \<Rightarrow> (string \<Rightarrow> ('w, warpnetUser option) gw) \<Rightarrow> 'w followerStore \<Rightarrow> ('w \<Rightarrow> bool \<times> 'w) \<Rightarrow>
    string \<Rightarrow> ('w, unit) gw" where
  "sendActorUpdate E source F cancelled localUser = do {
     u \<leftarrow> source localUser;
     (case u of
        None \<Rightarrow> ret ()
      | Some wu \<Rightarrow> do {
          tok \<leftarrow> world (env_token E);
          deliverToFollowers E F cancelled localUser (update_activity (env_gw E) tok localUser wu)
        })
   }"

section \<open>The federated set\<close>

text \<open>\<open>outboundFederation\<close>: the users with running pollers, and the count of consecutive empty scans.\<close>

record fed =
  fd_started :: "string set"
  fd_empty :: "string \<Rightarrow> nat"

definition new_fed :: fed where
  "new_fed = \<lparr>fd_started = {}, fd_empty = (\<lambda>_. 0)\<rparr>"

definition federating :: "fed \<Rightarrow> string \<Rightarrow> bool" where
  "federating f u \<longleftrightarrow> u \<in> fd_started f"

definition fed_start :: "string \<Rightarrow> fed \<Rightarrow> fed" where
  "fed_start u f = (if u = [] \<or> u \<in> fd_started f then f else f\<lparr>fd_started := insert u (fd_started f)\<rparr>)"

definition fed_stop :: "string \<Rightarrow> fed \<Rightarrow> fed" where
  "fed_stop u f = (if u \<notin> fd_started f then f else f\<lparr>fd_started := fd_started f - {u}\<rparr>)"

definition emptyScansToStop :: nat where "emptyScansToStop = 2"
definition federationScanPageSize :: nat where "federationScanPageSize = 100"
definition federationScanMaxPages :: nat where "federationScanMaxPages = 100"

text \<open>What one read of a user's followers does.\<close>

definition scan_read :: "string \<Rightarrow> gw_error + string list \<Rightarrow> fed \<Rightarrow> fed" where
  "scan_read u r f = (case r of
     Inl e \<Rightarrow> f
   | Inr urls \<Rightarrow>
       if urls \<noteq> [] then fed_start u (f\<lparr>fd_empty := (fd_empty f)(u := 0)\<rparr>)
       else let f1 = f\<lparr>fd_empty := (fd_empty f)(u := Suc (fd_empty f u))\<rparr> in
         if fd_empty f1 u \<ge> emptyScansToStop then fed_stop u f1 else f1)"

fun scan_users :: "'w followerStore \<Rightarrow> user list \<Rightarrow> fed \<Rightarrow> ('w, fed) gw" where
  "scan_users F [] f = ret f"
| "scan_users F (u # us) f =
     (if usr_Network u = mastodonNetwork then scan_users F us f
      else do {
        r \<leftarrow> fs_List F (usr_Id u);
        scan_users F us (scan_read (usr_Id u) r f)
      })"

fun scan_pages ::
  "nat \<Rightarrow> 'w nodeRequester \<Rightarrow> node_codec \<Rightarrow> 'w followerStore \<Rightarrow> string \<Rightarrow> string \<Rightarrow> fed \<Rightarrow> ('w, fed) gw" where
  "scan_pages 0 R C F scanUser cursor f = ret f"
| "scan_pages (Suc n) R C F scanUser cursor f = do {
     r \<leftarrow> nr_request R routeGetUsers (GetAllUsersEvent scanUser (Some federationScanPageSize)
            (if cursor \<noteq> [] then Some cursor else None));
     (case r of
        Inl e \<Rightarrow> ret f
      | Inr bt \<Rightarrow>
          (case dc_users C bt of
             None \<Rightarrow> ret f
           | Some (us, cursor') \<Rightarrow> do {
               f' \<leftarrow> scan_users F us f;
               if us = [] \<or> cursor' = [] \<or> cursor' = cursor then ret f'
               else scan_pages n R C F scanUser cursor' f'
             }))
   }"

definition scan ::
  "'w nodeRequester \<Rightarrow> node_codec \<Rightarrow> 'w followerStore \<Rightarrow> string \<Rightarrow> fed \<Rightarrow> ('w, fed) gw" where
  "scan R C F scanUser f = scan_pages federationScanMaxPages R C F scanUser [] f"

section \<open>The follow poller\<close>

text \<open>
  The decision of one poll, on the known and the current actor URLs (a Go map each, here a list
  without duplicates): the new known set, and the actors to follow and to unfollow.
\<close>

definition poll_decision ::
  "string list option \<Rightarrow> string list \<Rightarrow> string list option \<times> string list \<times> string list" where
  "poll_decision known current = (case known of
     None \<Rightarrow> (Some current, [], [])
   | Some k \<Rightarrow>
       if current = [] \<and> k \<noteq> [] then (Some k, [], [])
       else (Some current, [u \<leftarrow> current. u \<notin> set k], [u \<leftarrow> k. u \<notin> set current]))"

fun each :: "(string \<Rightarrow> ('w, unit) gw) \<Rightarrow> string list \<Rightarrow> ('w, unit) gw" where
  "each f [] = ret ()"
| "each f (x # xs) = do { f x; each f xs }"

definition follow_poll ::
  "'w nodeRequester \<Rightarrow> node_codec \<Rightarrow> 'w resolver \<Rightarrow> string \<Rightarrow> (string \<Rightarrow> ('w, unit) gw) \<Rightarrow> (string \<Rightarrow> ('w, unit) gw) \<Rightarrow>
    string list option \<Rightarrow> ('w, string list option) gw" where
  "follow_poll R C res owner onFollow onUnfollow known = do {
     r \<leftarrow> nr_requestUser R owner routeGetFollowings (getFollowersEvent owner None None);
     (case r of
        Inl e \<Rightarrow> ret known
      | Inr bt \<Rightarrow>
          if nodeResponseError C bt \<noteq> None then ret known
          else (case dc_followings C bt of
              None \<Rightarrow> ret known
            | Some (ids, _) \<Rightarrow> do {
                urls \<leftarrow> resolve_ids res ids;
                let (known', added, removed) = poll_decision known (remdups urls) in do {
                  each onFollow added;
                  each onUnfollow removed;
                  ret known'
                }
              }))
   }"

section \<open>The tweet poller\<close>

definition publishableTweet :: "tweet \<Rightarrow> string \<Rightarrow> bool" where
  "publishableTweet t owner \<longleftrightarrow>
     t_UserId t = owner \<and> t_RetweetedBy t = None \<and> (t_ParentId t = None \<or> t_ParentId t = Some [])"

text \<open>The seen set is an expirable cache of a third-party package: \<open>Contains\<close> and \<open>Add\<close>.\<close>

record 'w seen_cache =
  sn_has :: "string \<Rightarrow> 'w \<Rightarrow> bool"
  sn_add :: "string \<Rightarrow> 'w \<Rightarrow> 'w"

definition tweets_fetch :: "'w nodeRequester \<Rightarrow> node_codec \<Rightarrow> string \<Rightarrow> ('w, tweet list) gw" where
  "tweets_fetch R C owner = do {
     r \<leftarrow> nr_requestUser R owner routeGetTweets (GetAllTweetsEvent owner [] [] None None);
     ret (case r of
        Inl e \<Rightarrow> []
      | Inr bt \<Rightarrow> (case dc_tweets C bt of None \<Rightarrow> [] | Some (ts, _) \<Rightarrow> ts))
   }"

fun seed_seen :: "'w seen_cache \<Rightarrow> tweet list \<Rightarrow> ('w, unit) gw" where
  "seed_seen S [] = ret ()"
| "seed_seen S (t # ts) = do { world_do (sn_add S (t_Id t)); seed_seen S ts }"

text \<open>The body of \<open>poll\<close>: the tweets that are published, in order.\<close>

fun poll_seen :: "'w seen_cache \<Rightarrow> string \<Rightarrow> (tweet \<Rightarrow> ('w, unit) gw) \<Rightarrow> tweet list \<Rightarrow> ('w, tweet list) gw" where
  "poll_seen S owner publish [] = ret []"
| "poll_seen S owner publish (t # ts) = do {
     old \<leftarrow> world (\<lambda>w. (sn_has S (t_Id t) w, w));
     world_do (sn_add S (t_Id t));
     if old \<or> \<not> publishableTweet t owner then poll_seen S owner publish ts
     else do { publish t; ps \<leftarrow> poll_seen S owner publish ts; ret (t # ps) }
   }"

definition poll_start :: "'w nodeRequester \<Rightarrow> node_codec \<Rightarrow> 'w seen_cache \<Rightarrow> string \<Rightarrow> ('w, unit) gw" where
  "poll_start R C S owner = do { ts \<leftarrow> tweets_fetch R C owner; seed_seen S ts }"

definition poll ::
  "'w nodeRequester \<Rightarrow> node_codec \<Rightarrow> 'w seen_cache \<Rightarrow> string \<Rightarrow> (tweet \<Rightarrow> ('w, unit) gw) \<Rightarrow> ('w, tweet list) gw" where
  "poll R C S owner publish = do { ts \<leftarrow> tweets_fetch R C owner; poll_seen S owner publish ts }"

section \<open>Deliveries are guarded\<close>

lemma deliver_one_guarded [keeps_intros]: "env_ok E \<Longrightarrow> guarded_by E (deliver_one E u doc a)"
  unfolding deliver_one_def by (auto intro!: keeps_intros)

lemma deliver_each_guarded [keeps_intros]: "env_ok E \<Longrightarrow> guarded_by E (deliver_each E c u doc as)"
  by (induction as) (auto intro!: keeps_intros)

context follower_store begin

lemma deliveries: "ok \<Longrightarrow> (\<And>as. emits P (deliver_each E c u doc as)) \<Longrightarrow> emits P (deliverToFollowers E F c u doc)"
  unfolding deliverToFollowers_def by (auto intro!: keeps_intros list)

lemma scanning: "ok \<Longrightarrow> emits P (scan_users F us f)"
  by (induction us arbitrary: f) (auto intro!: keeps_intros list)

end

text \<open>
  Publishing a tweet, and refreshing a profile, reaches followers through the guard.  Over the
  production store, whose lists come from a Warpnet node and whose actor URLs come from WebFinger, every
  request of the fan-out is guarded.
\<close>

theorem publishing_guarded:
  assumes "env_ok E" "F = nodeFollowerStore (node_requester N) C (resolveActorID E)"
  shows "guarded_by E (publishNote E F cancelled u t) \<and>
    guarded_by E (sendActorUpdate E (nodeSource_GetUser (node_requester N) C) F cancelled u)"
proof -
  have d: "guarded_by E (deliverToFollowers E F cancelled u doc)" for doc
    unfolding assms(2) using assms(1) by (intro node_store.deliveries deliver_each_guarded)
  have "guarded_by E (nodeSource_GetUser (node_requester N) C u)"
    unfolding nodeSource_GetUser_def by (intro keeps_intros node_client.request) simp
  with d show ?thesis
    unfolding publishNote_def sendActorUpdate_def by (auto intro!: keeps_intros)
qed

text \<open>A node client that knows no other node.\<close>

definition sample_idle_node :: "http_response list node_env" where
  "sample_idle_node = \<lparr>nc_self = ''gw'', nc_relays = [], nc_has_dht = False, nc_table = (\<lambda>w. ([], w)), nc_refresh = (\<lambda>w. w),
     nc_schedule = (\<lambda>_ _ _ w. ([], w)), nc_stream = (\<lambda>_ _ _ w. (None, w)), nc_owner_get = (\<lambda>_ w. (None, w)),
     nc_owner_add = (\<lambda>_ _ w. w), nc_owner_remove = (\<lambda>_ w. w), nc_decode_peer = (\<lambda>_. None),
     nc_codec = nc_codec sample_node_env\<rparr>"

lemma publishing_guarded_witness:
  "guarded_by (sample_env []) (publishNote (sample_env []) (nodeFollowerStore (node_requester sample_idle_node)
      (nc_codec sample_node_env) (resolveActorID (sample_env []))) (\<lambda>w. (False, w)) ''alice'' zero_tweet)"
  using publishing_guarded [OF sample_env_ok refl] by blast

section \<open>When federation stops\<close>

text \<open>The number of empty reads since the last read that found a follower; failed reads do not count.\<close>

definition trailing_step :: "gw_error + string list \<Rightarrow> nat \<Rightarrow> nat" where
  "trailing_step r n = (case r of Inl e \<Rightarrow> n | Inr urls \<Rightarrow> if urls = [] then Suc n else 0)"

definition trailing_empty :: "(gw_error + string list) list \<Rightarrow> nat" where
  "trailing_empty rs = fold trailing_step rs 0"

definition some_follower :: "(gw_error + string list) list \<Rightarrow> bool" where
  "some_follower rs \<longleftrightarrow> (\<exists>r\<in>set rs. case r of Inl e \<Rightarrow> False | Inr urls \<Rightarrow> urls \<noteq> [])"

lemma scan_read_other: "v \<noteq> u \<Longrightarrow> federating (scan_read u r f) v = federating f v"
  by (auto simp: scan_read_def federating_def fed_start_def fed_stop_def Let_def split: sum.split)

lemma scan_read_empty: "fd_empty (scan_read u r f) u = trailing_step r (fd_empty f u)"
  by (auto simp: scan_read_def fed_start_def fed_stop_def Let_def trailing_step_def split: sum.split)

lemma scan_read_federating:
  "u \<noteq> [] \<Longrightarrow> federating (scan_read u r f) u \<longleftrightarrow>
     (case r of
        Inl e \<Rightarrow> federating f u
      | Inr urls \<Rightarrow> urls \<noteq> [] \<or> (federating f u \<and> Suc (fd_empty f u) < 2))"
  by (auto simp: scan_read_def federating_def fed_start_def fed_stop_def Let_def emptyScansToStop_def split: sum.split)

text \<open>
  The scanner's decision over any sequence of reads of a user's followers.  The user is federated
  exactly when some read found a follower and fewer than two empty reads have followed since; a read
  that failed neither counts nor resets the count, and no other user is affected.
\<close>

theorem scanner_needs_two_empty_reads:
  assumes "u \<noteq> []"
  shows "(let f = fold (scan_read u) reads new_fed in
    (federating f u \<longleftrightarrow> some_follower reads \<and> trailing_empty reads < 2) \<and>
    fd_empty f u = trailing_empty reads \<and> (\<forall>v. v \<noteq> u \<longrightarrow> \<not> federating f v))"
proof (induction reads rule: rev_induct)
  case Nil
  show ?case by (simp add: new_fed_def federating_def some_follower_def trailing_empty_def Let_def)
next
  case (snoc r reads)
  have t: "trailing_empty (reads @ [r]) = trailing_step r (trailing_empty reads)"
    by (simp add: trailing_empty_def)
  have s: "some_follower (reads @ [r]) \<longleftrightarrow> some_follower reads \<or> (case r of Inl e \<Rightarrow> False | Inr urls \<Rightarrow> urls \<noteq> [])"
    by (auto simp: some_follower_def)
  from snoc show ?case
    unfolding Let_def fold_append comp_def t s
    by (auto simp: scan_read_federating [OF assms] scan_read_empty scan_read_other trailing_step_def
        split: sum.splits)
qed

lemma scanner_needs_two_empty_reads_witness:
  "federating (fold (scan_read ''alice'') [Inr [''a''], Inr []] new_fed) ''alice'' \<and>
   \<not> federating (fold (scan_read ''alice'') [Inr [''a''], Inr [], Inl ErrNode, Inr []] new_fed) ''alice''"
proof -
  have ne: "''alice'' \<noteq> []" by simp
  show ?thesis
    using scanner_needs_two_empty_reads [OF ne, of "[Inr [''a''], Inr []]"]
      scanner_needs_two_empty_reads [OF ne, of "[Inr [''a''], Inr [], Inl ErrNode, Inr []]"]
    by (simp add: Let_def some_follower_def trailing_empty_def trailing_step_def)
qed

text \<open>
  A user whose followers were read as empty before is started when a Follow is accepted, but the count
  is not reset then: the first empty read afterwards stops the federation that the Follow started.
\<close>

lemma stale_empty_count:
  assumes "u \<noteq> []" "fd_empty f u \<ge> 1"
  shows "federating (fed_start u f) u \<and> \<not> federating (scan_read u (Inr []) (fed_start u f)) u"
  using assms by (simp add: scan_read_federating) (simp add: federating_def fed_start_def)

section \<open>Follows told to remote instances\<close>

text \<open>
  The follow poller tells remote instances exactly the changes.  The first poll only records a
  baseline.  After that, what it has told (the known set, plus the follows, minus the unfollows of the
  round) is always the new known set; it never follows an actor already known, never unfollows one that
  is not, tells no actor twice in a round, and does nothing in a round that reads no follow at all while
  some were known.
\<close>

theorem follow_poll_tells_changes:
  assumes "distinct current" "\<forall>k. known = Some k \<longrightarrow> distinct k"
  shows "(case poll_decision known current of (known', added, removed) \<Rightarrow>
     distinct (added @ removed) \<and>
     (case known of
        None \<Rightarrow> known' = Some current \<and> added = [] \<and> removed = []
      | Some k \<Rightarrow> \<exists>k'. known' = Some k' \<and> distinct k' \<and> set k' = (set k \<union> set added) - set removed \<and>
          set added \<inter> set k = {} \<and> set removed \<subseteq> set k \<and>
          (current \<noteq> [] \<or> k = [] \<longrightarrow> set k' = set current) \<and>
          (current = [] \<longrightarrow> added = [] \<and> removed = [])))"
  using assms by (auto simp: poll_decision_def split: option.split)

lemma follow_poll_tells_changes_witness:
  "(case poll_decision (Some [''a'', ''b'']) [''b'', ''c''] of (known', added, removed) \<Rightarrow>
     distinct (added @ removed))"
proof -
  have d: "distinct [''b'', ''c'']" "\<forall>k. Some [''a'', ''b''] = Some k \<longrightarrow> distinct k" by simp_all
  from follow_poll_tells_changes [OF d] show ?thesis by (simp split: prod.splits)
qed

text \<open>
  A follow whose id fails to resolve in one round is missing from the current set, and the poller
  tells its instance an Undo although the user still follows it.
\<close>

lemma unresolved_follow_is_undone:
  assumes "isBridgedUserID a" "isBridgedUserID b"
    and "\<And>s. run_state (res a) s = (Inl ErrNetwork, s)" "\<And>s. run_state (res b) s = (Inr ub, s)" "ua \<noteq> ub"
  shows "run_state (resolve_ids res [a, b]) s = ([ub], s)"
    and "poll_decision (Some [ua, ub]) [ub] = (Some [ub], [], [ua])"
  using assms by (simp_all add: poll_decision_def)

section \<open>Tweets are published once\<close>

definition seen_ok :: "'w seen_cache \<Rightarrow> (tweet \<Rightarrow> ('w, unit) gw) \<Rightarrow> bool" where
  "seen_ok S publish \<longleftrightarrow> (\<forall>i w. sn_has S i (sn_add S i w)) \<and>
     (\<forall>i j w. i \<noteq> j \<longrightarrow> sn_has S i (sn_add S j w) = sn_has S i w) \<and>
     (\<forall>i t s. sn_has S i (st_world (snd (run_state (publish t) s))) = sn_has S i (st_world s))"

lemma poll_seen_once:
  assumes ok: "seen_ok S publish" and "run_state (poll_seen S owner publish ts) s = (ps, s')"
  shows "distinct (map t_Id ps) \<and> set ps \<subseteq> set ts \<and>
    (\<forall>t\<in>set ps. \<not> sn_has S (t_Id t) (st_world s) \<and> publishableTweet t owner) \<and>
    (\<forall>i. sn_has S i (st_world s') \<longleftrightarrow> sn_has S i (st_world s) \<or> i \<in> t_Id ` set ts)"
  using assms(2)
proof (induction ts arbitrary: s ps)
  case (Cons t ts)
  let ?s1 = "s\<lparr>st_world := sn_add S (t_Id t) (st_world s)\<rparr>"
  have h1: "sn_has S i (st_world ?s1) \<longleftrightarrow> sn_has S i (st_world s) \<or> i = t_Id t" for i
    using ok by (cases "i = t_Id t") (simp_all add: seen_ok_def)
  show ?case
  proof (cases "sn_has S (t_Id t) (st_world s) \<or> \<not> publishableTweet t owner")
    case True
    then have "run_state (poll_seen S owner publish ts) ?s1 = (ps, s')" using Cons.prems by auto
    from Cons.IH [OF this] h1 show ?thesis by auto
  next
    case False
    obtain s2 where s2: "run_state (publish t) ?s1 = ((), s2)" by (metis old.unit.exhaust surj_pair)
    obtain qs where qs: "run_state (poll_seen S owner publish ts) s2 = (qs, s')" "ps = t # qs"
      using Cons.prems False s2 by (auto split: prod.splits)
    have h2: "sn_has S i (st_world s2) \<longleftrightarrow> sn_has S i (st_world s) \<or> i = t_Id t" for i
      using ok s2 h1 [of i] unfolding seen_ok_def by (metis snd_conv)
    from Cons.IH [OF qs(1)] h2 False qs(2) show ?thesis by auto
  qed
qed simp

text \<open>
  The tweet poller publishes a tweet at most once and never replays history.  In a poll every
  published tweet is publishable (the owner's own, original and top-level), had not been seen before
  the poll, and no id is published twice; and every fetched id is seen afterwards, so that no later
  poll publishes it again.
\<close>

theorem poll_publishes_once:
  assumes "seen_ok S publish" "run_state (poll R C S owner publish) s = (ps, s')"
  shows "distinct (map t_Id ps) \<and>
    (\<forall>t\<in>set ps. publishableTweet t owner \<and> sn_has S (t_Id t) (st_world s')) \<and>
    (\<exists>ts s1. run_state (tweets_fetch R C owner) s = (ts, s1) \<and> set ps \<subseteq> set ts \<and>
       (\<forall>t\<in>set ps. \<not> sn_has S (t_Id t) (st_world s1)) \<and>
       (\<forall>t\<in>set ts. sn_has S (t_Id t) (st_world s')))"
proof -
  obtain ts s1 where f: "run_state (tweets_fetch R C owner) s = (ts, s1)"
    and p: "run_state (poll_seen S owner publish ts) s1 = (ps, s')"
    using assms(2) by (auto simp: poll_def split: prod.splits)
  from poll_seen_once [OF assms(1) p] f show ?thesis by blast
qed

definition sample_seen :: "string set seen_cache" where
  "sample_seen = \<lparr>sn_has = (\<lambda>i w. i \<in> w), sn_add = insert\<rparr>"

definition sample_requester :: "string set nodeRequester" where
  "sample_requester = \<lparr>nr_request = (\<lambda>_ _. ret (Inr ''b'')), nr_requestUser = (\<lambda>_ _ _. ret (Inr ''b''))\<rparr>"

definition sample_codec :: node_codec where
  "sample_codec = (nc_codec sample_node_env)\<lparr>dc_tweets := (\<lambda>_. Some
     ([zero_tweet\<lparr>t_Id := ''1'', t_UserId := ''alice''\<rparr>, zero_tweet\<lparr>t_Id := ''1'', t_UserId := ''alice''\<rparr>], []))\<rparr>"

lemma poll_publishes_once_witness:
  "\<exists>ps s'. run_state (poll sample_requester sample_codec sample_seen ''alice'' (\<lambda>_. ret ())) (start_state {})
     = (ps, s') \<and> distinct (map t_Id ps)"
proof -
  have ok: "seen_ok sample_seen (\<lambda>_. ret ())" by (simp add: seen_ok_def sample_seen_def)
  obtain ps s' where "run_state (poll sample_requester sample_codec sample_seen ''alice'' (\<lambda>_. ret ())) (start_state {})
     = (ps, s')" by fastforce
  with poll_publishes_once [OF ok this] show ?thesis by blast
qed

text \<open>
  A tweet is always publishable for its own author: for the gossiped tweets that \<open>federateTweetAsync\<close>
  receives, where the owner is the tweet's own author field, the check excludes only retweets and
  replies.
\<close>

lemma publishable_for_its_author:
  "publishableTweet t (t_UserId t) \<longleftrightarrow> t_RetweetedBy t = None \<and> (t_ParentId t = None \<or> t_ParentId t = Some [])"
  by (simp add: publishableTweet_def)

end
