(* ===== verification/Federation.thy ===== *)
theory Federation
  imports Outbound
begin

text \<open>
  How outbound federation runs over time (\<open>outbound.go\<close>, \<open>tweetpoller.go\<close>): the pollers that \<open>start\<close>
  spawns and \<open>stop\<close> cancels, under any interleaving with accepted Follows and scans, and the rounds of
  one tweet poller and one follow poller.
\<close>

section \<open>Pollers under contexts\<close>

text \<open>
  A goroutine of \<open>start\<close>, with the number of the context it was started under.  The state adds to
  \<open>fed\<close> the context behind each entry of \<open>started\<close>, the contexts cancelled so far, the goroutines that
  have not returned, and whether the context of the whole federation is done.
\<close>

datatype poller_kind = TweetPoller | FollowPoller | ActorUpdate

record goroutine =
  go_kind :: poller_kind
  go_user :: string
  go_ctx :: nat

record fed_sys =
  fy_started :: "string \<rightharpoonup> nat"
  fy_empty :: "string \<Rightarrow> nat"
  fy_next :: nat
  fy_cancelled :: "nat set"
  fy_down :: bool
  fy_running :: "goroutine list"

definition new_sys :: fed_sys where
  "new_sys = \<lparr>fy_started = Map.empty, fy_empty = (\<lambda>_. 0), fy_next = 0, fy_cancelled = {}, fy_down = False, fy_running = []\<rparr>"

definition ctx_done :: "fed_sys \<Rightarrow> goroutine \<Rightarrow> bool" where
  "ctx_done s p \<longleftrightarrow> fy_down s \<or> go_ctx p \<in> fy_cancelled s"

definition sys_start :: "string \<Rightarrow> fed_sys \<Rightarrow> fed_sys" where
  "sys_start u s =
     (if u = [] \<or> fy_started s u \<noteq> None then s
      else s\<lparr>fy_started := (fy_started s)(u \<mapsto> fy_next s), fy_next := Suc (fy_next s),
        fy_running := fy_running s @ map (\<lambda>k. \<lparr>go_kind = k, go_user = u, go_ctx = fy_next s\<rparr>)
          [TweetPoller, FollowPoller, ActorUpdate]\<rparr>)"

definition sys_stop :: "string \<Rightarrow> fed_sys \<Rightarrow> fed_sys" where
  "sys_stop u s = (case fy_started s u of
     None \<Rightarrow> s
   | Some c \<Rightarrow> s\<lparr>fy_started := (fy_started s)(u := None), fy_cancelled := insert c (fy_cancelled s)\<rparr>)"

text \<open>What a scan does with one read of a user's followers.\<close>

definition sys_scan :: "string \<Rightarrow> gw_error + string list \<Rightarrow> fed_sys \<Rightarrow> fed_sys" where
  "sys_scan u r s = (case r of
     Inl e \<Rightarrow> s
   | Inr urls \<Rightarrow>
       if urls \<noteq> [] then sys_start u (s\<lparr>fy_empty := (fy_empty s)(u := 0)\<rparr>)
       else let s1 = s\<lparr>fy_empty := (fy_empty s)(u := Suc (fy_empty s u))\<rparr> in
         if fy_empty s1 u \<ge> emptyScansToStop then sys_stop u s1 else s1)"

text \<open>
  The steps, in any order: a Follow is accepted, the scanner treats a read, a poller whose context is
  done returns from its loop, or a profile update has been sent, and the process shuts down.  A poller
  leaves its loop nowhere else; its rounds do not touch this state.
\<close>

inductive sys_step :: "fed_sys \<Rightarrow> fed_sys \<Rightarrow> bool" where
  ss_follow: "sys_step s (sys_start u s)"
| ss_scan: "sys_step s (sys_scan u r s)"
| ss_return: "p \<in> set (fy_running s) \<Longrightarrow> ctx_done s p \<or> go_kind p = ActorUpdate \<Longrightarrow>
    sys_step s (s\<lparr>fy_running := remove1 p (fy_running s)\<rparr>)"
| ss_down: "sys_step s (s\<lparr>fy_down := True\<rparr>)"

inductive_cases sys_stepE: "sys_step s s'"

inductive sys_reach :: "fed_sys \<Rightarrow> bool" where
  sr_new: "sys_reach new_sys"
| sr_step: "sys_reach s \<Longrightarrow> sys_step s s' \<Longrightarrow> sys_reach s'"

definition sys_abs :: "fed_sys \<Rightarrow> fed" where
  "sys_abs s = \<lparr>fd_started = dom (fy_started s), fd_empty = fy_empty s\<rparr>"

definition live :: "fed_sys \<Rightarrow> poller_kind \<Rightarrow> string \<Rightarrow> goroutine list" where
  "live s k u = [p \<leftarrow> fy_running s. go_kind p = k \<and> go_user p = u \<and> \<not> ctx_done s p]"

section \<open>The federated set is the abstraction\<close>

lemma abs_start: "sys_abs (sys_start u s) = fed_start u (sys_abs s)"
  by (auto simp: sys_abs_def sys_start_def fed_start_def)

lemma abs_stop: "sys_abs (sys_stop u s) = fed_stop u (sys_abs s)"
  by (auto simp: sys_abs_def sys_stop_def fed_stop_def split: option.split)

lemma abs_empty: "sys_abs (s\<lparr>fy_empty := e\<rparr>) = (sys_abs s)\<lparr>fd_empty := e\<rparr>"
  by (simp add: sys_abs_def)

lemma abs_fields [simp]: "fd_started (sys_abs s) = dom (fy_started s)" "fd_empty (sys_abs s) = fy_empty s"
  by (simp_all add: sys_abs_def)

lemma abs_scan: "sys_abs (sys_scan u r s) = scan_read u r (sys_abs s)"
  by (auto simp: sys_scan_def scan_read_def abs_start abs_stop abs_empty Let_def split: sum.split)

section \<open>The invariant\<close>

text \<open>
  Contexts are fresh, each started user has its own, and a goroutine whose context is not cancelled
  belongs to the current entry of its user, with exactly one poller of each kind per entry.
\<close>

definition fresh_contexts :: "fed_sys \<Rightarrow> bool" where
  "fresh_contexts s \<longleftrightarrow>
     (\<forall>c\<in>ran (fy_started s). c < fy_next s \<and> c \<notin> fy_cancelled s) \<and> (\<forall>c\<in>fy_cancelled s. c < fy_next s) \<and>
     (\<forall>p\<in>set (fy_running s). go_ctx p < fy_next s) \<and> inj_on (fy_started s) (dom (fy_started s))"

definition owned_contexts :: "fed_sys \<Rightarrow> bool" where
  "owned_contexts s \<longleftrightarrow> (\<forall>p\<in>set (fy_running s). go_ctx p \<notin> fy_cancelled s \<longrightarrow>
     fy_started s (go_user p) = Some (go_ctx p))"

definition one_of_each :: "fed_sys \<Rightarrow> bool" where
  "one_of_each s \<longleftrightarrow> (\<not> fy_down s \<longrightarrow> (\<forall>k u. k \<noteq> ActorUpdate \<longrightarrow>
     length (live s k u) = (if fy_started s u = None then 0 else 1)))"

definition sys_inv :: "fed_sys \<Rightarrow> bool" where
  "sys_inv s \<longleftrightarrow> fresh_contexts s \<and> owned_contexts s \<and> one_of_each s"

lemma inv_start:
  assumes "sys_inv s"
  shows "sys_inv (sys_start u s)"
proof (cases "u = [] \<or> fy_started s u \<noteq> None")
  case False
  let ?s = "sys_start u s"
  have f: "fresh_contexts s" "owned_contexts s" "one_of_each s" using assms by (simp_all add: sys_inv_def)
  then have new: "fy_next s \<notin> fy_cancelled s" "fy_next s \<notin> ran (fy_started s)"
    by (auto simp: fresh_contexts_def)
  have "fresh_contexts ?s"
    using f(1) False new(2)
    by (auto simp: fresh_contexts_def sys_start_def inj_on_def dom_def ran_def less_Suc_eq)
  moreover have "owned_contexts ?s"
    using f(1,2) False unfolding owned_contexts_def fresh_contexts_def sys_start_def
    by (auto split: if_splits)
  moreover have "one_of_each ?s"
    unfolding one_of_each_def
  proof (intro impI allI)
    fix k v assume d: "\<not> fy_down ?s" "k \<noteq> ActorUpdate"
    then have n: "length (live s k v) = (if fy_started s v = None then 0 else 1)"
      using f(3) False by (simp add: one_of_each_def sys_start_def)
    have "live ?s k v = live s k v @ (if v = u then [\<lparr>go_kind = k, go_user = u, go_ctx = fy_next s\<rparr>] else [])"
      using d False new(1) by (cases k) (auto simp: live_def sys_start_def ctx_done_def)
    with n False show "length (live ?s k v) = (if fy_started ?s v = None then 0 else 1)"
      by (auto simp: sys_start_def)
  qed
  ultimately show ?thesis by (simp add: sys_inv_def)
qed (use assms in \<open>auto simp: sys_start_def\<close>)

lemma inv_stop:
  assumes "sys_inv s"
  shows "sys_inv (sys_stop u s)"
proof (cases "fy_started s u")
  case (Some c)
  let ?s = "sys_stop u s"
  have f: "fresh_contexts s" "owned_contexts s" "one_of_each s" using assms by (simp_all add: sys_inv_def)
  have s': "?s = s\<lparr>fy_started := (fy_started s)(u := None), fy_cancelled := insert c (fy_cancelled s)\<rparr>"
    using Some by (simp add: sys_stop_def)
  have c: "c < fy_next s" "c \<notin> fy_cancelled s" using f(1) Some by (auto simp: fresh_contexts_def ran_def)
  have inj: "v = u" if "fy_started s v = Some c" for v
    using f(1) Some that by (auto simp: fresh_contexts_def inj_on_def dom_def)
  have ctx: "go_ctx p = c \<longleftrightarrow> go_user p = u" if "p \<in> set (fy_running s)" "go_ctx p \<notin> fy_cancelled s" for p
  proof -
    have "fy_started s (go_user p) = Some (go_ctx p)" using f(2) that by (simp add: owned_contexts_def)
    with Some inj show ?thesis by (metis option.inject)
  qed
  have "fresh_contexts ?s"
    using f(1) c inj by (auto simp: fresh_contexts_def s' ran_def inj_on_def dom_def)
  moreover have "owned_contexts ?s"
    using f(2) ctx by (auto simp: owned_contexts_def s')
  moreover have "one_of_each ?s"
    unfolding one_of_each_def
  proof (intro impI allI)
    fix k v assume d: "\<not> fy_down ?s" "k \<noteq> ActorUpdate"
    then have n: "length (live s k v) = (if fy_started s v = None then 0 else 1)"
      using f(3) by (simp add: one_of_each_def s')
    have "live ?s k v = (if v = u then [] else live s k v)"
      using ctx c(2) d(1) by (auto simp: live_def ctx_done_def s' filter_empty_conv intro!: filter_cong)
    with n show "length (live ?s k v) = (if fy_started ?s v = None then 0 else 1)"
      by (cases "v = u"; cases "fy_started s v") (simp_all add: s')
  qed
  ultimately show ?thesis by (simp add: sys_inv_def)
qed (use assms in \<open>simp add: sys_stop_def\<close>)

lemma down_keeps [simp]: "fy_down (sys_start u s) = fy_down s" "fy_down (sys_stop u s) = fy_down s"
    "fy_down (sys_scan u r s) = fy_down s"
  by (simp_all add: sys_scan_def sys_start_def sys_stop_def Let_def split: option.split sum.split)

lemmas inv_defs = sys_inv_def fresh_contexts_def owned_contexts_def one_of_each_def

lemma inv_empty: "sys_inv s \<Longrightarrow> sys_inv (s\<lparr>fy_empty := e\<rparr>)"
  by (simp add: inv_defs live_def ctx_done_def)

lemma inv_return:
  assumes "sys_inv s" "ctx_done s p \<or> go_kind p = ActorUpdate"
  shows "sys_inv (s\<lparr>fy_running := remove1 p (fy_running s)\<rparr>)"
proof -
  have "live (s\<lparr>fy_running := remove1 p (fy_running s)\<rparr>) k u = live s k u" if "k \<noteq> ActorUpdate" for k u
    using assms(2) that by (auto simp: live_def ctx_done_def filter_remove1 remove1_idem)
  moreover have "set (remove1 p (fy_running s)) \<subseteq> set (fy_running s)" by (rule set_remove1_subset)
  ultimately show ?thesis
    using assms(1) by (simp add: inv_defs subset_iff)
qed

lemma reach_inv: "sys_reach s \<Longrightarrow> sys_inv s"
proof (induction rule: sys_reach.induct)
  case sr_new
  show ?case by (simp add: inv_defs new_sys_def live_def)
next
  case (sr_step s s')
  from sr_step(2) show ?case
  proof (cases rule: sys_step.cases)
    case (ss_scan u r)
    then show ?thesis
      by (auto simp: sys_scan_def Let_def sr_step(3) inv_start inv_stop inv_empty split: sum.split)
  next
    case ss_down
    with sr_step(3) show ?thesis by (simp add: inv_defs)
  qed (auto simp: sr_step(3) inv_start inv_return)
qed

text \<open>
  C16: a user's posts and follows are polled exactly while the user is federated.  In every reachable
  state, before shutdown, a user has exactly one running tweet poller and one follow poller with a live
  context if it is in the federated set, and none otherwise, however accepted Follows, scans, restarts
  and the return of cancelled pollers interleave; after shutdown no poller is live.  And every step
  changes the federated set as \<open>fed_start\<close> or the scanner's decision \<open>scan_read\<close> does, or not at all.
\<close>

theorem one_live_poller_per_user:
  assumes "sys_reach s"
  shows "(\<forall>k u. k \<noteq> ActorUpdate \<longrightarrow>
       length (live s k u) = (if \<not> fy_down s \<and> federating (sys_abs s) u then 1 else 0)) \<and>
    (\<forall>s'. sys_step s s' \<longrightarrow> sys_abs s' = sys_abs s \<or>
       (\<exists>u. sys_abs s' = fed_start u (sys_abs s)) \<or> (\<exists>u r. sys_abs s' = scan_read u r (sys_abs s)))"
proof (rule conjI)
  have "live s k u = []" if "fy_down s" for k u
    using that by (simp add: live_def ctx_done_def)
  moreover have "federating (sys_abs s) u \<longleftrightarrow> fy_started s u \<noteq> None" for u
    by (auto simp: federating_def)
  ultimately show "\<forall>k u. k \<noteq> ActorUpdate \<longrightarrow>
       length (live s k u) = (if \<not> fy_down s \<and> federating (sys_abs s) u then 1 else 0)"
    using reach_inv [OF assms] by (cases "fy_down s") (simp_all add: sys_inv_def one_of_each_def)
next
  have same: "sys_abs (s\<lparr>fy_running := r\<rparr>) = sys_abs s" "sys_abs (s\<lparr>fy_down := d\<rparr>) = sys_abs s" for r d
    by (simp_all add: sys_abs_def)
  show "\<forall>s'. sys_step s s' \<longrightarrow> sys_abs s' = sys_abs s \<or>
       (\<exists>u. sys_abs s' = fed_start u (sys_abs s)) \<or> (\<exists>u r. sys_abs s' = scan_read u r (sys_abs s))"
  proof (intro allI impI)
    fix s' assume "sys_step s s'"
    then show "sys_abs s' = sys_abs s \<or> (\<exists>u. sys_abs s' = fed_start u (sys_abs s)) \<or> (\<exists>u r. sys_abs s' = scan_read u r (sys_abs s))"
      using same by (cases rule: sys_step.cases) (metis abs_start abs_scan)+
  qed
qed

lemma one_live_poller_per_user_witness:
  "length (live (sys_start ''alice'' (sys_scan ''alice'' (Inr []) (sys_scan ''alice'' (Inr [])
     (sys_start ''alice'' new_sys)))) TweetPoller ''alice'') = 1"
proof -
  let ?s = "sys_scan ''alice'' (Inr []) (sys_scan ''alice'' (Inr []) (sys_start ''alice'' new_sys))"
  have "sys_reach (sys_start ''alice'' ?s)"
    by (rule sr_step [OF _ ss_follow], rule sr_step [OF _ ss_scan], rule sr_step [OF _ ss_scan],
        rule sr_step [OF _ ss_follow], rule sr_new)
  from one_live_poller_per_user [OF this]
  have "length (live (sys_start ''alice'' ?s) TweetPoller ''alice'')
      = (if \<not> fy_down (sys_start ''alice'' ?s) \<and> federating (sys_abs (sys_start ''alice'' ?s)) ''alice'' then 1 else 0)"
    by (meson poller_kind.distinct(3))
  moreover have "federating (sys_abs (sys_start ''alice'' ?s)) ''alice''"
    by (simp only: abs_start) (simp add: federating_def fed_start_def)
  ultimately show ?thesis by (simp add: new_sys_def)
qed

section \<open>The rounds of a tweet poller\<close>

text \<open>\<open>run\<close> for a number of ticks before its context is done: the tweets published in each round.\<close>

primrec poll_rounds ::
  "nat \<Rightarrow> 'w nodeRequester \<Rightarrow> node_codec \<Rightarrow> 'w seen_cache \<Rightarrow> string \<Rightarrow> (tweet \<Rightarrow> ('w, unit) gw) \<Rightarrow> ('w, tweet list list) gw" where
  "poll_rounds 0 R C S owner publish = ret []"
| "poll_rounds (Suc n) R C S owner publish = do {
     ps \<leftarrow> poll R C S owner publish;
     rest \<leftarrow> poll_rounds n R C S owner publish;
     ret (ps # rest)
   }"

definition tweet_run ::
  "nat \<Rightarrow> 'w nodeRequester \<Rightarrow> node_codec \<Rightarrow> 'w seen_cache \<Rightarrow> string \<Rightarrow> (tweet \<Rightarrow> ('w, unit) gw) \<Rightarrow> ('w, tweet list list) gw" where
  "tweet_run n R C S owner publish = do { poll_start R C S owner; poll_rounds n R C S owner publish }"

text \<open>The cache remembers while the poller runs, and neither publishing nor reading touches it.\<close>

definition cache_undisturbed :: "'w seen_cache \<Rightarrow> 'w nodeRequester \<Rightarrow> (tweet \<Rightarrow> ('w, unit) gw) \<Rightarrow> bool" where
  "cache_undisturbed S R publish \<longleftrightarrow> seen_ok S publish \<and>
     (\<forall>u r p i s. sn_has S i (st_world (snd (run_state (nr_requestUser R u r p) s))) = sn_has S i (st_world s))"

lemma fetch_undisturbed:
  "cache_undisturbed S R publish \<Longrightarrow> run_state (tweets_fetch R C owner) s = (ts, s') \<Longrightarrow>
    sn_has S i (st_world s') = sn_has S i (st_world s)"
  unfolding cache_undisturbed_def tweets_fetch_def by (auto split: prod.splits) (metis snd_conv)+

lemma seed_sees:
  "seen_ok S publish \<Longrightarrow> run_state (seed_seen S ts) s = ((), s') \<Longrightarrow>
    sn_has S i (st_world s') \<longleftrightarrow> sn_has S i (st_world s) \<or> i \<in> t_Id ` set ts"
proof (induction ts arbitrary: s)
  case (Cons t ts)
  have "sn_has S i (sn_add S (t_Id t) w) \<longleftrightarrow> sn_has S i w \<or> i = t_Id t" for w
    using Cons.prems(1) by (cases "i = t_Id t") (simp_all add: seen_ok_def)
  with Cons show ?case by auto
qed simp

lemma rounds_once:
  assumes ok: "cache_undisturbed S R publish" and "run_state (poll_rounds n R C S owner publish) s = (rounds, s')"
  shows "distinct (map t_Id (concat rounds)) \<and>
    (\<forall>t\<in>set (concat rounds). publishableTweet t owner \<and> \<not> sn_has S (t_Id t) (st_world s))"
  using assms(2)
proof (induction n arbitrary: s rounds)
  case (Suc n)
  obtain ps s2 rest where p: "run_state (poll R C S owner publish) s = (ps, s2)"
    and r: "run_state (poll_rounds n R C S owner publish) s2 = (rest, s')" "rounds = ps # rest"
    using Suc.prems by (auto split: prod.splits)
  obtain ts s1 where f: "run_state (tweets_fetch R C owner) s = (ts, s1)"
    and q: "run_state (poll_seen S owner publish ts) s1 = (ps, s2)"
    using p by (auto simp: poll_def split: prod.splits)
  have "seen_ok S publish" using ok by (simp add: cache_undisturbed_def)
  note q = poll_seen_once [OF this q]
  have old: "\<not> sn_has S (t_Id t) (st_world s)" if "t \<in> set ps" for t
    using q fetch_undisturbed [OF ok f] that by blast
  have later: "sn_has S i (st_world s2)" if "sn_has S i (st_world s) \<or> i \<in> t_Id ` set ps" for i
    using q fetch_undisturbed [OF ok f] that by (meson image_mono subset_iff)
  note rest = Suc.IH [OF r(1)]
  have "i \<notin> t_Id ` set ps \<and> \<not> sn_has S i (st_world s)" if "i \<in> t_Id ` set (concat rest)" for i
  proof -
    from that obtain t where "t \<in> set (concat rest)" "i = t_Id t" by (rule imageE)
    with rest have "\<not> sn_has S i (st_world s2)" by blast
    with later show ?thesis by metis
  qed
  then have "t_Id ` set ps \<inter> t_Id ` set (concat rest) = {}" "\<forall>t\<in>set (concat rest). \<not> sn_has S (t_Id t) (st_world s)"
    by blast+
  with rest q old show ?case by (simp add: r(2) ball_Un)
qed simp

text \<open>
  Over its whole life a tweet poller publishes each tweet once, and none from before it started, as long
  as the cache forgets nothing; \<open>Seen_Cache\<close> says what happens when it does.
  However many rounds it runs, and whatever the nodes answer in them, the tweets published in all rounds
  together have distinct ids, are original top-level tweets of the owner, and none has the id of
  a tweet that was read at the start.
\<close>

theorem poller_never_repeats:
  assumes "cache_undisturbed S R publish" "run_state (tweet_run n R C S owner publish) s = (rounds, s')"
  shows "distinct (map t_Id (concat rounds)) \<and> length rounds = n \<and>
    (\<forall>t\<in>set (concat rounds). t_UserId t = owner \<and> t_RetweetedBy t = None \<and>
       (t_ParentId t = None \<or> t_ParentId t = Some []) \<and>
       t_Id t \<notin> t_Id ` set (fst (run_state (tweets_fetch R C owner) s)))"
proof -
  obtain ts s1 where f: "run_state (tweets_fetch R C owner) s = (ts, s1)" by fastforce
  obtain s2 where d: "run_state (seed_seen S ts) s1 = ((), s2)" by (metis old.unit.exhaust surj_pair)
  have r: "run_state (poll_rounds n R C S owner publish) s2 = (rounds, s')"
    using assms(2) f d by (simp add: tweet_run_def poll_start_def)
  have "sn_has S i (st_world s2)" if "i \<in> t_Id ` set ts" for i
    using seed_sees [OF _ d] assms(1) that by (auto simp: cache_undisturbed_def)
  moreover have "length rounds = n"
    using r by (induction n arbitrary: s2 rounds) (auto split: prod.splits)
  ultimately show ?thesis
    using rounds_once [OF assms(1) r] f by (auto simp: publishableTweet_def)
qed

lemma poller_never_repeats_witness:
  "\<exists>rounds s'. run_state (tweet_run 3 sample_requester sample_codec sample_seen ''alice'' (\<lambda>_. ret ())) (start_state {})
     = (rounds, s') \<and> distinct (map t_Id (concat rounds)) \<and> length rounds = 3"
proof -
  have ok: "cache_undisturbed sample_seen sample_requester (\<lambda>_. ret ())"
    by (simp add: cache_undisturbed_def seen_ok_def sample_seen_def sample_requester_def)
  obtain rounds s' where "run_state (tweet_run 3 sample_requester sample_codec sample_seen ''alice'' (\<lambda>_. ret ()))
      (start_state {}) = (rounds, s')" by fastforce
  with poller_never_repeats [OF ok this] show ?thesis by blast
qed

section \<open>The rounds of a follow poller\<close>

text \<open>\<open>followPoller.run\<close> for a number of rounds.\<close>

primrec follow_run ::
  "nat \<Rightarrow> 'w nodeRequester \<Rightarrow> node_codec \<Rightarrow> 'w resolver \<Rightarrow> string \<Rightarrow> (string \<Rightarrow> ('w, unit) gw) \<Rightarrow> (string \<Rightarrow> ('w, unit) gw) \<Rightarrow>
    string list option \<Rightarrow> ('w, string list option) gw" where
  "follow_run 0 R C res owner onFollow onUnfollow known = ret known"
| "follow_run (Suc n) R C res owner onFollow onUnfollow known = do {
     known' \<leftarrow> follow_poll R C res owner onFollow onUnfollow known;
     follow_run n R C res owner onFollow onUnfollow known'
   }"

text \<open>
  What a poll reads: the actors of the owner's followings, or nothing if the request fails, is answered
  with an error or does not decode.
\<close>

definition followings_now :: "'w nodeRequester \<Rightarrow> node_codec \<Rightarrow> 'w resolver \<Rightarrow> string \<Rightarrow> ('w, string list option) gw" where
  "followings_now R C res owner = do {
     r \<leftarrow> nr_requestUser R owner routeGetFollowings (getFollowersEvent owner None None);
     (case r of
        Inl e \<Rightarrow> ret None
      | Inr bt \<Rightarrow>
          (case (if nodeResponseError C bt = None then dc_followings C bt else None) of
             None \<Rightarrow> ret None
           | Some (ids, _) \<Rightarrow> do { urls \<leftarrow> resolve_ids res ids; ret (Some (remdups urls)) }))
   }"

text \<open>What the polls of a run read, each in the state in which it starts.\<close>

primrec follow_reads ::
  "nat \<Rightarrow> 'w nodeRequester \<Rightarrow> node_codec \<Rightarrow> 'w resolver \<Rightarrow> string \<Rightarrow> (string \<Rightarrow> ('w, unit) gw) \<Rightarrow> (string \<Rightarrow> ('w, unit) gw) \<Rightarrow>
    string list option \<Rightarrow> 'w gw_state \<Rightarrow> string list option list" where
  "follow_reads 0 R C res owner onFollow onUnfollow known s = []"
| "follow_reads (Suc n) R C res owner onFollow onUnfollow known s =
     fst (run_state (followings_now R C res owner) s) #
     (let (known', s') = run_state (follow_poll R C res owner onFollow onUnfollow known) s
      in follow_reads n R C res owner onFollow onUnfollow known' s')"

text \<open>
  A callback that writes down that it was called, and with whom, before it does what it does, which may
  fail.  The notes \<open>T\<close> are a part of the world that only \<open>mark\<close> writes to.
\<close>

definition recorded :: "(bool \<Rightarrow> string \<Rightarrow> 'w \<Rightarrow> 'w) \<Rightarrow> bool \<Rightarrow> (string \<Rightarrow> ('w, unit) gw) \<Rightarrow> string \<Rightarrow> ('w, unit) gw" where
  "recorded mark b callback u = do { world_do (mark b u); callback u }"

definition unnoted :: "('w \<Rightarrow> (bool \<times> string) list) \<Rightarrow> ('w, 'a) gw \<Rightarrow> bool" where
  "unnoted T m \<longleftrightarrow> (\<forall>s. T (st_world (snd (run_state m s))) = T (st_world s))"

definition notes_calls ::
  "('w \<Rightarrow> (bool \<times> string) list) \<Rightarrow> (bool \<Rightarrow> string \<Rightarrow> 'w \<Rightarrow> 'w) \<Rightarrow> 'w nodeRequester \<Rightarrow> 'w resolver \<Rightarrow>
    (string \<Rightarrow> ('w, unit) gw) \<Rightarrow> (string \<Rightarrow> ('w, unit) gw) \<Rightarrow> bool" where
  "notes_calls T mark R res onFollow onUnfollow \<longleftrightarrow>
     (\<forall>b u w. T (mark b u w) = T w @ [(b, u)]) \<and> (\<forall>u r p. unnoted T (nr_requestUser R u r p)) \<and>
     (\<forall>h. unnoted T (res h)) \<and> (\<forall>u. unnoted T (onFollow u)) \<and> (\<forall>u. unnoted T (onUnfollow u))"

lemma unnotedD: "unnoted T m \<Longrightarrow> run_state m s = (a, s') \<Longrightarrow> T (st_world s') = T (st_world s)"
  unfolding unnoted_def by (metis snd_conv)

lemma unnoted_resolving:
  assumes "\<And>h. unnoted T (res h)" shows "unnoted T (resolve_ids res is)"
  unfolding unnoted_def
proof
  show "T (st_world (snd (run_state (resolve_ids res is) s))) = T (st_world s)" for s
  proof (induction "is" arbitrary: s)
    case (Cons i "is")
    obtain r s1 where s1: "run_state (res i) s = (r, s1)" by fastforce
    with unnotedD [OF assms this] Cons [of s] Cons [of s1] show ?case
      by (cases "run_state (resolve_ids res is) s1") simp
  qed simp
qed

lemma each_recorded:
  assumes "\<And>b u w. T (mark b u w) = T w @ [(b, u)]" "\<And>u. unnoted T (f u)"
  shows "T (st_world (snd (run_state (each (recorded mark b f) us) s))) = T (st_world s) @ map (Pair b) us"
proof (induction us arbitrary: s)
  case (Cons u us)
  obtain s1 where s1: "run_state (f u) (s\<lparr>st_world := mark b u (st_world s)\<rparr>) = ((), s1)"
    by (metis old.unit.exhaust surj_pair)
  with unnotedD [OF assms(2) s1] assms(1) Cons [of s1] show ?case by (simp add: recorded_def)
qed simp

text \<open>One round: the decision on what was read is carried out, or nothing is, if nothing was read.\<close>

lemma poll_round:
  assumes n: "notes_calls T mark R res F U"
    and run: "run_state (follow_poll R C res owner (recorded mark True F) (recorded mark False U) known) s = (known', s')"
  shows "case fst (run_state (followings_now R C res owner) s) of
      None \<Rightarrow> known' = known \<and> T (st_world s') = T (st_world s)
    | Some cur \<Rightarrow> distinct cur \<and> (\<exists>added removed. poll_decision known cur = (known', added, removed) \<and>
        T (st_world s') = T (st_world s) @ map (Pair True) added @ map (Pair False) removed)"
proof -
  note u = n [unfolded notes_calls_def]
  obtain r s1 where r: "run_state (nr_requestUser R owner routeGetFollowings (getFollowersEvent owner None None)) s = (r, s1)"
    by fastforce
  have q: "unnoted T (nr_requestUser R owner routeGetFollowings (getFollowersEvent owner None None))" using u by simp
  have 1: "T (st_world s1) = T (st_world s)" by (rule unnotedD [OF q r])
  show ?thesis
  proof (cases "\<exists>bt ids c. r = Inr bt \<and> nodeResponseError C bt = None \<and> dc_followings C bt = Some (ids, c)")
    case False
    have "known' = known \<and> s' = s1" "fst (run_state (followings_now R C res owner) s) = None"
      using run r False by (auto simp: follow_poll_def followings_now_def split: sum.splits if_splits option.splits)
    with 1 show ?thesis by simp
  next
    case True
    then obtain bt ids c where d: "r = Inr bt" "nodeResponseError C bt = None" "dc_followings C bt = Some (ids, c)" by blast
    obtain urls s2 where s2: "run_state (resolve_ids res ids) s1 = (urls, s2)" by fastforce
    have "unnoted T (resolve_ids res ids)" by (rule unnoted_resolving) (use u in simp)
    then have 2: "T (st_world s2) = T (st_world s)" using unnotedD [OF _ s2] 1 by metis
    obtain k a b where dec: "poll_decision known (remdups urls) = (k, a, b)" by (metis prod_cases3)
    obtain s3 where s3: "run_state (each (recorded mark True F) a) s2 = ((), s3)" by (metis old.unit.exhaust surj_pair)
    obtain s4 where s4: "run_state (each (recorded mark False U) b) s3 = ((), s4)" by (metis old.unit.exhaust surj_pair)
    have "T (st_world s3) = T (st_world s2) @ map (Pair True) a"
      using each_recorded [of T mark F True a s2] s3 u by simp
    moreover have "T (st_world s4) = T (st_world s3) @ map (Pair False) b"
      using each_recorded [of T mark U False b s3] s4 u by simp
    moreover have "known' = k" "s' = s4" using run r d s2 s3 s4 dec by (simp_all add: follow_poll_def)
    moreover have "fst (run_state (followings_now R C res owner) s) = Some (remdups urls)"
      using r d s2 by (simp add: followings_now_def)
    ultimately show ?thesis using 2 dec by simp
  qed
qed

text \<open>The calls made about an actor, in their order: true for a follow, false for an unfollow.\<close>

definition calls_about :: "string \<Rightarrow> (bool \<times> string) list \<Rightarrow> bool list" where
  "calls_about u es = map fst [e \<leftarrow> es. snd e = u]"

text \<open>The lists that count: a poll that reads an empty list after one that was not empty is held for a fault.\<close>

definition counted :: "string list option list \<Rightarrow> string list list" where
  "counted reads = [c \<leftarrow> somes reads. c \<noteq> []]"

lemma counted_simps [simp]:
  "counted [] = []" "counted (None # reads) = counted reads"
  "counted (Some c # reads) = (if c = [] then [] else [c]) @ counted reads"
  by (simp_all add: counted_def somes_def List.map_filter_simps)

lemma calls_of_a_list:
  "distinct us \<Longrightarrow> calls_about u (map (Pair b) us) = (if u \<in> set us then [b] else [])"
  unfolding calls_about_def by (induction us) (auto simp: filter_empty_conv)

lemma calls_about_append [simp]: "calls_about u (xs @ ys) = calls_about u xs @ calls_about u ys"
  by (simp add: calls_about_def)

lemma changes_Cons:
  "tl (remdups_adj (x # y # xs)) = (if x = y then [] else [y]) @ tl (remdups_adj (y # xs))"
  by (simp add: remdups_adj_Cons_alt)

lemma calls_of_a_round:
  assumes "poll_decision (Some k) cur = (known', added, removed)" "distinct k" "distinct cur" "cur \<noteq> []"
  shows "known' = Some cur" "calls_about u (map (Pair True) added @ map (Pair False) removed)
    = (if (u \<in> set k) = (u \<in> set cur) then [] else [u \<in> set cur])"
  using assms by (auto simp: poll_decision_def calls_of_a_list)

lemma follow_run_calls:
  assumes n: "notes_calls T mark R res F U" and "distinct k"
    and "run_state (follow_run n R C res owner (recorded mark True F) (recorded mark False U) (Some k)) s = (known', s')"
  shows "\<exists>es. T (st_world s') = T (st_world s) @ es \<and>
    (let lists = k # counted (follow_reads n R C res owner (recorded mark True F) (recorded mark False U) (Some k) s)
     in known' = Some (last lists) \<and> (\<forall>u. calls_about u es = tl (remdups_adj (map (\<lambda>c. u \<in> set c) lists))))"
  using assms(2,3)
proof (induction n arbitrary: k s)
  case 0
  then show ?case by (simp add: calls_about_def)
next
  case (Suc n)
  let ?F = "recorded mark True F" and ?U = "recorded mark False U"
  obtain k1 s1 where p: "run_state (follow_poll R C res owner ?F ?U (Some k)) s = (k1, s1)" by fastforce
  have rest: "run_state (follow_run n R C res owner ?F ?U k1) s1 = (known', s')" using Suc.prems(2) p by simp
  note round = poll_round [OF n p]
  show ?case
  proof (cases "fst (run_state (followings_now R C res owner) s)")
    case None
    with round have k: "k1 = Some k" "T (st_world s1) = T (st_world s)" by simp_all
    show ?thesis using Suc.IH [OF Suc.prems(1) rest [unfolded k]] p None k by simp
  next
    case (Some cur)
    with round obtain a b where cur: "distinct cur" and d: "poll_decision (Some k) cur = (k1, a, b)"
      and t: "T (st_world s1) = T (st_world s) @ map (Pair True) a @ map (Pair False) b" by auto
    show ?thesis
    proof (cases "cur = []")
      case True
      with d have k: "k1 = Some k" "a = []" "b = []" by (auto simp: poll_decision_def split: if_splits)
      show ?thesis using Suc.IH [OF Suc.prems(1) rest [unfolded k]] p Some True t k by simp
    next
      case False
      note c = calls_of_a_round [OF d Suc.prems(1) cur False]
      define later where "later = counted (follow_reads n R C res owner ?F ?U (Some cur) s1)"
      obtain es where es: "T (st_world s') = T (st_world s1) @ es" "known' = Some (last (cur # later))"
        and about: "\<And>u. calls_about u es = tl (remdups_adj (map (\<lambda>c. u \<in> set c) (cur # later)))"
        using Suc.IH [OF cur rest [unfolded c(1)]] unfolding Let_def later_def by blast
      have reads: "counted (follow_reads (Suc n) R C res owner ?F ?U (Some k) s) = cur # later"
        using p Some False c(1) by (simp add: later_def)
      have "calls_about u ((map (Pair True) a @ map (Pair False) b) @ es)
          = tl (remdups_adj (map (\<lambda>c. u \<in> set c) (k # cur # later)))" for u
        using c(2) [of u] about [of u] changes_Cons [of "u \<in> set k"] by (simp only: calls_about_append list.map)
      then show ?thesis unfolding reads Let_def
        using es t by (intro exI [of _ "(map (Pair True) a @ map (Pair False) b) @ es"]) simp
    qed
  qed
qed

text \<open>
  C18: a follow poller tells remote instances exactly the changes in the owner's followings.  Its callbacks
  may do anything, and may fail; \<open>recorded\<close> writes down each call before it is made, and the poller starts
  with nothing known.  Over any number of polls, nothing is known and nobody is told while no poll has read
  a list.  The first list read is the baseline and tells nobody, so followings from before the poller started
  are not sent again.  After that the lists that count are the baseline and each later list that is not
  empty (a failed poll and an emptied list change nothing): what is known is the last of them, and the
  calls about every actor, in their order, are the changes of its presence from one list to the next, a
  Follow where it appears, an Undo where it disappears and no call where it stays.
\<close>

theorem follows_told_are_the_changes:
  assumes n: "notes_calls T mark R res onFollow onUnfollow"
    and run: "run_state (follow_run n R C res owner (recorded mark True onFollow) (recorded mark False onUnfollow) None) s
      = (known, s')" and "T (st_world s) = []"
  shows "case somes (follow_reads n R C res owner (recorded mark True onFollow) (recorded mark False onUnfollow) None s) of
      [] \<Rightarrow> known = None \<and> T (st_world s') = []
    | baseline # later \<Rightarrow>
        (let lists = baseline # [c \<leftarrow> later. c \<noteq> []]
         in known = Some (last lists) \<and>
            (\<forall>u. calls_about u (T (st_world s')) = tl (remdups_adj (map (\<lambda>c. u \<in> set c) lists))))"
  using run assms(3)
proof (induction n arbitrary: s)
  case 0
  then show ?case by (simp add: somes_def)
next
  case (Suc n)
  let ?F = "recorded mark True onFollow" and ?U = "recorded mark False onUnfollow"
  obtain k s1 where p: "run_state (follow_poll R C res owner ?F ?U None) s = (k, s1)" by fastforce
  have rest: "run_state (follow_run n R C res owner ?F ?U k) s1 = (known, s')" using Suc.prems(1) p by simp
  show ?case
  proof (cases "fst (run_state (followings_now R C res owner) s)")
    case None
    with poll_round [OF n p] have k: "k = None" "T (st_world s1) = []" using Suc.prems(2) by simp_all
    have "somes (follow_reads (Suc n) R C res owner ?F ?U None s) = somes (follow_reads n R C res owner ?F ?U None s1)"
      using p None k by (simp add: somes_def List.map_filter_simps)
    with Suc.IH [OF rest [unfolded k(1)] k(2)] show ?thesis by simp
  next
    case (Some cur)
    with poll_round [OF n p] have k: "distinct cur" "k = Some cur" "T (st_world s1) = []"
      using Suc.prems(2) by (auto simp: poll_decision_def)
    have "somes (follow_reads (Suc n) R C res owner ?F ?U None s)
        = cur # somes (follow_reads n R C res owner ?F ?U (Some cur) s1)"
      using p Some k by (simp add: somes_def List.map_filter_simps)
    then show ?thesis
      using follow_run_calls [OF n k(1) rest [unfolded k(2)]] k(3) by (auto simp: counted_def Let_def)
  qed
qed

text \<open>
  A requester whose answers run out, and five polls: bob; bob and carol; an answer that does not decode;
  an empty list; carol.
\<close>

definition scripted_requester :: "(string list \<times> (bool \<times> string) list) nodeRequester" where
  "scripted_requester = \<lparr>nr_request = (\<lambda>_ _. ret (Inr ''b'')),
     nr_requestUser = (\<lambda>_ _ _. world (\<lambda>(bs, t). case bs of [] \<Rightarrow> (Inl ErrNode, bs, t) | b # rest \<Rightarrow> (Inr b, rest, t)))\<rparr>"

definition scripted_codec :: node_codec where
  "scripted_codec = (nc_codec sample_node_env)\<lparr>dc_error := (\<lambda>_. None), dc_followings := (\<lambda>b.
     if b = ''x'' then None
     else Some ((if CHR ''b'' \<in> set b then [''bob@m''] else []) @ (if CHR ''c'' \<in> set b then [''carol@m''] else []), []))\<rparr>"

definition write_down :: "bool \<Rightarrow> string \<Rightarrow> string list \<times> (bool \<times> string) list \<Rightarrow> string list \<times> (bool \<times> string) list" where
  "write_down b u w = (fst w, snd w @ [(b, u)])"

lemma follows_told_are_the_changes_witness:
  "\<exists>known s'. run_state (follow_run 5 scripted_requester scripted_codec (\<lambda>i. ret (Inr i)) ''alice''
       (recorded write_down True (\<lambda>_. ret ())) (recorded write_down False (\<lambda>_. ret ())) None)
     (start_state ([''b'', ''bc'', ''x'', [], ''c''], [])) = (known, s') \<and> known = Some [''carol@m''] \<and>
     calls_about ''carol@m'' (snd (st_world s')) = [True] \<and> calls_about ''bob@m'' (snd (st_world s')) = [False] \<and>
     calls_about ''dave@m'' (snd (st_world s')) = []"
proof -
  let ?run = "follow_run 5 scripted_requester scripted_codec (\<lambda>i. ret (Inr i)) ''alice''
    (recorded write_down True (\<lambda>_. ret ())) (recorded write_down False (\<lambda>_. ret ())) None"
  let ?s = "start_state ([''b'', ''bc'', ''x'', [], ''c''], []) :: (string list \<times> (bool \<times> string) list) gw_state"
  have n: "notes_calls snd write_down scripted_requester (\<lambda>i. ret (Inr i)) (\<lambda>_. ret ()) (\<lambda>_. ret ())"
    by (auto simp: notes_calls_def write_down_def unnoted_def scripted_requester_def split: list.splits prod.splits)
  obtain known s' where r: "run_state ?run ?s = (known, s')" by fastforce
  have "somes (follow_reads 5 scripted_requester scripted_codec (\<lambda>i. ret (Inr i)) ''alice''
      (recorded write_down True (\<lambda>_. ret ())) (recorded write_down False (\<lambda>_. ret ())) None ?s)
    = [[''bob@m''], [''bob@m'', ''carol@m''], [], [''carol@m'']]"
    by (simp add: eval_nat_numeral follow_poll_def followings_now_def scripted_requester_def scripted_codec_def
        nodeResponseError_def isBridgedUserID_def contains_def poll_decision_def recorded_def write_down_def
        start_state_def somes_def List.map_filter_simps)
  with follows_told_are_the_changes [OF n r] r show ?thesis by (simp add: start_state_def Let_def)
qed

end
