(* ===== verification/Pollers.thy ===== *)
theory Pollers
  imports Federation
begin

text \<open>
  What \<open>start\<close> spawns for a user (\<open>outbound.go\<close>, \<open>tweetpoller.go\<close>): the two pollers as the constructors
  make them, with the operations of the gateway as their callbacks.  The seen set is a cache of a
  third-party package, so the one that \<open>newTweetPoller\<close> makes is an argument here.
\<close>

definition tweetPollInterval :: int where "tweetPollInterval = 60 * 1000000000"
definition followPollInterval :: int where "followPollInterval = 30 * 1000000000"

record 'w tweetPoller =
  tp_req :: "'w nodeRequester"
  tp_owner :: string
  tp_interval :: int
  tp_seen :: "'w seen_cache"
  tp_publish :: "string \<Rightarrow> tweet \<Rightarrow> ('w, unit) gw"

definition newTweetPoller ::
  "'w nodeRequester \<Rightarrow> string \<Rightarrow> (string \<Rightarrow> tweet \<Rightarrow> ('w, unit) gw) \<Rightarrow> 'w seen_cache \<Rightarrow> 'w tweetPoller" where
  "newTweetPoller R owner publish seen =
     \<lparr>tp_req = R, tp_owner = owner, tp_interval = tweetPollInterval, tp_seen = seen, tp_publish = publish\<rparr>"

text \<open>\<open>run\<close> for a number of ticks.\<close>

definition run_tweet_poller :: "node_codec \<Rightarrow> nat \<Rightarrow> 'w tweetPoller \<Rightarrow> ('w, tweet list list) gw" where
  "run_tweet_poller C n p = tweet_run n (tp_req p) C (tp_seen p) (tp_owner p) (tp_publish p (tp_owner p))"

record 'w followPoller =
  fp_req :: "'w nodeRequester"
  fp_resolver :: "'w resolver"
  fp_owner :: string
  fp_onFollow :: "string \<Rightarrow> ('w, unit) gw"
  fp_onUnfollow :: "string \<Rightarrow> ('w, unit) gw"
  fp_interval :: int
  fp_known :: "string list option"

definition newFollowPoller ::
  "'w nodeRequester \<Rightarrow> 'w resolver \<Rightarrow> string \<Rightarrow> (string \<Rightarrow> ('w, unit) gw) \<Rightarrow> (string \<Rightarrow> ('w, unit) gw) \<Rightarrow> 'w followPoller" where
  "newFollowPoller R resolver owner onFollow onUnfollow =
     \<lparr>fp_req = R, fp_resolver = resolver, fp_owner = owner, fp_onFollow = onFollow, fp_onUnfollow = onUnfollow,
      fp_interval = followPollInterval, fp_known = None\<rparr>"

definition run_follow_poller :: "node_codec \<Rightarrow> nat \<Rightarrow> 'w followPoller \<Rightarrow> ('w, string list option) gw" where
  "run_follow_poller C n p =
     follow_run n (fp_req p) C (fp_resolver p) (fp_owner p) (fp_onFollow p) (fp_onUnfollow p) (fp_known p)"

section \<open>The callbacks\<close>

definition sendFollow :: "('w, 'k) gw_env \<Rightarrow> string \<Rightarrow> string \<Rightarrow> ('w, unit) gw" where
  "sendFollow E localUser remoteActorURL = deliverFollow E localUser remoteActorURL False"

definition sendUndoFollow :: "('w, 'k) gw_env \<Rightarrow> string \<Rightarrow> string \<Rightarrow> ('w, unit) gw" where
  "sendUndoFollow E localUser remoteActorURL = deliverFollow E localUser remoteActorURL True"

definition tweet_poller_of ::
  "('w, 'k) gw_env \<Rightarrow> 'w followerStore \<Rightarrow> ('w \<Rightarrow> bool \<times> 'w) \<Rightarrow> 'w nodeRequester \<Rightarrow> 'w seen_cache \<Rightarrow> string \<Rightarrow> 'w tweetPoller" where
  "tweet_poller_of E F cancelled R seen localUser = newTweetPoller R localUser (publishNote E F cancelled) seen"

definition follow_poller_of :: "('w, 'k) gw_env \<Rightarrow> 'w nodeRequester \<Rightarrow> string \<Rightarrow> 'w followPoller" where
  "follow_poller_of E R localUser =
     newFollowPoller R (resolveActorID E) localUser (sendFollow E localUser) (sendUndoFollow E localUser)"

section \<open>What the pollers emit\<close>

lemma emits_seed: "emits P (seed_seen S ts)"
  by (induction ts) (auto intro!: keeps_intros)

lemma emits_poll_seen: "(\<And>t. emits P (publish t)) \<Longrightarrow> emits P (poll_seen S owner publish ts)"
  by (induction ts) (auto intro!: keeps_intros)

lemma emits_each: "(\<And>x. emits P (f x)) \<Longrightarrow> emits P (each f xs)"
  by (induction xs) (auto intro!: keeps_intros)

context requester begin

lemma emits_tweets_fetch: "ok \<Longrightarrow> emits P (tweets_fetch R C owner)"
  unfolding tweets_fetch_def by (intro keeps_intros request_user)

lemma emits_rounds: "ok \<Longrightarrow> (\<And>t. emits P (publish t)) \<Longrightarrow> emits P (poll_rounds n R C S owner publish)"
  by (induction n) (auto simp: poll_def intro!: keeps_intros emits_tweets_fetch emits_poll_seen)

lemma emits_tweet_run: "ok \<Longrightarrow> (\<And>t. emits P (publish t)) \<Longrightarrow> emits P (tweet_run n R C S owner publish)"
  unfolding tweet_run_def poll_start_def by (intro keeps_intros emits_tweets_fetch emits_seed emits_rounds)

lemma emits_follow_poll:
  assumes "ok" "\<And>i. emits P (res i)" "\<And>a. emits P (onFollow a)" "\<And>a. emits P (onUnfollow a)"
  shows "emits P (follow_poll R C res owner onFollow onUnfollow known)"
  unfolding follow_poll_def Let_def
  by (auto intro!: keeps_intros request_user [OF assms(1)] resolve_ids_emits emits_each assms(2-4) split: prod.split)

lemma emits_follow_run:
  assumes "ok" "\<And>i. emits P (res i)" "\<And>a. emits P (onFollow a)" "\<And>a. emits P (onUnfollow a)"
  shows "emits P (follow_run n R C res owner onFollow onUnfollow known)"
  by (induction n arbitrary: known) (auto intro!: keeps_intros emits_follow_poll assms)

end

end
