(* ===== verification/Inbound.thy ===== *)
theory Inbound
  imports Notes
begin

text \<open>
  \<open>inbound.go\<close>: the translation of a verified inbound activity to the node route and event it
  becomes.  The clock and the random token are the arguments \<open>now\<close> and \<open>token\<close>.
\<close>

definition ingestedNoteID :: "string \<Rightarrow> gomap \<Rightarrow> string" where
  "ingestedNoteID token note =
     (if stringField note ''id'' \<noteq> [] then stringField note ''id''
      else if stringField note ''url'' \<noteq> [] then stringField note ''url''
      else token)"

text \<open>The event of a reply, and of a quote.\<close>

definition reply_event ::
  "gotime \<Rightarrow> string \<Rightarrow> string \<Rightarrow> gomap \<Rightarrow> string \<Rightarrow> string \<Rightarrow> string \<Rightarrow> tweet" where
  "reply_event now token actor obj owner parentID text =
     zero_tweet\<lparr>t_CreatedAt := now, t_Id := ingestedNoteID token obj, t_ParentId := Some parentID,
       t_ParentUserId := Some owner, t_RootId := parentID, t_Text := text,
       t_UserId := bridgedUserID actor, t_Username := handleFromActorURL actor\<rparr>"

definition quote_event :: "gotime \<Rightarrow> string \<Rightarrow> string \<Rightarrow> string \<Rightarrow> string \<Rightarrow> tweet" where
  "quote_event now actor qOwner tweetID text =
     zero_tweet\<lparr>t_Id := tweetID, t_CreatedAt := now, t_UserId := bridgedUserID actor,
       t_Username := handleFromActorURL actor, t_Text := text,
       t_RetweetedBy := Some (bridgedUserID actor), t_QuotedTweetId := Some tweetID,
       t_QuotedUserId := Some qOwner\<rparr>"

text \<open>The quoted URL a Create's note names.\<close>

definition create_quote_url :: "gomap \<Rightarrow> string \<Rightarrow> string" where
  "create_quote_url obj text =
     (let qURL = quotedNoteURL obj in
      case splitREQuote text of
        Some (qu, comment) \<Rightarrow> if qURL = [] \<and> comment \<noteq> [] then qu else qURL
      | None \<Rightarrow> qURL)"

definition translateCreate ::
  "warp_lib \<Rightarrow> gateway \<Rightarrow> gotime \<Rightarrow> string \<Rightarrow> string \<Rightarrow> gomap \<Rightarrow> (route \<times> payload) option" where
  "translateCreate L g now token actor obj =
     (let text = htmlToText L (stringField obj ''content'') in
      case parseLocalStatus g (stringField obj ''inReplyTo'') of
        Some (owner, parentID) \<Rightarrow>
          Some (routePostTweet, TweetPayload (reply_event now token actor obj owner parentID text))
      | None \<Rightarrow>
          (case parseLocalStatus g (create_quote_url obj text) of
             Some (qOwner, tweetID) \<Rightarrow>
               (let text' = (case stripQuoteFallback text of
                      Some stripped \<Rightarrow> if stripped \<noteq> [] then stripped else text
                    | None \<Rightarrow> text) in
                Some (routePostRetweet, TweetPayload (quote_event now actor qOwner tweetID text')))
           | None \<Rightarrow>
               (case splitREPrefix text of
                  None \<Rightarrow> None
                | Some (parentURL, rest) \<Rightarrow>
                    (case parseLocalStatus g parentURL of
                       None \<Rightarrow> None
                     | Some (owner, parentID) \<Rightarrow>
                         Some (routePostTweet, TweetPayload (reply_event now token actor obj owner parentID
                           (if rest \<noteq> [] then rest else text)))))))"

definition translateUndo :: "gateway \<Rightarrow> string \<Rightarrow> gomap \<Rightarrow> (route \<times> payload) option" where
  "translateUndo g actor obj =
     (if jget obj ''type'' = JStr typeFollow then
        (let owner = userFromActorURL (stringField obj ''object'') in
         if owner = [] then None
         else Some (routePostUnfollow, NewFollowEvent (bridgedUserID actor) owner))
      else if jget obj ''type'' = JStr typeLike then
        (case parseLocalStatus g (stringField obj ''object'') of
           None \<Rightarrow> None
         | Some (owner, tweetID) \<Rightarrow>
             Some (routePostUnreact, ReactionEvent tweetID owner (bridgedUserID actor) []))
      else if jget obj ''type'' = JStr typeAnnounce then
        (case parseLocalStatus g (stringField obj ''object'') of
           None \<Rightarrow> None
         | Some (_, tweetID) \<Rightarrow> Some (routePostUnretweet, UnretweetEvent tweetID (bridgedUserID actor)))
      else None)"

definition translateInbound ::
  "warp_lib \<Rightarrow> gateway \<Rightarrow> gotime \<Rightarrow> string \<Rightarrow> gomap \<Rightarrow> (route \<times> payload) option" where
  "translateInbound L g now token raw =
     (let actor = str_or_empty (jget raw ''actor'') in
      if actor = [] then None
      else if jget raw ''type'' = JStr typeLike then
        (case parseLocalStatus g (stringField raw ''object'') of
           None \<Rightarrow> None
         | Some (owner, tweetID) \<Rightarrow>
             Some (routePostReact,
               ReactionEvent tweetID owner (bridgedUserID actor) (lib_default_reaction L)))
      else if jget raw ''type'' = JStr typeAnnounce then
        (case parseLocalStatus g (stringField raw ''object'') of
           None \<Rightarrow> None
         | Some (owner, tweetID) \<Rightarrow>
             Some (routePostRetweet, TweetPayload (zero_tweet\<lparr>t_Id := tweetID, t_RootId := tweetID,
               t_UserId := owner, t_RetweetedBy := Some (bridgedUserID actor), t_CreatedAt := now\<rparr>)))
      else if jget raw ''type'' = JStr typeCreate then
        (case asMap (jget raw ''object'') of
           None \<Rightarrow> None
         | Some obj \<Rightarrow> translateCreate L g now token actor (Some obj))
      else if jget raw ''type'' = JStr typeUndo then
        (case asMap (jget raw ''object'') of
           None \<Rightarrow> None
         | Some obj \<Rightarrow> translateUndo g actor (Some obj))
      else None)"

section \<open>Properties\<close>

text \<open>The user on whose behalf the node carries out an event, and the payload kind of each route.\<close>

fun acting_user :: "payload \<Rightarrow> string" where
  "acting_user (ReactionEvent tid author reactor e) = reactor"
| "acting_user (NewFollowEvent follower following) = follower"
| "acting_user (UnretweetEvent tid retweeter) = retweeter"
| "acting_user (TweetPayload t) = (case t_RetweetedBy t of Some b \<Rightarrow> b | None \<Rightarrow> t_UserId t)"
| "acting_user _ = []"

definition inbound_route :: "route \<Rightarrow> payload \<Rightarrow> bool" where
  "inbound_route r p = (case p of
     ReactionEvent _ _ _ e \<Rightarrow> (r = routePostReact \<and> e \<noteq> []) \<or> (r = routePostUnreact \<and> e = [])
   | TweetPayload t \<Rightarrow> (r = routePostRetweet \<and> t_RetweetedBy t \<noteq> None) \<or>
       (r = routePostTweet \<and> t_RetweetedBy t = None \<and> t_ParentId t \<noteq> None)
   | NewFollowEvent _ f \<Rightarrow> r = routePostUnfollow \<and> f \<noteq> []
   | UnretweetEvent _ _ \<Rightarrow> r = routePostUnretweet
   | _ \<Rightarrow> False)"

lemma inbound_route_simps [simp]:
  "inbound_route r (ReactionEvent a b c e) \<longleftrightarrow> (r = routePostReact \<and> e \<noteq> []) \<or> (r = routePostUnreact \<and> e = [])"
  "inbound_route r (TweetPayload t) \<longleftrightarrow> (r = routePostRetweet \<and> t_RetweetedBy t \<noteq> None) \<or>
     (r = routePostTweet \<and> t_RetweetedBy t = None \<and> t_ParentId t \<noteq> None)"
  "inbound_route r (NewFollowEvent a f) \<longleftrightarrow> r = routePostUnfollow \<and> f \<noteq> []"
  "inbound_route r (UnretweetEvent a b) \<longleftrightarrow> r = routePostUnretweet"
  by (simp_all add: inbound_route_def)

lemma event_fields [simp]:
  "t_RetweetedBy (reply_event now token actor obj owner pid text) = None"
  "t_UserId (reply_event now token actor obj owner pid text) = bridgedUserID actor"
  "t_ParentId (reply_event now token actor obj owner pid text) = Some pid"
  "t_Id (reply_event now token actor obj owner pid text) = ingestedNoteID token obj"
  "t_RetweetedBy (quote_event now actor q tid text) = Some (bridgedUserID actor)"
  by (simp_all add: reply_event_def quote_event_def zero_tweet_def)

definition good_event :: "string \<Rightarrow> route \<times> payload \<Rightarrow> bool" where
  "good_event actor rp \<longleftrightarrow> acting_user (snd rp) = bridgedUserID actor \<and> inbound_route (fst rp) (snd rp)"

lemma translateCreate_good: "translateCreate L g now token actor obj = Some rp \<Longrightarrow> good_event actor rp"
  by (auto simp: translateCreate_def good_event_def Let_def split: option.splits)

lemma translateUndo_good: "translateUndo g actor obj = Some rp \<Longrightarrow> good_event actor rp"
  by (auto simp: translateUndo_def good_event_def Let_def split: option.splits if_splits)

lemma translateInbound_acting:
  assumes "translateInbound L g now token raw = Some (r, p)"
  shows "str_or_empty (jget raw ''actor'') \<noteq> [] \<and> acting_user p = bridgedUserID (str_or_empty (jget raw ''actor''))"
  using assms unfolding translateInbound_def Let_def
  by (auto simp: zero_tweet_def good_event_def simp del: type_defs split: if_splits option.splits prod.splits
      dest!: translateCreate_good translateUndo_good)

text \<open>
  C7: attribution.  Whatever an inbound activity is translated to, the node acts on behalf of the
  Warpnet id of the activity's own actor, never of another user; the id is always recognised as a
  bridged one, so that it cannot be mistaken for a Warpnet user; and the route fits the event.
\<close>

theorem inbound_attribution:
  assumes "lib_default_reaction L \<noteq> []" "translateInbound L g now token raw = Some (r, p)"
  shows "jget raw ''actor'' \<noteq> JNull \<and> acting_user p = bridgedUserID (str_or_empty (jget raw ''actor'')) \<and>
    isBridgedUserID (acting_user p) \<and> inbound_route r p"
proof -
  let ?a = "str_or_empty (jget raw ''actor'')"
  have "?a \<noteq> [] \<and> good_event ?a (r, p)"
    using assms unfolding translateInbound_def Let_def
    by (auto simp: zero_tweet_def good_event_def simp del: type_defs split: if_splits option.splits prod.splits
        dest!: translateCreate_good translateUndo_good)
  then show ?thesis using bridgedUserID_bridged by (auto simp: good_event_def)
qed

definition sample_like :: gomap where
  "sample_like = Some [(''type'', JStr ''Like''), (''actor'', JStr ''https://m.example/users/bob''),
     (''object'', JStr ''https://gw.example/users/alice/statuses/42'')]"

lemma sample_like_translates:
  "translateInbound sample_lib sample_gateway 0 ''t'' sample_like =
     Some (routePostReact, ReactionEvent ''42'' ''alice'' ''bob@m.example'' ''heart'')"
  by code_simp

lemma inbound_attribution_witness: "acting_user (ReactionEvent ''42'' ''alice'' ''bob@m.example'' ''heart'')
    = bridgedUserID ''https://m.example/users/bob''"
  using inbound_attribution [OF _ sample_like_translates]
  by (simp add: sample_lib_def) (simp add: sample_like_def)

text \<open>
  Likes and boosts of a published note, and their undoing, reach that tweet: the event names the
  tweet and the author the note was published under, and an Undo names the same tweet, author and
  reactor as the activity it undoes.
\<close>

theorem inbound_reaches_tweet:
  assumes g: "plain_gateway g" "id_segment u" "id_segment (t_Id t)" "url_tail tail"
    and a: "jget raw ''actor'' = JStr actor" "actor \<noteq> []"
    and o: "stringField raw ''object'' = n_ID (buildNote L g u t) @ tail"
    and un: "jget undo ''actor'' = JStr actor" "jget undo ''type'' = JStr typeUndo"
      "asMap (jget undo ''object'') = raw" "raw \<noteq> None"
  shows "(jget raw ''type'' = JStr typeLike \<longrightarrow>
      translateInbound L g now token raw =
        Some (routePostReact, ReactionEvent (t_Id t) u (bridgedUserID actor) (lib_default_reaction L)) \<and>
      translateInbound L g now token undo =
        Some (routePostUnreact, ReactionEvent (t_Id t) u (bridgedUserID actor) []))
    \<and> (jget raw ''type'' = JStr typeAnnounce \<longrightarrow>
      (\<exists>rt. translateInbound L g now token raw = Some (routePostRetweet, TweetPayload rt) \<and>
        t_Id rt = t_Id t \<and> t_UserId rt = u \<and> t_RetweetedBy rt = Some (bridgedUserID actor)) \<and>
      translateInbound L g now token undo =
        Some (routePostUnretweet, UnretweetEvent (t_Id t) (bridgedUserID actor)))"
proof -
  have p: "parseLocalStatus g (stringField raw ''object'') = Some (u, t_Id t)"
    unfolding o by (rule parse_note_id) (use g in auto)
  obtain kvs where raw: "raw = Some kvs" using un(4) by blast
  show ?thesis
    using p a un raw by (auto simp: translateInbound_def translateUndo_def zero_tweet_def)
qed

lemma inbound_reaches_tweet_witness:
  "translateInbound sample_lib sample_gateway 0 ''t''
     (Some [(''type'', JStr ''Undo''), (''actor'', JStr ''https://m.example/users/bob''),
       (''object'', JObj (the sample_like))])
   = Some (routePostUnreact, ReactionEvent ''42'' ''alice'' (bridgedUserID ''https://m.example/users/bob'') [])"
proof -
  have o: "stringField sample_like ''object'' =
      n_ID (buildNote sample_lib sample_gateway ''alice'' (zero_tweet\<lparr>t_Id := ''42''\<rparr>)) @ []"
    by code_simp
  show ?thesis
    using inbound_reaches_tweet [of sample_gateway "''alice''" "zero_tweet\<lparr>t_Id := ''42''\<rparr>" "[]" sample_like
        "''https://m.example/users/bob''" sample_lib "Some [(''type'', JStr ''Undo''),
          (''actor'', JStr ''https://m.example/users/bob''), (''object'', JObj (the sample_like))]" 0 "''t''", OF _ _ _ _ _ _ o]
      sample_plain id_segment_plain
    by (auto simp: sample_like_def)
qed

lemma translateCreate_reply:
  assumes "translateCreate L g now token actor obj = Some (routePostTweet, TweetPayload t)"
  obtains owner pid body where "t = reply_event now token actor obj owner pid body"
    "\<And>now' token'. translateCreate L g now' token' actor obj =
       Some (routePostTweet, TweetPayload (reply_event now' token' actor obj owner pid body))"
  using assms by (simp add: translateCreate_def Let_def split: option.splits prod.splits) blast+

lemma translateUndo_not_tweet: "translateUndo g actor obj \<noteq> Some (routePostTweet, p)"
  by (simp add: translateUndo_def Let_def split: option.split prod.split)

lemma translateInbound_reply:
  assumes "translateInbound L g now token raw = Some (routePostTweet, TweetPayload t)"
  obtains obj where "asMap (jget raw ''object'') = Some obj"
    "translateCreate L g now token (str_or_empty (jget raw ''actor'')) (Some obj)
      = Some (routePostTweet, TweetPayload t)"
    "\<And>now' token'. translateInbound L g now' token' raw =
      translateCreate L g now' token' (str_or_empty (jget raw ''actor'')) (Some obj)"
  using assms unfolding translateInbound_def Let_def
  by (simp add: translateUndo_not_tweet split: if_splits option.splits prod.splits)

lemma reply_event_again:
  "ingestedNoteID token obj = ingestedNoteID token' obj \<Longrightarrow>
    reply_event now' token' actor obj owner pid text =
      (reply_event now token actor obj owner pid text)\<lparr>t_CreatedAt := now'\<rparr>"
  by (simp add: reply_event_def)

definition sample_reply :: gomap where
  "sample_reply = Some [(''type'', JStr ''Create''), (''actor'', JStr ''https://m.example/users/bob''),
     (''object'', JObj [(''id'', JStr ''https://m.example/notes/9''), (''content'', JStr ''hello''),
        (''inReplyTo'', JStr ''https://gw.example/users/alice/statuses/42'')])]"

text \<open>
  Redelivery.  When a note has an id, every delivery of the same Create, whenever it arrives and
  whatever random token is drawn, yields the same reply with the same id; only its time differs.
\<close>

theorem redelivered_reply_same_id:
  assumes "translateInbound L g now token raw = Some (routePostTweet, TweetPayload t)"
    and "stringField (asMap (jget raw ''object'')) ''id'' \<noteq> []"
  shows "translateInbound L g now' token' raw = Some (routePostTweet, TweetPayload (t\<lparr>t_CreatedAt := now'\<rparr>))
    \<and> t_Id t = stringField (asMap (jget raw ''object'')) ''id''"
proof -
  obtain obj where obj: "asMap (jget raw ''object'') = Some obj"
    and c: "translateCreate L g now token (str_or_empty (jget raw ''actor'')) (Some obj)
      = Some (routePostTweet, TweetPayload t)"
    and e: "\<And>now' token'. translateInbound L g now' token' raw =
      translateCreate L g now' token' (str_or_empty (jget raw ''actor'')) (Some obj)"
    using translateInbound_reply [OF assms(1)] by blast
  have i: "ingestedNoteID tk (Some obj) = stringField (Some obj) ''id''" for tk
    using obj assms(2) by (simp add: ingestedNoteID_def)
  show ?thesis
    using translateCreate_reply [OF c] obj e by (metis (no_types, lifting) i event_fields(4) reply_event_again)
qed

lemma redelivered_reply_same_id_witness:
  "\<exists>t. translateInbound sample_lib sample_gateway 7 ''u'' sample_reply = Some (routePostTweet, TweetPayload t) \<and>
     t_Id t = ''https://m.example/notes/9''"
proof -
  have "translateInbound sample_lib sample_gateway 0 ''t'' sample_reply = Some (routePostTweet,
      TweetPayload (reply_event 0 ''t'' ''https://m.example/users/bob'' (asMap (jget sample_reply ''object''))
        ''alice'' ''42'' ''hello''))"
    by code_simp
  moreover have "stringField (asMap (jget sample_reply ''object'')) ''id'' = ''https://m.example/notes/9''"
    by code_simp
  ultimately show ?thesis
    using redelivered_reply_same_id [of sample_lib sample_gateway 0 "''t''" sample_reply _ 7 "''u''"] by fastforce
qed

end
