(* ===== verification/Inbox.thy ===== *)
theory Inbox
  imports Outbound Inbound
begin

text \<open>
  The inbox (\<open>inbox.go\<close>): verification and dispatch of inbound activities, the work they start, and
  the bounded pool that runs it.
\<close>

section \<open>Handling a delivery\<close>

text \<open>
  An inbound HTTP request, with its path, raw query and body.  \<open>rq_body\<close> is \<^const>\<open>None\<close> when reading
  the body fails.
\<close>

record in_request = http_request +
  ir_path :: string
  ir_query :: string

definition as_http :: "in_request \<Rightarrow> http_request" where
  "as_http r = http_request.truncate r"

text \<open>The goroutine a delivery starts: accepting a Follow, or forwarding an event to the owner's node.\<close>

datatype job =
    AcceptJob (job_local: string) (job_remote: string) (job_follow: gomap)
  | ForwardJob (job_route: route) (job_payload: payload)

type_synonym 'w source = "string \<Rightarrow> ('w, warpnetUser option) gw"

text \<open>
  \<open>handleInboundActivity\<close>: the status of the response and the job started; \<open>full\<close> says whether the
  pool is saturated when the handler tries to enter it.
\<close>

definition handleInboundActivity :: "('w, 'k) gw_env \<Rightarrow> bool \<Rightarrow> gomap \<Rightarrow> ('w, nat \<times> job option) gw" where
  "handleInboundActivity E full raw = do {
     now \<leftarrow> world (env_now E);
     tok \<leftarrow> world (env_token E);
     ret (case translateInbound (env_lib E) (env_gw E) now tok raw of
        None \<Rightarrow> (202, None)
      | Some (r, p) \<Rightarrow>
          if \<not> gw_has_node (env_gw E) then (202, None)
          else if full then (503, None)
          else (202, Some (ForwardJob r p)))
   }"

definition handleFollow ::
  "('w, 'k) gw_env \<Rightarrow> 'w source \<Rightarrow> bool \<Rightarrow> string \<Rightarrow> string \<Rightarrow> gomap \<Rightarrow> ('w, nat \<times> job option) gw" where
  "handleFollow E src full user remoteActor raw =
     (let named = userFromActorURL (stringField raw ''object'');
          localUser = (if named = [] then user else named) in do {
        u \<leftarrow> src localUser;
        ret (case u of
           None \<Rightarrow> (404, None)
         | Some _ \<Rightarrow> if full then (503, None) else (202, Some (AcceptJob localUser remoteActor raw)))
      })"

definition handleInbox ::
  "('w, 'k) gw_env \<Rightarrow> 'w source \<Rightarrow> bool \<Rightarrow> string \<Rightarrow> in_request \<Rightarrow> ('w, nat \<times> job option) gw" where
  "handleInbox E src full user r =
     (if rq_method r \<noteq> ''POST'' then ret (405, None)
      else case rq_body r of
        None \<Rightarrow> ret (400, None)
      | Some sent \<Rightarrow>
          (let body = take maxBodyBytes sent in do {
             v \<leftarrow> verifyRequest E (as_http r) body (fetchKey E);
             (case v of
                Inl e \<Rightarrow> ret (401, None)
              | Inr key_id \<Rightarrow>
                  (case as_document (case env_unmarshal E body of None \<Rightarrow> Inl ErrUnmarshal | Some j \<Rightarrow> Inr j) of
                     Inl e \<Rightarrow> ret (400, None)
                   | Inr raw \<Rightarrow>
                       (let typ = str_or_empty (jget raw ''type''); remoteActor = stringField raw ''actor'' in
                        if fst (cut key_id ''#'') \<noteq> remoteActor then ret (403, None)
                        else if typ = typeFollow then handleFollow E src full user remoteActor raw
                        else if typ = typeDelete then ret (202, None)
                        else handleInboundActivity E full raw)))
           }))"

section \<open>The work\<close>

definition accept_activity :: "gateway \<Rightarrow> string \<Rightarrow> string \<Rightarrow> gomap \<Rightarrow> activity" where
  "accept_activity g token localUser fl =
     Activity (CtxIRI asContext) (actorID g localUser @ ''#accept-'' @ token) ''Accept'' (actorID g localUser)
       (ObjInbound fl) [] []"

text \<open>\<open>acceptFollow\<close>: whether the Follow was accepted, in which case federation of the user starts.\<close>

definition acceptFollow ::
  "('w, 'k) gw_env \<Rightarrow> 'w followerStore \<Rightarrow> string \<Rightarrow> string \<Rightarrow> gomap \<Rightarrow> ('w, bool) gw" where
  "acceptFollow E F localUser remoteActorURL fl =
     (if remoteActorURL = [] then ret False
      else do {
        r \<leftarrow> remoteInbox E remoteActorURL;
        (case r of
           Inl e \<Rightarrow> ret False
         | Inr inbox \<Rightarrow> do {
             tok \<leftarrow> world (env_token E);
             p \<leftarrow> postSigned E localUser inbox (accept_activity (env_gw E) tok localUser fl);
             (case p of
                Some e \<Rightarrow> ret False
              | None \<Rightarrow> do { _ \<leftarrow> fs_Add F localUser remoteActorURL; ret True })
           })
      })"

text \<open>Running a job: the user whose federation it starts, if any.\<close>

definition run_job ::
  "('w, 'k) gw_env \<Rightarrow> 'w followerStore \<Rightarrow> 'w nodeRequester \<Rightarrow> job \<Rightarrow> ('w, string option) gw" where
  "run_job E F R j = (case j of
     AcceptJob localUser remote fl \<Rightarrow> do {
       ok \<leftarrow> acceptFollow E F localUser remote fl;
       ret (if ok then Some localUser else None)
     }
   | ForwardJob r p \<Rightarrow> do { _ \<leftarrow> nr_request R r p; ret None })"

section \<open>The pool\<close>

definition maxInflightDeliveries :: nat where "maxInflightDeliveries = 16"

text \<open>
  The semaphore as a step relation on the jobs that hold a slot.  A request handler enters only if a
  slot is free and answers 503 otherwise; a fan-out delivery waits for a free slot; a job that ends
  releases its slot.
\<close>

datatype slot = SJob job | SDelivery string

inductive pool_step :: "slot list \<Rightarrow> slot list \<Rightarrow> bool" where
  ps_enter: "length running < maxInflightDeliveries \<Longrightarrow> pool_step running (SJob j # running)"
| ps_deliver: "length running < maxInflightDeliveries \<Longrightarrow> pool_step running (SDelivery actor # running)"
| ps_refuse: "length running \<ge> maxInflightDeliveries \<Longrightarrow> pool_step running running"
| ps_done: "x \<in> set running \<Longrightarrow> pool_step running (remove1 x running)"

inductive_simps pool_enter_simp: "pool_step running (SJob j # running)"

inductive pool_reach :: "slot list \<Rightarrow> bool" where
  pr_empty: "pool_reach []"
| pr_step: "pool_reach running \<Longrightarrow> pool_step running running' \<Longrightarrow> pool_reach running'"

definition pool_full :: "slot list \<Rightarrow> bool" where
  "pool_full running \<longleftrightarrow> length running \<ge> maxInflightDeliveries"

section \<open>Properties\<close>

text \<open>
  The pool never holds more than sixteen jobs, in any interleaving of requests, fan-outs and
  completions; and a handler that finds it not full can always enter.
\<close>

theorem pool_bounded:
  assumes "pool_reach running"
  shows "length running \<le> 16 \<and> (\<not> pool_full running \<longrightarrow> pool_step running (SJob j # running))"
proof -
  from assms have "length running \<le> maxInflightDeliveries"
  proof induction
    case (pr_step running running')
    from pr_step(2,3) show ?case by (induction rule: pool_step.induct) (auto simp: length_remove1)
  qed simp
  then show ?thesis by (auto simp: maxInflightDeliveries_def pool_full_def intro: ps_enter)
qed

lemma pool_bounded_witness: "length [SDelivery ''a''] \<le> (16 :: nat)"
proof -
  have "pool_reach [SDelivery ''a'']"
    by (rule pr_step [OF pr_empty], rule ps_deliver) (simp add: maxInflightDeliveries_def)
  then show ?thesis using pool_bounded by blast
qed

text \<open>What a started job guarantees about the signer.\<close>

definition job_of_signer :: "'w source \<Rightarrow> string \<Rightarrow> gomap \<Rightarrow> job \<Rightarrow> bool" where
  "job_of_signer src signer raw j = (case j of
     AcceptJob u remote fl \<Rightarrow> remote = signer \<and> fl = raw \<and> (\<exists>s wu s'. run_state (src u) s = (Some wu, s'))
   | ForwardJob r p \<Rightarrow> acting_user p = bridgedUserID signer \<and> isBridgedUserID (acting_user p))"

lemma handleFollow_job:
  "run_state (handleFollow E src full user remote raw) s = ((st, Some j), s') \<Longrightarrow>
    st = 202 \<and> \<not> full \<and> job_of_signer src remote raw j"
  by (auto simp: handleFollow_def Let_def job_of_signer_def split: prod.splits option.splits if_splits;
      blast)

lemma handleInboundActivity_job:
  assumes "run_state (handleInboundActivity E full raw) s = ((st, Some j), s')"
    and "stringField raw ''actor'' = signer"
  shows "st = 202 \<and> \<not> full \<and> job_of_signer src signer raw j"
proof -
  obtain now tok r p where t: "translateInbound (env_lib E) (env_gw E) now tok raw = Some (r, p)"
    and j: "st = 202" "\<not> full" "j = ForwardJob r p"
    using assms(1) by (auto simp: handleInboundActivity_def split: option.splits if_splits)
  from translateInbound_acting [OF t] have a: "str_or_empty (jget raw ''actor'') \<noteq> []"
    "acting_user p = bridgedUserID (str_or_empty (jget raw ''actor''))" by auto
  then have "str_or_empty (jget raw ''actor'') = signer"
    using assms(2) by (cases "jget raw ''actor''") (simp_all add: stringField_eq asString_simps)
  with a j show ?thesis by (simp add: job_of_signer_def bridgedUserID_bridged)
qed

text \<open>
  C1: the signer owns the activity.  A delivery starts work only if it is a POST whose signature was
  verified with the key of some key id, whose body decodes to an object, and whose actor is the actor
  behind that key id; the work then acts for that actor alone: a Follow is accepted on its behalf, for a
  user that exists, and a forwarded event carries its Warpnet id.  Work starts only when the pool is not
  full, and then the answer is 202.
\<close>

theorem inbox_work_is_authenticated:
  assumes "run_state (handleInbox E src full user r) s = ((st, Some j), s')"
  shows "st = 202 \<and> \<not> full \<and> rq_method r = ''POST'' \<and>
    (\<exists>sent key_id s1 raw. rq_body r = Some sent \<and>
       run_state (verifyRequest E (as_http r) (take maxBodyBytes sent) (fetchKey E)) s = (Inr key_id, s1) \<and>
       (raw = None \<and> env_unmarshal E (take maxBodyBytes sent) = Some JNull \<or>
        (\<exists>m. raw = Some m \<and> env_unmarshal E (take maxBodyBytes sent) = Some (JObj m))) \<and>
       stringField raw ''actor'' = fst (cut key_id ''#'') \<and>
       job_of_signer src (fst (cut key_id ''#'')) raw j)"
proof -
  obtain sent where m: "rq_method r = ''POST''" "rq_body r = Some sent"
    using assms by (auto simp: handleInbox_def split: if_splits option.splits)
  obtain key_id s1 where v:
    "run_state (verifyRequest E (as_http r) (take maxBodyBytes sent) (fetchKey E)) s = (Inr key_id, s1)"
    using assms m by (auto simp: handleInbox_def Let_def split: prod.splits sum.splits)
  obtain raw where d: "as_document (case env_unmarshal E (take maxBodyBytes sent) of
      None \<Rightarrow> Inl ErrUnmarshal | Some j \<Rightarrow> Inr j) = Inr raw"
    and a: "fst (cut key_id ''#'') = stringField raw ''actor''"
    and h: "run_state (if str_or_empty (jget raw ''type'') = typeFollow
        then handleFollow E src full user (stringField raw ''actor'') raw
        else if str_or_empty (jget raw ''type'') = typeDelete then ret (202, None)
        else handleInboundActivity E full raw) s1 = ((st, Some j), s')"
    using assms m v by (auto simp: handleInbox_def Let_def simp del: type_defs split: sum.splits if_splits)
  from h have j: "st = 202 \<and> \<not> full \<and> job_of_signer src (stringField raw ''actor'') raw j"
    by (auto split: if_splits dest: handleFollow_job handleInboundActivity_job [OF _ refl, of _ _ _ _ _ _ _ src])
  from d have "raw = None \<and> env_unmarshal E (take maxBodyBytes sent) = Some JNull \<or>
        (\<exists>m. raw = Some m \<and> env_unmarshal E (take maxBodyBytes sent) = Some (JObj m))"
    by (auto simp: as_document_def split: option.splits json.splits)
  with m v a j show ?thesis by auto
qed

definition sample_follow :: json where
  "sample_follow = JObj [(''type'', JStr ''Follow''), (''actor'', JStr ''https://m.example/users/bob''),
     (''object'', JStr ''https://gw.example/users/alice'')]"

definition sample_keyed :: json where
  "sample_keyed = JObj [(''publicKey'', JObj [(''publicKeyPem'', JStr ''K'')])]"

definition sample_inbox_env :: "(http_response list, string) gw_env" where
  "sample_inbox_env = sample_env [(''x'', sample_follow), (''doc'', sample_keyed)]"

definition sample_post :: in_request where
  "sample_post = http_request.extend sample_signed \<lparr>ir_path = ''/inbox'', ir_query = []\<rparr>"

definition sample_source :: "'w source" where
  "sample_source u = ret (staticSource_GetUser \<lparr>wu_ID = ''1'', wu_PreferredUsername = ''alice'', wu_DisplayName = [],
     wu_Summary = [], wu_Avatar = [], wu_Background = []\<rparr> u)"

lemma sample_key_fetch:
  "run_state (fetchKey sample_inbox_env ''https://m.example/users/bob#main-key'') (start_state [ok_response ''doc''])
    = (Inr ''K'', \<lparr>st_world = [], st_trace = st_trace (snd (run_state (fetchKey sample_inbox_env
        ''https://m.example/users/bob#main-key'') (start_state [ok_response ''doc'']))), st_good = []\<rparr>)"
proof -
  have c: "fst (cut ''https://m.example/users/bob#main-key'' ''#'') = ''https://m.example/users/bob''"
    "checkRemoteURL sample_gateway ''https://m.example/users/bob'' = None"
    "url_parse ''https://m.example/users/bob'' \<noteq> None" "dialControl ''203.0.113.7'' = None"
    "publicKey_of (Some [(''publicKey'', JObj [(''publicKeyPem'', JStr ''K'')])]) = Some [(''publicKeyPem'', JStr ''K'')]"
    "str_or_empty (jget (Some [(''publicKeyPem'', JStr ''K'')]) ''publicKeyPem'') = ''K''"
    by code_simp+
  then show ?thesis
    by (simp add: fetchKey_def fetchActor_def guardedGet_def signedGet_def sample_inbox_env_def sample_env_def
      sendRetry_def attempt_def get_request_def new_request_def signGet_def key_of_actor_def as_document_def
      signRequest_def client_do.simps start_state_def ok_response_def with_user_agent_def with_header_def
      redirect_target_def sample_gateway_def header_get_def Let_def maxBodyBytes_def no_vars_def sample_keyed_def
      split: option.split)
qed

lemma sample_inbox_run:
  "\<exists>s' fl. run_state (handleInbox sample_inbox_env sample_source False [] sample_post) (start_state [ok_response ''doc''])
      = ((202, Some (AcceptJob ''alice'' ''https://m.example/users/bob'' fl)), s')"
proof -
  have c: "fst (cut ''https://m.example/users/bob#main-key'' ''#'') = ''https://m.example/users/bob''"
    "str_or_empty (jget (Some [(''type'', JStr ''Follow''), (''actor'', JStr ''https://m.example/users/bob''),
     (''object'', JStr ''https://gw.example/users/alice'')]) ''type'') = ''Follow''"
    "stringField (Some [(''type'', JStr ''Follow''), (''actor'', JStr ''https://m.example/users/bob''),
     (''object'', JStr ''https://gw.example/users/alice'')]) ''actor'' = ''https://m.example/users/bob''"
    "userFromActorURL (stringField (Some [(''type'', JStr ''Follow''), (''actor'', JStr ''https://m.example/users/bob''),
     (''object'', JStr ''https://gw.example/users/alice'')]) ''object'') = ''alice''"
    by code_simp+
  have pol: "signature_policy sample_inbox_env 0 sample_signed ''x'' = None" by code_simp
  have m: "as_http sample_post = sample_signed" "rq_method sample_post = ''POST''" "rq_body sample_post = Some ''x''"
    by (simp_all add: as_http_def sample_post_def sample_signed_def http_request.defs in_request.defs)
  have e: "env_now sample_inbox_env = (\<lambda>w. (0, w))"
    "env_verifier sample_inbox_env sample_signed = Some (''https://m.example/users/bob#main-key'', \<lambda>k. k = ''K'')"
    "env_unmarshal sample_inbox_env ''x'' = Some sample_follow"
    by (simp_all add: sample_inbox_env_def sample_env_def)
  have t: "take maxBodyBytes ''x'' = ''x''" by (simp add: maxBodyBytes_def)
  obtain s1 where k: "run_state (fetchKey sample_inbox_env ''https://m.example/users/bob#main-key'')
      (start_state [ok_response ''doc'']) = (Inr ''K'', s1)"
    using sample_key_fetch by blast
  have v: "run_state (verifyRequest sample_inbox_env sample_signed ''x'' (fetchKey sample_inbox_env))
      (start_state [ok_response ''doc'']) = (Inr ''https://m.example/users/bob#main-key'', s1)"
    using pol e k by (simp add: verifyRequest_def)
  show ?thesis
    using c m e t v
    by (simp add: handleInbox_def handleFollow_def Let_def as_document_def sample_follow_def sample_source_def
        staticSource_GetUser_def)
qed

lemma inbox_work_is_authenticated_witness:
  "\<exists>s' j. run_state (handleInbox sample_inbox_env sample_source False [] sample_post) (start_state [ok_response ''doc''])
      = ((202, Some j), s') \<and> rq_method sample_post = ''POST'' \<and> job_remote j = ''https://m.example/users/bob''"
proof -
  obtain s' fl where h: "run_state (handleInbox sample_inbox_env sample_source False [] sample_post) (start_state [ok_response ''doc''])
      = ((202, Some (AcceptJob ''alice'' ''https://m.example/users/bob'' fl)), s')" using sample_inbox_run by blast
  with inbox_work_is_authenticated [OF h] show ?thesis by auto
qed

end
