(* ===== verification/Node_Server.thy ===== *)
theory Node_Server
  imports Outbound
begin

text \<open>
  The libp2p side of the gateway: the routes that answer Warpnet nodes through the bridge, the stream
  handler that authenticates a request (\<open>nodeserver.go\<close>), and the client's end of a stream exchange
  (\<open>warpwire.go\<close>).  The envelope, its encoding and its signature are Warpnet's: parameters in \<open>wire_lib\<close>.
\<close>

section \<open>Routes and replies\<close>

text \<open>The routes served: those of \<open>warpdto.go\<close>, and three more of the event package.\<close>

datatype node_route = NR route | PUBLIC_GET_INFO | PUBLIC_GET_TWEET_STATS | PUBLIC_POST_VIEW

text \<open>What a handler answers with.\<close>

datatype node_reply =
    RUser user | RUsers "user list" | RTweets tweetsResponse | RTweet tweet | RStats tweetStatsResponse
  | RFollowers string "string list" string | RFollowings string "string list" string
  | RImage string | RViews nat | RReactions u64 "(string \<times> u64) list" | REmpty
  | RInfo string string "string list" string gotime | RError gw_error

text \<open>
  Parameters of the event and domain packages: decoding a request body into the event of a route,
  \<open>Tweet.IsReply\<close>, and \<open>NormalizeReaction\<close>.
\<close>

record node_lib =
  nl_decode :: "node_route \<Rightarrow> string \<Rightarrow> payload option"
  nl_is_reply :: "tweet \<Rightarrow> bool"
  nl_normalize :: "string \<Rightarrow> string option"

text \<open>The zero value of the event type of a route.\<close>

fun zero_event :: "node_route \<Rightarrow> payload" where
  "zero_event (NR routeGetUser) = GetUserEvent []"
| "zero_event (NR routeGetUsers) = GetAllUsersEvent [] None None"
| "zero_event (NR routeGetTweet) = GetTweetEvent [] [] []"
| "zero_event (NR routeGetTweets) = GetAllTweetsEvent [] [] [] None None"
| "zero_event (NR routeGetFollowers) = GetAllTweetsEvent [] [] [] None None"
| "zero_event (NR routeGetFollowings) = GetAllTweetsEvent [] [] [] None None"
| "zero_event (NR routeGetImage) = GetImageEvent [] []"
| "zero_event (NR routePostFollow) = NewFollowEvent [] []"
| "zero_event (NR routePostUnfollow) = NewFollowEvent [] []"
| "zero_event (NR routePostReact) = ReactionEvent [] [] [] []"
| "zero_event (NR routePostUnreact) = ReactionEvent [] [] [] []"
| "zero_event (NR routePostRetweet) = TweetPayload zero_tweet"
| "zero_event (NR routePostUnretweet) = UnretweetEvent [] []"
| "zero_event (NR routePostTweet) = TweetPayload zero_tweet"
| "zero_event (NR routeDeleteTweet) = DeleteTweetEvent [] [] [] []"
| "zero_event PUBLIC_GET_TWEET_STATS = GetTweetEvent [] [] []"
| "zero_event PUBLIC_GET_INFO = GetUserEvent []"
| "zero_event PUBLIC_POST_VIEW = GetUserEvent []"

type_synonym 'w node_handler = "string \<Rightarrow> ('w, gw_error + node_reply) gw"

definition wrapJSON ::
  "node_lib \<Rightarrow> node_route \<Rightarrow> (payload \<Rightarrow> ('w, gw_error + node_reply) gw) \<Rightarrow> 'w node_handler" where
  "wrapJSON L r h body =
     (if length body > 0
      then case nl_decode L r body of None \<Rightarrow> ret (Inl ErrUnmarshal) | Some ev \<Rightarrow> h ev
      else h (zero_event r))"

definition reactionsCount :: "string \<Rightarrow> u64 \<Rightarrow> node_reply" where
  "reactionsCount emoji n = RReactions n (if emoji \<noteq> [] \<and> n > 0 then [(emoji, n)] else [])"

definition retweeterOf :: "tweet \<Rightarrow> string" where
  "retweeterOf ev = (case t_RetweetedBy ev of
     Some by \<Rightarrow> if by \<noteq> [] then by else t_UserId ev | None \<Rightarrow> t_UserId ev)"

definition retweetObject :: "tweet \<Rightarrow> string" where
  "retweetObject ev = (if t_Id ev \<noteq> [] then t_Id ev else t_RootId ev)"

section \<open>Handlers\<close>

text \<open>
  The server: the gateway, the bridge on it, the store that the fan-out uses and the condition under
  which that is cancelled, and what \<open>infoHandler\<close> reports: owner, own id, addresses, network (its
  other fields, the node type, version, relay state and reachability, are constants of Warpnet's).
\<close>

record ('w, 'k) node_server =
  ns_env :: "('w, 'k) gw_env"
  ns_id :: string
  ns_followers :: "'w followerStore"
  ns_cancelled :: "'w \<Rightarrow> bool \<times> 'w"
  ns_lib :: node_lib
  ns_owner :: string
  ns_addrs :: "'w \<Rightarrow> string list \<times> 'w"
  ns_network :: string

definition ns_bridge :: "('w, 'k) node_server \<Rightarrow> 'w bridge" where
  "ns_bridge S = newMastodonBridge (ns_env S) (ns_id S)"

text \<open>A result with an error, as \<open>wrapJSON\<close>'s handlers return them.\<close>

definition reply_of :: "('a \<Rightarrow> node_reply) \<Rightarrow> gw_error + 'a \<Rightarrow> gw_error + node_reply" where
  "reply_of f r = (case r of Inl e \<Rightarrow> Inl e | Inr x \<Rightarrow> Inr (f x))"

definition reply_unless :: "node_reply \<Rightarrow> gw_error option \<Rightarrow> gw_error + node_reply" where
  "reply_unless x e = (case e of Some err \<Rightarrow> Inl err | None \<Rightarrow> Inr x)"

definition infoHandler :: "('w, 'k) node_server \<Rightarrow> 'w node_handler" where
  "infoHandler S body = do {
     addrs \<leftarrow> world (ns_addrs S);
     now \<leftarrow> world (env_now (ns_env S));
     ret (Inr (RInfo (ns_owner S) (ns_id S) addrs (ns_network S) now))
   }"

definition getFollowers :: "'w bridge \<Rightarrow> string \<Rightarrow> string option \<Rightarrow> ('w, gw_error + node_reply) gw" where
  "getFollowers B handle cursor = do {
     x \<leftarrow> followList B handle cursor ''followers'';
     ret (reply_of (\<lambda>(ids, nxt). RFollowers handle ids nxt) x)
   }"

definition getFollowings :: "'w bridge \<Rightarrow> string \<Rightarrow> string option \<Rightarrow> ('w, gw_error + node_reply) gw" where
  "getFollowings B handle cursor = do {
     x \<leftarrow> followList B handle cursor ''following'';
     ret (reply_of (\<lambda>(ids, nxt). RFollowings handle ids nxt) x)
   }"

definition on_get_users :: "'w bridge \<Rightarrow> payload \<Rightarrow> ('w, gw_error + node_reply) gw" where
  "on_get_users B ev = do {
     r \<leftarrow> getUser B (gau_UserId ev) False;
     ret (case r of Inl e \<Rightarrow> Inr (RUsers []) | Inr u \<Rightarrow> Inr (RUsers [u]))
   }"

definition on_react :: "('w, 'k) node_server \<Rightarrow> payload \<Rightarrow> ('w, gw_error + node_reply) gw" where
  "on_react S ev = (case nl_normalize (ns_lib S) (re_Emoji ev) of
     None \<Rightarrow> ret (Inl ErrNode)
   | Some emoji \<Rightarrow> do {
       r \<leftarrow> react (ns_bridge S) (re_OwnerId ev) (re_TweetId ev) emoji False;
       ret (reply_of (reactionsCount emoji) r)
     })"

definition on_unreact :: "('w, 'k) node_server \<Rightarrow> payload \<Rightarrow> ('w, gw_error + node_reply) gw" where
  "on_unreact S ev = do {
     r \<leftarrow> react (ns_bridge S) (re_OwnerId ev) (re_TweetId ev) [] True;
     ret (reply_of (reactionsCount []) r)
   }"

text \<open>A gossiped top-level tweet is fanned out by a goroutine, which is run to its end here.\<close>

definition on_tweet :: "('w, 'k) node_server \<Rightarrow> payload \<Rightarrow> ('w, gw_error + node_reply) gw" where
  "on_tweet S p =
     (let ev = tp_tweet p in
      if \<not> nl_is_reply (ns_lib S) ev then do {
        _ \<leftarrow> (if publishableTweet ev (t_UserId ev)
             then federateTweetAsync (ns_env S) (ns_followers S) (ns_cancelled S) ev else ret ());
        ret (Inr (RTweet ev))
      }
      else do { e \<leftarrow> reply (ns_bridge S) ev; ret (reply_unless (RTweet ev) e) })"

definition on_delete :: "('w, 'k) node_server \<Rightarrow> payload \<Rightarrow> ('w, gw_error + node_reply) gw" where
  "on_delete S ev =
     (if dt_ParentId ev = [] \<and> dt_RootId ev = [] then ret (Inr REmpty)
      else do { e \<leftarrow> delete (ns_bridge S) ev; ret (reply_unless REmpty e) })"

definition on_follow :: "('w, 'k) node_server \<Rightarrow> bool \<Rightarrow> payload \<Rightarrow> ('w, gw_error + node_reply) gw" where
  "on_follow S undo ev = do {
     e \<leftarrow> follow (ns_bridge S) (nf_FollowerId ev) (nf_FollowingId ev) undo;
     ret (reply_unless REmpty e)
   }"

definition on_event :: "('w, 'k) node_server \<Rightarrow> route \<Rightarrow> payload \<Rightarrow> ('w, gw_error + node_reply) gw" where
  "on_event S r ev = (let B = ns_bridge S in case r of
     routeGetUser \<Rightarrow> do { x \<leftarrow> getUser B (gu_UserId ev) True; ret (reply_of RUser x) }
   | routeGetUsers \<Rightarrow> on_get_users B ev
   | routeGetTweets \<Rightarrow> do { x \<leftarrow> getTweetsOrReplies B ev; ret (reply_of RTweets x) }
   | routeGetTweet \<Rightarrow> do { x \<leftarrow> getTweet B (gt_TweetId ev); ret (reply_of RTweet x) }
   | routeGetFollowers \<Rightarrow> getFollowers B (ga_UserId ev) (ga_Cursor ev)
   | routeGetFollowings \<Rightarrow> getFollowings B (ga_UserId ev) (ga_Cursor ev)
   | routeGetImage \<Rightarrow> do { x \<leftarrow> getImage B (gi_Key ev); ret (reply_of RImage x) }
   | routePostReact \<Rightarrow> on_react S ev
   | routePostUnreact \<Rightarrow> on_unreact S ev
   | routePostFollow \<Rightarrow> on_follow S False ev
   | routePostUnfollow \<Rightarrow> on_follow S True ev
   | routePostTweet \<Rightarrow> on_tweet S ev
   | routeDeleteTweet \<Rightarrow> on_delete S ev
   | routePostRetweet \<Rightarrow> do {
       e \<leftarrow> announce B (retweeterOf (tp_tweet ev)) (retweetObject (tp_tweet ev)) False;
       ret (reply_unless (RTweet (tp_tweet ev)) e)
     }
   | routePostUnretweet \<Rightarrow> do {
       e \<leftarrow> announce B (ur_RetweeterId ev) (ur_TweetId ev) True;
       ret (reply_unless REmpty e)
     })"

text \<open>The table of \<open>serveRoutes\<close>.\<close>

definition node_handler_of :: "('w, 'k) node_server \<Rightarrow> node_route \<Rightarrow> 'w node_handler" where
  "node_handler_of S r = (case r of
     NR rt \<Rightarrow> wrapJSON (ns_lib S) r (on_event S rt)
   | PUBLIC_GET_INFO \<Rightarrow> infoHandler S
   | PUBLIC_GET_TWEET_STATS \<Rightarrow> wrapJSON (ns_lib S) r (\<lambda>ev. do {
       x \<leftarrow> getTweetStats (ns_bridge S) (gt_TweetId ev); ret (reply_of RStats x) })
   | PUBLIC_POST_VIEW \<Rightarrow> (\<lambda>body. ret (Inr (RViews 1))))"

section \<open>The stream\<close>

record message =
  msg_Body :: string
  msg_MessageId :: string
  msg_NodeId :: string
  msg_Destination :: string
  msg_Timestamp :: gotime
  msg_Version :: string
  msg_Signature :: string

text \<open>
  The envelope's bytes to sign, its encoding, the signature scheme, the key in a peer id, the encoding
  of a reply and of a request event, and the name of a route.
\<close>

record ('k, 'p) wire_lib =
  wl_signing_bytes :: "message \<Rightarrow> string"
  wl_marshal :: "message \<Rightarrow> string option"
  wl_unmarshal :: "string \<Rightarrow> message option"
  wl_sign :: "'p \<Rightarrow> string \<Rightarrow> string"
  wl_verify :: "'k \<Rightarrow> string \<Rightarrow> string \<Rightarrow> bool"
  wl_pub_of_peer :: "string \<Rightarrow> 'k"
  wl_marshal_reply :: "node_reply \<Rightarrow> string option"
  wl_marshal_event :: "payload \<Rightarrow> string option"
  wl_route :: "node_route \<Rightarrow> string"

definition maxRequestBytes :: nat where "maxRequestBytes = 1048576"

text \<open>
  \<open>streamHandler\<close>: \<open>data\<close> is what the stream carries, unless reading fails; \<open>peer\<close> the remote peer, unless
  the stream has no connection; the result is what is written, if anything.
\<close>

definition streamHandler ::
  "('k, 'p) wire_lib \<Rightarrow> 'w node_handler \<Rightarrow> string option \<Rightarrow> string option \<Rightarrow> ('w, string option) gw" where
  "streamHandler W h peer data = (case data of
     None \<Rightarrow> ret None
   | Some sent \<Rightarrow>
       (case wl_unmarshal W (take maxRequestBytes sent) of
          None \<Rightarrow> ret None
        | Some msg \<Rightarrow>
            if msg_Signature msg = [] then ret None
            else if (case peer of None \<Rightarrow> False
                 | Some p \<Rightarrow> \<not> wl_verify W (wl_pub_of_peer W p) (wl_signing_bytes W msg) (msg_Signature msg))
              then ret None
            else do {
              r \<leftarrow> h (msg_Body msg);
              ret (wl_marshal_reply W (case r of Inl e \<Rightarrow> RError e | Inr x \<Rightarrow> x))
            }))"

definition serveRoutes ::
  "('k2, 'p) wire_lib \<Rightarrow> ('w, 'k) node_server \<Rightarrow> node_route \<Rightarrow> string option \<Rightarrow> string option \<Rightarrow> ('w, string option) gw" where
  "serveRoutes W S r = streamHandler W (node_handler_of S r)"

text \<open>
  \<open>streamSend\<close>, for the events the gateway sends.  Opening the stream, writing and reading, each of
  which may fail, are one exchange, an argument.
\<close>

definition envelope ::
  "('k, 'p) wire_lib \<Rightarrow> 'p \<Rightarrow> string \<Rightarrow> string \<Rightarrow> string \<Rightarrow> string \<Rightarrow> gotime \<Rightarrow> message" where
  "envelope W priv self dest body i now =
     (let m = \<lparr>msg_Body = body, msg_MessageId = i, msg_NodeId = self, msg_Destination = dest,
        msg_Timestamp = now, msg_Version = ''0.0.0'', msg_Signature = []\<rparr> in
      m\<lparr>msg_Signature := wl_sign W priv (wl_signing_bytes W m)\<rparr>)"

definition streamSend ::
  "('k, 'p) wire_lib \<Rightarrow> (string \<Rightarrow> string \<Rightarrow> string \<Rightarrow> 'w \<Rightarrow> string option \<times> 'w) \<Rightarrow> ('w \<Rightarrow> string \<times> 'w) \<Rightarrow> ('w \<Rightarrow> gotime \<times> 'w) \<Rightarrow>
    'p \<Rightarrow> string \<Rightarrow> string \<Rightarrow> string \<Rightarrow> payload option \<Rightarrow> ('w, gw_error + string) gw" where
  "streamSend W exchange uuid now priv self p dest event =
     (case (case event of None \<Rightarrow> Some [] | Some ev \<Rightarrow> wl_marshal_event W ev) of
        None \<Rightarrow> ret (Inl ErrMarshal)
      | Some body \<Rightarrow> do {
          i \<leftarrow> world uuid;
          t \<leftarrow> world now;
          (case wl_marshal W (envelope W priv self dest body i t) of
             None \<Rightarrow> ret (Inl ErrMarshal)
           | Some data \<Rightarrow> do {
               r \<leftarrow> world (exchange p dest data);
               ret (case r of None \<Rightarrow> Inl ErrNetwork | Some bt \<Rightarrow> Inr bt)
             })
        })"

text \<open>A wire format with one message, a server with no members, and the gateway of the other samples.\<close>

definition sample_event :: payload where
  "sample_event = TweetPayload (zero_tweet\<lparr>t_Id := ''1'', t_UserId := ''alice''\<rparr>)"

definition sample_wire :: "(string, string) wire_lib" where
  "sample_wire = \<lparr>wl_signing_bytes = msg_Body,
     wl_marshal = (\<lambda>m. if m = \<lparr>msg_Body = ''b'', msg_MessageId = ''i'', msg_NodeId = ''p'', msg_Destination = ''d'',
       msg_Timestamp = 0, msg_Version = ''0.0.0'', msg_Signature = ''sig''\<rparr> then Some ''m'' else None),
     wl_unmarshal = (\<lambda>d. if d = ''m'' then Some \<lparr>msg_Body = ''b'', msg_MessageId = ''i'', msg_NodeId = ''p'', msg_Destination = ''d'',
       msg_Timestamp = 0, msg_Version = ''0.0.0'', msg_Signature = ''sig''\<rparr> else None),
     wl_sign = (\<lambda>_ _. ''sig''), wl_verify = (\<lambda>_ _ x. x = ''sig''), wl_pub_of_peer = (\<lambda>p. p),
     wl_marshal_reply = (\<lambda>_. Some ''reply''), wl_marshal_event = (\<lambda>_. Some ''b''), wl_route = (\<lambda>_. ''r'')\<rparr>"

definition sample_node_lib :: node_lib where
  "sample_node_lib = \<lparr>nl_decode = (\<lambda>_ _. Some sample_event),
     nl_is_reply = (\<lambda>t. t_ParentId t \<noteq> None), nl_normalize = (\<lambda>_. None)\<rparr>"

definition sample_node_server :: "(http_response list, string) node_server" where
  "sample_node_server = \<lparr>ns_env = sample_env [], ns_id = ''gw'',
     ns_followers = nodeFollowerStore (node_requester sample_idle_node) (nc_codec sample_node_env) (resolveActorID (sample_env [])),
     ns_cancelled = (\<lambda>w. (False, w)), ns_lib = sample_node_lib, ns_owner = ''o'', ns_addrs = (\<lambda>w. ([], w)), ns_network = ''n''\<rparr>"

text \<open>
  \<open>streamToMember\<close> of \<open>discovery.go\<close>, the default of the node client's \<open>stream\<close>: without an address of the
  peer, the DHT is asked for it first.
\<close>

definition streamToMember ::
  "('k, 'p) wire_lib \<Rightarrow> (string \<Rightarrow> string \<Rightarrow> string \<Rightarrow> 'w \<Rightarrow> string option \<times> 'w) \<Rightarrow> ('w \<Rightarrow> string \<times> 'w) \<Rightarrow> ('w \<Rightarrow> gotime \<times> 'w) \<Rightarrow>
    ('w \<Rightarrow> string \<Rightarrow> bool) \<Rightarrow> (string \<Rightarrow> 'w \<Rightarrow> 'w) \<Rightarrow> 'w node_env \<Rightarrow> 'p \<Rightarrow> string \<Rightarrow> route \<Rightarrow> payload \<Rightarrow>
    ('w, gw_error + string) gw" where
  "streamToMember W exchange uuid now has_addr find_peer N priv p r payload = do {
     known \<leftarrow> world (\<lambda>w. (has_addr w p, w));
     (if \<not> known \<and> nc_has_dht N then world_do (find_peer p) else ret ());
     streamSend W exchange uuid now priv (nc_self N) p (wl_route W (NR r)) (Some payload)
   }"

section \<open>Authentication of streams\<close>

text \<open>
  C20: an unauthenticated request does nothing.  A stream from a peer changes the state, or is answered,
  only if the bytes read decode to an envelope whose non-empty signature verifies over its signing bytes
  under the key in the remote peer's id; then exactly the handler of the route runs, on the body of that
  envelope, and the answer is the encoding of its result or of its error.
\<close>

theorem node_requests_authenticated:
  assumes "run_state (serveRoutes W S r (Some p) data) s = (out, s')" "out \<noteq> None \<or> s' \<noteq> s"
  shows "\<exists>sent msg res. data = Some sent \<and> wl_unmarshal W (take maxRequestBytes sent) = Some msg \<and>
    msg_Signature msg \<noteq> [] \<and> wl_verify W (wl_pub_of_peer W p) (wl_signing_bytes W msg) (msg_Signature msg) \<and>
    run_state (node_handler_of S r (msg_Body msg)) s = (res, s') \<and>
    out = wl_marshal_reply W (case res of Inl e \<Rightarrow> RError e | Inr x \<Rightarrow> x)"
  using assms
  by (auto simp: serveRoutes_def streamHandler_def split: option.splits prod.splits if_splits)

lemma node_requests_authenticated_witness:
  "\<exists>msg. wl_unmarshal sample_wire ''m'' = Some msg \<and>
    wl_verify sample_wire (wl_pub_of_peer sample_wire ''p'') (wl_signing_bytes sample_wire msg) (msg_Signature msg)"
proof -
  have "run_state (serveRoutes sample_wire sample_node_server PUBLIC_POST_VIEW (Some ''p'') (Some ''m'')) (start_state [])
      = (Some ''reply'', start_state [])"
    by (simp add: serveRoutes_def streamHandler_def node_handler_of_def sample_wire_def maxRequestBytes_def)
  from node_requests_authenticated [OF this] show ?thesis
    by (auto simp: maxRequestBytes_def)
qed

text \<open>What the gateway relies on of the wire format and of the signature scheme.\<close>

definition wire_ok :: "('k, 'p) wire_lib \<Rightarrow> string \<Rightarrow> 'p \<Rightarrow> bool" where
  "wire_ok W self priv \<longleftrightarrow>
     (\<forall>m d. wl_marshal W m = Some d \<longrightarrow> wl_unmarshal W d = Some m) \<and>
     (\<forall>m x. wl_signing_bytes W (m\<lparr>msg_Signature := x\<rparr>) = wl_signing_bytes W m) \<and>
     (\<forall>b. wl_sign W priv b \<noteq> [] \<and> wl_verify W (wl_pub_of_peer W self) b (wl_sign W priv b))"

text \<open>
  C39: the two ends of a stream agree.  What \<open>streamSend\<close> writes for an event, within the size bound, is
  accepted by \<open>streamHandler\<close> at a peer that sees the sender's own peer id, which runs its handler on
  exactly the encoded event; so a handler wrapped by \<open>wrapJSON\<close> receives the event itself.
\<close>

theorem stream_ends_agree:
  assumes "wire_ok W self priv" "wl_marshal_event W ev = Some body" "body \<noteq> []"
    and "wl_marshal W (envelope W priv self dest body i now) = Some data" "length data \<le> maxRequestBytes"
    and "nl_decode L r body = Some ev"
  shows "streamHandler W (wrapJSON L r h) (Some self) (Some data) = do {
      res \<leftarrow> h ev;
      ret (wl_marshal_reply W (case res of Inl e \<Rightarrow> RError e | Inr x \<Rightarrow> x))
    } \<and>
    run_state (streamSend W exchange (\<lambda>w. (i, w)) (\<lambda>w. (now, w)) priv self p dest (Some ev)) s =
      (case fst (exchange p dest data (st_world s)) of None \<Rightarrow> Inl ErrNetwork | Some bt \<Rightarrow> Inr bt,
       s\<lparr>st_world := snd (exchange p dest data (st_world s))\<rparr>)"
proof -
  let ?m = "envelope W priv self dest body i now"
  have decoded: "wl_unmarshal W data = Some ?m"
    using assms(1,4) by (auto simp: wire_ok_def)
  have "wl_signing_bytes W ?m = wl_signing_bytes W (?m\<lparr>msg_Signature := []\<rparr>)"
    using assms(1) unfolding wire_ok_def by metis
  then have "wl_verify W (wl_pub_of_peer W self) (wl_signing_bytes W ?m) (msg_Signature ?m) \<and> msg_Signature ?m \<noteq> []"
    using assms(1) by (auto simp: wire_ok_def envelope_def Let_def)
  moreover have "msg_Body ?m = body"
    by (simp add: envelope_def Let_def)
  ultimately show ?thesis
    using assms(2-6) decoded
    by (auto simp: streamHandler_def wrapJSON_def streamSend_def split: option.split prod.split)
qed

lemma stream_ends_agree_witness:
  "fst (run_state (streamSend sample_wire (\<lambda>_ _ _ w. (Some ''reply'', w)) (\<lambda>w. (''i'', w)) (\<lambda>w. (0, w)) ''k'' ''p'' ''q'' ''d''
    (Some sample_event)) (start_state ())) = Inr ''reply''"
proof -
  have "wire_ok sample_wire ''p'' ''k''" "wl_marshal_event sample_wire sample_event = Some ''b''"
    "wl_marshal sample_wire (envelope sample_wire ''k'' ''p'' ''d'' ''b'' ''i'' 0) = Some ''m''"
    "nl_decode sample_node_lib (NR routePostTweet) ''b'' = Some sample_event" "length ''m'' \<le> maxRequestBytes" "''b'' \<noteq> []"
    by (simp_all add: wire_ok_def sample_wire_def envelope_def sample_node_lib_def maxRequestBytes_def)
  then show ?thesis by (simp add: stream_ends_agree [THEN conjunct2])
qed

section \<open>Requests are guarded\<close>

lemma fan_out_guarded:
  assumes "env_ok E" "F = nodeFollowerStore (node_requester N) C (resolveActorID E)"
  shows "guarded_by E (deliverToFollowers E F cancelled u doc)"
  unfolding assms(2) using assms(1) by (intro node_store.deliveries deliver_each_guarded)

lemma replying_is_guarded:
  assumes "guarded_by E x"
  shows "guarded_by E (do { r \<leftarrow> x; ret (f r) })"
  using assms by (intro keeps_intros)

lemma handlers_guarded:
  assumes ok: "env_ok (ns_env S)" and F: "ns_followers S = nodeFollowerStore (node_requester N) C (resolveActorID (ns_env S))"
  shows "guarded_by (ns_env S) (on_event S r ev)"
proof -
  note ops = gw_bridge.all_operations [OF ok]
  have pub: "guarded_by (ns_env S) (federateTweetAsync (ns_env S) (ns_followers S) c t)" for c t
    unfolding federateTweetAsync_def publishNote_def by (rule fan_out_guarded [OF ok F])
  have "guarded_by (ns_env S) (on_tweet S ev)"
    unfolding on_tweet_def ns_bridge_def Let_def by (intro keeps_intros ops pub)
  moreover have "guarded_by (ns_env S) (on_delete S ev)" "guarded_by (ns_env S) (on_follow S u ev)"
    "guarded_by (ns_env S) (on_react S ev)" "guarded_by (ns_env S) (on_unreact S ev)"
    "guarded_by (ns_env S) (on_get_users (ns_bridge S) ev)" for u
    unfolding on_delete_def on_follow_def on_react_def on_unreact_def on_get_users_def ns_bridge_def
    by (intro keeps_intros ops)+
  ultimately show ?thesis
    unfolding on_event_def Let_def ns_bridge_def getFollowers_def getFollowings_def by (cases r; simp only: route.case; (assumption | intro keeps_intros ops))
qed

text \<open>
  C25: nothing a Warpnet peer asks for escapes the SSRF guard.  Whatever route a peer calls, with
  whatever body, over the production follower store, every HTTP request that is made in answering it
  went through the guard.
\<close>

theorem node_routes_guarded:
  assumes "env_ok (ns_env S)" "ns_followers S = nodeFollowerStore (node_requester N) C (resolveActorID (ns_env S))"
  shows "guarded_by (ns_env S) (serveRoutes W S r peer data)"
proof -
  have "guarded_by (ns_env S) (node_handler_of S r body)" for body
    using handlers_guarded [OF assms] gw_bridge.all_operations [OF assms(1)]
    by (cases r) (auto simp: node_handler_of_def wrapJSON_def infoHandler_def ns_bridge_def intro!: keeps_intros)
  then show ?thesis
    unfolding serveRoutes_def streamHandler_def by (intro keeps_intros)
qed

lemma node_routes_guarded_witness:
  "guarded_by (sample_env []) (serveRoutes sample_wire sample_node_server (NR routePostTweet) (Some ''p'') (Some ''m''))"
proof -
  have "env_ok (ns_env sample_node_server)"
    unfolding sample_node_server_def node_server.simps by (rule sample_env_ok)
  from node_routes_guarded [OF this, of sample_idle_node "nc_codec sample_node_env"] show ?thesis
    unfolding sample_node_server_def node_server.simps by blast
qed

end
