(* ===== verification/Signing.thy ===== *)
theory Signing
  imports Pollers Inbox Node_Server
begin

text \<open>
  In whose name the gateway signs.  The gateway holds one key for all its users, so that what a peer
  believes rests on the key id of the signature; here every POST that an operation sends is traced to
  the user it is signed for, through retries and redirects.
\<close>

section \<open>Requests signed in a user's name\<close>

text \<open>The request carries the headers that the signer made for the user's key id.\<close>

definition signed_as :: "('w, 'k) gw_env \<Rightarrow> string \<Rightarrow> http_request \<Rightarrow> bool" where
  "signed_as E u rq \<longleftrightarrow> (\<exists>hs rq0 body rq1. env_sign E hs (keyID (env_gw E) u) rq0 body = Some rq1 \<and>
     rq_headers rq = rq_headers (with_user_agent rq1))"

definition post_for :: "('w, 'k) gw_env \<Rightarrow> string set \<Rightarrow> http_request \<Rightarrow> bool" where
  "post_for E U rq \<longleftrightarrow> (rq_method rq = ''POST'' \<longrightarrow> (\<exists>u\<in>U. signed_as E u rq))"

text \<open>Every POST is signed for one of the users \<open>U\<close>; for no user, there is no POST.\<close>

fun posts_for :: "('w, 'k) gw_env \<Rightarrow> string set \<Rightarrow> gw_event \<Rightarrow> bool" where
  "posts_for E U (EvSend hop addr rq) \<longleftrightarrow> post_for E U rq"
| "posts_for E U (EvNode peer r p) \<longleftrightarrow> True"

lemma posts_for_mono: "posts_for E U e \<Longrightarrow> U \<subseteq> V \<Longrightarrow> posts_for E V e"
  by (cases e) (auto simp: post_for_def)

lemma post_for_redirect: "post_for E U rq \<Longrightarrow> post_for E U (redirect_request rq resp loc)"
  by (auto simp: post_for_def signed_as_def redirect_request_def)

lemma client_posts: "post_for E U rq \<Longrightarrow> emits (posts_for E U) (client_do E via rq)"
proof (induction E via rq rule: client_do.induct)
  case (1 E via rq)
  have hop: "emits (posts_for E U) (client_do E (Suc via) (redirect_request rq resp loc))"
    if "dialControl addr = None" "redirect_target E rq resp = Some (Some loc)" "checkRedirect (Suc via) loc = None" for addr resp loc
    by (rule 1(1) [where x = addr and xb = resp and x2a = loc]) (use that post_for_redirect [OF 1(2)] in auto)
  show ?case
    by (subst client_do.simps, intro keeps_intros) (auto intro!: keeps_intros hop simp: 1(2))
qed

lemma get_request_method:
  assumes "signer_ok E" shows "makes (\<lambda>rq. rq_method rq = ''GET'') (get_request E url accept)"
proof (rule makesI)
  fix s rq s' assume r: "run_state (get_request E url accept) s = (Inr rq, s')"
  have "rq_method rq' = rq_method rq0" if "run_state (signRequest E k rq0 b) t = (Inr rq', t')" for k rq0 b t rq' t'
    using that assms unfolding signer_ok_def
    by (auto simp: signRequest_def with_header_def split: option.splits if_splits)
  with r show "rq_method rq = ''GET''"
    by (auto simp: get_request_def signGet_def new_request_def with_header_def split: if_splits option.splits)
qed (auto simp: get_request_def signGet_def split: option.split intro!: keeps_intros)

lemma get_posts:
  assumes "env_ok E" shows "emits (posts_for E U) (sendRetry E limit (get_request E url accept))"
  by (rule sendRetry_emits [OF _ get_request_method])
    (use assms in \<open>auto simp: env_ok_def post_for_def with_user_agent_def with_header_def intro!: client_posts\<close>)

lemma post_request_signed_as:
  assumes "u \<in> U" shows "makes (\<lambda>rq. post_for E U (with_user_agent rq)) (post_request E u target body)"
proof (rule makesI)
  fix s rq s' assume "run_state (post_request E u target body) s = (Inr rq, s')"
  then obtain hs rq0 where "env_sign E hs (keyID (env_gw E) u) rq0 (Some body) = Some rq"
    by (auto simp: post_request_def new_request_def signRequest_def Let_def split: if_splits option.splits)
  with assms show "post_for E U (with_user_agent rq)" unfolding post_for_def signed_as_def by blast
qed (auto simp: post_request_def split: option.split intro!: keeps_intros)

section \<open>Every operation\<close>

lemma posted:
  assumes "env_ok E" "u \<in> U" shows "emits (posts_for E U) (postSigned E u target doc)"
proof -
  have "emits (posts_for E U) (sendRetry E limit (post_request E u target body))" for limit body
    by (rule sendRetry_emits [OF _ post_request_signed_as [OF assms(2)]])
      (use assms(1) in \<open>auto simp: env_ok_def intro!: client_posts\<close>)
  then show ?thesis unfolding postSigned_def by (auto intro!: keeps_intros)
qed

lemma reads_post_nothing [keeps_intros]:
  assumes "env_ok E"
  shows "emits (posts_for E U) (apGetJSON E raw accept)" "emits (posts_for E U) (apGetArray E raw accept)"
    "emits (posts_for E U) (fetchActor E raw)" "emits (posts_for E U) (fetchKey E raw)"
    "emits (posts_for E U) (remoteInbox E raw)" "emits (posts_for E U) (fetchMedia E raw)"
  by (rule reads_emit, rule get_posts [OF assms])+

lemma resolving_posts_nothing [keeps_intros]: "env_ok E \<Longrightarrow> emits (posts_for E U) (resolveActorID E h)"
  unfolding resolveActorID_def by (auto intro!: keeps_intros)

lemma follow_posts: "env_ok E \<Longrightarrow> u \<in> U \<Longrightarrow> emits (posts_for E U) (deliverFollow E u a undo)"
  unfolding deliverFollow_def by (auto intro!: keeps_intros posted)

interpretation signing_bridge: ap_reads "newMastodonBridge E nodeID" "env_ok E" "posts_for E U"
  for E :: "('w, 'k) gw_env" and nodeID and U
  by unfold_locales (auto simp: gateway_transport_def intro!: keeps_intros)

interpretation signing_client: requester "node_requester N" True "posts_for E U"
  for N :: "'w node_env" and E :: "('w, 'k) gw_env" and U
  by unfold_locales
    (auto simp: node_requester_def requestUser_def intro!: keeps_intros emits_request emits_owner)

interpretation signing_store: follower_store "nodeFollowerStore (node_requester N) C (resolveActorID E)" "env_ok E"
    "posts_for E U" for N :: "'w node_env" and C and E :: "('w, 'k) gw_env" and U
  by unfold_locales
    (auto simp: nodeFollowerStore_def
      intro!: signing_client.emits_node_add signing_client.emits_node_pages resolving_posts_nothing)

lemma bridge_posts:
  assumes "env_ok E"
  shows "emits (posts_for E {l}) (react (newMastodonBridge E n) l url emoji undo)"
    "emits (posts_for E {l}) (announce (newMastodonBridge E n) l url undo)"
    "emits (posts_for E {l}) (follow (newMastodonBridge E n) l h undo)"
    "emits (posts_for E {t_UserId ev}) (reply (newMastodonBridge E n) ev)"
    "emits (posts_for E {dt_UserId del}) (delete (newMastodonBridge E n) del)"
proof -
  note steps = keeps_intros signing_bridge.emits_authorInbox [OF assms] signing_bridge.emits_wrap_undo
    posted [OF assms] follow_posts [OF assms]
  show "emits (posts_for E {l}) (react (newMastodonBridge E n) l url emoji undo)"
    "emits (posts_for E {l}) (announce (newMastodonBridge E n) l url undo)"
    "emits (posts_for E {l}) (follow (newMastodonBridge E n) l h undo)"
    "emits (posts_for E {t_UserId ev}) (reply (newMastodonBridge E n) ev)"
    "emits (posts_for E {dt_UserId del}) (delete (newMastodonBridge E n) del)"
    unfolding react_def announce_def follow_def reply_def delete_def resolveHandle_def
    using assms by (auto simp: gateway_transport_def intro!: steps)
qed

lemma deliveries_post:
  assumes "env_ok E" "u \<in> U"
  shows "emits (posts_for E U) (deliverToFollowers E (nodeFollowerStore (node_requester N) C (resolveActorID E)) c u doc)"
proof (rule signing_store.deliveries [OF assms(1)])
  fix as show "emits (posts_for E U) (deliver_each E c u doc as)"
    using assms by (induction as) (auto simp: deliver_one_def intro!: keeps_intros posted)
qed

section \<open>In the name of its user\<close>

text \<open>
  C4: the gateway signs in a user's name only for that user.  Reading the Fediverse sends no POST at all.
  A reaction, a boost, a follow, a reply and a deletion send POSTs signed for the user who reacts, boosts,
  follows, replies or deletes, and so do the pollers that \<open>start\<close> spawns for a user, over any number of
  rounds, and the refresh of the profile; retries and redirects included.
\<close>

theorem signs_for_its_user:
  assumes "env_ok E" "F = nodeFollowerStore (node_requester N) C (resolveActorID E)"
  shows "(\<forall>h c ev url cur field.
      emits (posts_for E {}) (getUser (newMastodonBridge E n) h c) \<and>
      emits (posts_for E {}) (getTweetsOrReplies (newMastodonBridge E n) ev) \<and>
      emits (posts_for E {}) (getTweet (newMastodonBridge E n) url) \<and>
      emits (posts_for E {}) (getTweetStats (newMastodonBridge E n) url) \<and>
      emits (posts_for E {}) (followList (newMastodonBridge E n) h cur field) \<and>
      emits (posts_for E {}) (getImage (newMastodonBridge E n) url)) \<and>
    (\<forall>u url emoji undo h.
      emits (posts_for E {u}) (react (newMastodonBridge E n) u url emoji undo) \<and>
      emits (posts_for E {u}) (announce (newMastodonBridge E n) u url undo) \<and>
      emits (posts_for E {u}) (follow (newMastodonBridge E n) u h undo)) \<and>
    (\<forall>ev. emits (posts_for E {t_UserId ev}) (reply (newMastodonBridge E n) ev)) \<and>
    (\<forall>del. emits (posts_for E {dt_UserId del}) (delete (newMastodonBridge E n) del)) \<and>
    (\<forall>u k seen.
      emits (posts_for E {u}) (run_tweet_poller C k (tweet_poller_of E F cancelled (node_requester N) seen u)) \<and>
      emits (posts_for E {u}) (run_follow_poller C k (follow_poller_of E (node_requester N) u)) \<and>
      emits (posts_for E {u}) (sendActorUpdate E (nodeSource_GetUser (node_requester N) C) F cancelled u))"
proof (intro conjI allI)
  note reads = signing_bridge.read_operations [OF assms(1)]
  show "emits (posts_for E {}) (getUser (newMastodonBridge E n) h c)"
    "emits (posts_for E {}) (getTweetsOrReplies (newMastodonBridge E n) ev)"
    "emits (posts_for E {}) (getTweet (newMastodonBridge E n) url)"
    "emits (posts_for E {}) (getTweetStats (newMastodonBridge E n) url)"
    "emits (posts_for E {}) (followList (newMastodonBridge E n) h cur field)"
    "emits (posts_for E {}) (getImage (newMastodonBridge E n) url)" for h c ev url cur field by (rule reads)+
  show "emits (posts_for E {u}) (react (newMastodonBridge E n) u url emoji undo)"
    "emits (posts_for E {u}) (announce (newMastodonBridge E n) u url undo)"
    "emits (posts_for E {u}) (follow (newMastodonBridge E n) u h undo)"
    "emits (posts_for E {t_UserId ev}) (reply (newMastodonBridge E n) ev)"
    "emits (posts_for E {dt_UserId del}) (delete (newMastodonBridge E n) del)" for u url emoji undo h ev del
    by (rule bridge_posts [OF assms(1)])+
  have publish: "emits (posts_for E {u}) (publishNote E F cancelled u t)" for u t
    unfolding publishNote_def assms(2) by (rule deliveries_post [OF assms(1)]) simp
  then show "emits (posts_for E {u}) (run_tweet_poller C k (tweet_poller_of E F cancelled (node_requester N) seen u))" for u k seen
    unfolding run_tweet_poller_def by (auto simp: tweet_poller_of_def newTweetPoller_def intro: signing_client.emits_tweet_run)
  show "emits (posts_for E {u}) (run_follow_poller C k (follow_poller_of E (node_requester N) u))" for u k
    unfolding run_follow_poller_def
    by (auto simp: follow_poller_of_def newFollowPoller_def sendFollow_def sendUndoFollow_def
        intro!: signing_client.emits_follow_run resolving_posts_nothing follow_posts assms(1))
  show "emits (posts_for E {u}) (sendActorUpdate E (nodeSource_GetUser (node_requester N) C) F cancelled u)" for u
    unfolding sendActorUpdate_def nodeSource_GetUser_def assms(2)
    by (auto intro!: keeps_intros signing_client.request deliveries_post assms(1))
qed

lemma signs_for_its_user_witness:
  "emits (posts_for (sample_env []) {''alice''}) (react (newMastodonBridge (sample_env []) ''gw'') ''alice'' ''https://m.example/1'' ''x'' True)"
  using signs_for_its_user [OF sample_env_ok refl, THEN conjunct2, THEN conjunct1] by blast

text \<open>
  C5: the inbox is no signing oracle.  Handling a delivery sends no POST, whatever was delivered; and the
  work that it may start posts at most in the name of a user that the source knows, when a Follow is
  accepted, and nothing at all when an event is forwarded to a node.
\<close>

theorem inbox_is_no_signing_oracle:
  assumes "env_ok E" "F = nodeFollowerStore (node_requester N) C (resolveActorID E)"
    and "\<And>u. emits (posts_for E {}) (src u)"
    and run: "run_state (handleInbox E src full user r) s = ((st, j), s')"
  shows "extends (posts_for E {}) s s' \<and>
    (case j of
       None \<Rightarrow> True
     | Some (AcceptJob u remote fl) \<Rightarrow> (\<exists>t wu t'. run_state (src u) t = (Some wu, t')) \<and>
         emits (posts_for E {u}) (run_job E F (node_requester N) (AcceptJob u remote fl))
     | Some (ForwardJob rt p) \<Rightarrow> emits (posts_for E {}) (run_job E F (node_requester N) (ForwardJob rt p)))"
proof (intro conjI)
  have follow: "emits (posts_for E {}) (handleFollow E src full user remote raw)" for remote raw
    unfolding handleFollow_def Let_def by (intro keeps_intros assms(3))
  have other: "emits (posts_for E {}) (handleInboundActivity E full raw)" for raw
    unfolding handleInboundActivity_def by (intro keeps_intros)
  have "emits (posts_for E {}) (handleInbox E src full user r)"
    unfolding handleInbox_def Let_def using assms(1) by (intro keeps_intros follow other)
  then show "extends (posts_for E {}) s s'" using run by (rule emitsD)
  have known: "\<exists>t wu t'. run_state (src u) t = (Some wu, t')" if "j = Some (AcceptJob u remote fl)" for u remote fl
  proof -
    have "\<exists>raw. job_of_signer src (stringField raw ''actor'') raw (AcceptJob u remote fl)"
      using run that unfolding handleInbox_def Let_def
      by (auto split: if_splits option.splits prod.splits sum.splits
          dest: handleFollow_job handleInboundActivity_job [OF _ refl, of _ _ _ _ _ _ _ src])
    then show ?thesis by (auto simp: job_of_signer_def)
  qed
  have accept: "emits (posts_for E {u}) (run_job E F (node_requester N) (AcceptJob u remote fl))" for u remote fl
    unfolding run_job_def acceptFollow_def assms(2)
    using assms(1) by (auto intro!: keeps_intros posted signing_store.add)
  have forward: "emits (posts_for E {}) (run_job E F (node_requester N) (ForwardJob rt p))" for rt p
    unfolding run_job_def by (auto intro!: keeps_intros signing_client.request)
  show "case j of None \<Rightarrow> True
     | Some (AcceptJob u remote fl) \<Rightarrow> (\<exists>t wu t'. run_state (src u) t = (Some wu, t')) \<and>
         emits (posts_for E {u}) (run_job E F (node_requester N) (AcceptJob u remote fl))
     | Some (ForwardJob rt p) \<Rightarrow> emits (posts_for E {}) (run_job E F (node_requester N) (ForwardJob rt p))"
    using known accept forward by (auto split: option.split job.split)
qed

lemma inbox_is_no_signing_oracle_witness:
  "\<exists>fl. emits (posts_for sample_inbox_env {''alice''}) (run_job sample_inbox_env
      (nodeFollowerStore (node_requester sample_idle_node) (nc_codec sample_node_env) (resolveActorID sample_inbox_env))
      (node_requester sample_idle_node) (AcceptJob ''alice'' ''https://m.example/users/bob'' fl))"
proof -
  obtain s' fl where run: "run_state (handleInbox sample_inbox_env sample_source False [] sample_post) (start_state [ok_response ''doc''])
      = ((202, Some (AcceptJob ''alice'' ''https://m.example/users/bob'' fl)), s')" using sample_inbox_run by blast
  have ok: "env_ok sample_inbox_env" unfolding sample_inbox_env_def by (rule sample_env_ok)
  have src: "emits (posts_for sample_inbox_env {}) (sample_source u)" for u by (simp add: sample_source_def)
  from inbox_is_no_signing_oracle [OF ok refl src run, of sample_idle_node "nc_codec sample_node_env"] show ?thesis by auto
qed

section \<open>Gossiped tweets\<close>

text \<open>What the route of a gossiped tweet does with it.\<close>

definition gossip_outcome :: "('k, 'p) wire_lib \<Rightarrow> ('w, 'e) node_server \<Rightarrow> tweet \<Rightarrow> ('w, string option) gw" where
  "gossip_outcome W S t =
    (if nl_is_reply (ns_lib S) t then do {
       e \<leftarrow> reply (ns_bridge S) t;
       ret (wl_marshal_reply W (case e of Some err \<Rightarrow> RError err | None \<Rightarrow> RTweet t))
     }
     else if t_RetweetedBy t \<noteq> None \<or> \<not> (t_ParentId t = None \<or> t_ParentId t = Some [])
       then ret (wl_marshal_reply W (RTweet t))
     else do {
       deliverToFollowers (ns_env S) (ns_followers S) (ns_cancelled S) (t_UserId t)
         (buildCreateNote (env_lib (ns_env S)) (env_gw (ns_env S)) (t_UserId t) t);
       ret (wl_marshal_reply W (RTweet t))
     })"

lemma serve_gossip:
  assumes "wl_unmarshal W (take maxRequestBytes sent) = Some msg" "msg_Signature msg \<noteq> []"
    "wl_verify W (wl_pub_of_peer W p) (wl_signing_bytes W msg) (msg_Signature msg)"
    and "msg_Body msg \<noteq> []" "nl_decode (ns_lib S) (NR routePostTweet) (msg_Body msg) = Some (TweetPayload t)"
  shows "serveRoutes W S (NR routePostTweet) (Some p) (Some sent) = gossip_outcome W S t"
proof -
  have "on_event S routePostTweet (TweetPayload t) = on_tweet S (TweetPayload t)"
    by (simp add: on_event_def Let_def)
  then show ?thesis
    using assms
    by (auto simp: gossip_outcome_def serveRoutes_def streamHandler_def node_handler_of_def wrapJSON_def on_tweet_def Let_def
        publishableTweet_def federateTweetAsync_def publishNote_def reply_unless_def
        intro!: arg_cong2 [where f = State_Monad.bind] split: option.splits)
qed

text \<open>
  C40: who sends a gossiped tweet plays no part in whose name it is federated.  Whichever peer sends it, a
  tweet in an envelope that verifies for that peer has one outcome, in which the peer does not occur: a
  reply is federated as a reply, to a parent of whatever kind, the error being the answer if that fails;
  a retweet, and a tweet with a parent that is no reply, is only echoed; and an original top-level tweet is
  delivered to the followers of the author it names, and echoed.  And every POST that is sent is signed
  for the author it names.
\<close>

theorem gossip_is_federated_as_named:
  assumes "env_ok (ns_env S)" "ns_followers S = nodeFollowerStore (node_requester N) C (resolveActorID (ns_env S))"
    and "wl_unmarshal W (take maxRequestBytes sent) = Some msg" "msg_Signature msg \<noteq> []"
    "wl_verify W (wl_pub_of_peer W p) (wl_signing_bytes W msg) (msg_Signature msg)"
    and "msg_Body msg \<noteq> []" "nl_decode (ns_lib S) (NR routePostTweet) (msg_Body msg) = Some (TweetPayload t)"
  shows "serveRoutes W S (NR routePostTweet) (Some p) (Some sent) = gossip_outcome W S t \<and>
    emits (posts_for (ns_env S) {t_UserId t}) (serveRoutes W S (NR routePostTweet) (Some p) (Some sent))"
proof
  show same: "serveRoutes W S (NR routePostTweet) (Some p) (Some sent) = gossip_outcome W S t"
    by (rule serve_gossip [OF assms(3-7)])
  show "emits (posts_for (ns_env S) {t_UserId t}) (serveRoutes W S (NR routePostTweet) (Some p) (Some sent))"
    unfolding same gossip_outcome_def ns_bridge_def assms(2)
    by (auto intro!: keeps_intros bridge_posts [OF assms(1)] deliveries_post [OF assms(1)])
qed

text \<open>A server whose peers send it a reply of alice's to a status of bob's.\<close>

definition gossiped_reply :: tweet where
  "gossiped_reply = zero_tweet\<lparr>t_Id := ''2'', t_UserId := ''alice'', t_ParentId := Some ''https://m.example/@bob/9''\<rparr>"

definition reply_server :: "(http_response list, string) node_server" where
  "reply_server = sample_node_server\<lparr>ns_lib := sample_node_lib\<lparr>nl_decode := (\<lambda>_ _. Some (TweetPayload gossiped_reply))\<rparr>\<rparr>"

lemma gossip_is_federated_as_named_witness:
  "serveRoutes sample_wire reply_server (NR routePostTweet) (Some ''mallory'') (Some ''m'') = do {
     e \<leftarrow> reply (ns_bridge reply_server) gossiped_reply;
     ret (wl_marshal_reply sample_wire (case e of Some err \<Rightarrow> RError err | None \<Rightarrow> RTweet gossiped_reply))
   } \<and>
   emits (posts_for (sample_env []) {''alice''})
     (serveRoutes sample_wire reply_server (NR routePostTweet) (Some ''mallory'') (Some ''m''))"
proof -
  let ?m = "\<lparr>msg_Body = ''b'', msg_MessageId = ''i'', msg_NodeId = ''p'', msg_Destination = ''d'',
    msg_Timestamp = 0, msg_Version = ''0.0.0'', msg_Signature = ''sig''\<rparr>"
  have h: "wl_unmarshal sample_wire (take maxRequestBytes ''m'') = Some ?m" "msg_Signature ?m \<noteq> []"
    "wl_verify sample_wire (wl_pub_of_peer sample_wire ''mallory'') (wl_signing_bytes sample_wire ?m) (msg_Signature ?m)"
    "msg_Body ?m \<noteq> []" "nl_decode (ns_lib reply_server) (NR routePostTweet) (msg_Body ?m) = Some (TweetPayload gossiped_reply)"
    by (simp_all add: reply_server_def sample_wire_def maxRequestBytes_def)
  have e: "ns_env reply_server = sample_env []"
    "ns_followers reply_server =
      nodeFollowerStore (node_requester sample_idle_node) (nc_codec sample_node_env) (resolveActorID (ns_env reply_server))"
    by (simp_all add: reply_server_def sample_node_server_def)
  have "env_ok (ns_env reply_server)" unfolding e(1) by (rule sample_env_ok)
  from gossip_is_federated_as_named [OF this e(2) h]
  have g: "serveRoutes sample_wire reply_server (NR routePostTweet) (Some ''mallory'') (Some ''m'') =
      gossip_outcome sample_wire reply_server gossiped_reply"
    "emits (posts_for (sample_env []) {t_UserId gossiped_reply})
      (serveRoutes sample_wire reply_server (NR routePostTweet) (Some ''mallory'') (Some ''m''))"
    unfolding e(1) by blast+
  have "nl_is_reply (ns_lib reply_server) gossiped_reply" "t_UserId gossiped_reply = ''alice''"
    by (simp_all add: reply_server_def sample_node_lib_def gossiped_reply_def)
  then show ?thesis using g by (simp add: gossip_outcome_def)
qed

end
