(* ===== verification/Bridge_Facts.thy ===== *)
theory Bridge_Facts
  imports Ap_Gateway
begin

text \<open>
  What the operations of the bridge return: timelines hold only top-level posts, reply lists are
  bounded and hold direct replies, pagination stays on the REST path, and a reaction is federated
  only when the Fediverse can express it.
\<close>

section \<open>Timelines\<close>

lemma top_level_parent: "top_level_status now t \<Longrightarrow> t_ParentId t = None"
  by (simp add: top_level_status_def)

lemma rest_page_top_level: "\<forall>t\<in>set (fst (rest_page L now host its l0)). t_ParentId t = None"
proof (induction its arbitrary: l0)
  case (Cons it its)
  show ?case
  proof (cases "asMap it")
    case (Some s)
    show ?thesis
      using Cons.IH [of "if asString (jget (Some s) ''id'') \<noteq> [] then asString (jget (Some s) ''id'') else l0"]
        restStatusToTweet_wf [of L now host "Some s"]
      by (auto simp: Some Let_def top_level_parent split: prod.splits option.splits)
  qed (use Cons.IH in simp)
qed simp

definition top_level_timeline :: "tweetsResponse \<Rightarrow> bool" where
  "top_level_timeline r \<longleftrightarrow> (\<forall>t\<in>set (tr_Tweets r). t_ParentId t = None \<or> t_ParentId t = Some [])"

lemma rest_page_parent: "rest_page L now host its l0 = (ts, l) \<Longrightarrow> t \<in> set ts \<Longrightarrow> t_ParentId t = None"
  using rest_page_top_level [of L now host its l0] by simp

lemma restTweetsPage_top_level:
  "run_state (restTweetsPage B h u) s = ((r, ok), s') \<Longrightarrow> top_level_timeline r"
  by (auto simp: restTweetsPage_def top_level_timeline_def tweets_for_def Let_def dest: rest_page_parent
      split: sum.splits prod.splits)

lemma restTweets_top_level:
  "run_state (restTweets B h) s = ((r, ok), s') \<Longrightarrow> top_level_timeline r"
  by (auto simp: restTweets_def Let_def split: option.splits sum.splits prod.splits if_splits
      dest: restTweetsPage_top_level) (auto simp: top_level_timeline_def tweets_for_def)

lemma apTweets_top_level:
  "run_state (apTweets B h c) s = (Inr r, s') \<Longrightarrow> top_level_timeline r"
  by (auto simp: apTweets_def top_level_timeline_def topLevelOnly_def tweets_for_def
      split: sum.splits option.splits prod.splits)

text \<open>
  A profile timeline never contains a reply, whichever source it was read from (the REST page,
  a REST cursor or the ActivityPub outbox) and however the remote server mixes replies into it.
\<close>

theorem profile_timeline_top_level:
  assumes "run_state (getTweets B handle cursor) s = (Inr r, s')" and "t \<in> set (tr_Tweets r)"
  shows "t_ParentId t = None \<or> t_ParentId t = Some []"
proof -
  have "top_level_timeline r"
    using assms(1) restTweetsPage_top_level restTweets_top_level apTweets_top_level
    by (auto simp: getTweets_def Let_def split: if_splits prod.splits) blast+
  with assms(2) show ?thesis by (simp add: top_level_timeline_def)
qed

section \<open>Replies\<close>

lemma length_somes: "length (somes xs) \<le> length xs"
proof -
  have "somes xs = List.map_filter (\<lambda>x. x) xs"
    unfolding somes_def by (induction xs) (auto simp: List.map_filter_simps split: option.splits)
  then show ?thesis by (simp add: List.map_filter_def)
qed

lemma length_map_gw: "run_state (map_gw f xs) s = (ys, s') \<Longrightarrow> length ys = length xs"
  by (induction xs arbitrary: s ys) (auto split: prod.splits)

lemma length_resolve_items: "run_state (resolveReplyItems B items) s = (ts, s') \<Longrightarrow> length ts \<le> length items"
proof -
  assume "run_state (resolveReplyItems B items) s = (ts, s')"
  then obtain ys where "run_state (map_gw (resolveReplyItem B) items) s = (ys, s')" "ts = somes ys"
    by (auto simp: resolveReplyItems_def split: prod.splits)
  then show ?thesis using length_somes [of ys] length_map_gw by metis
qed

lemma reply_pages_bound:
  "run_state (reply_pages B n page u acc) s = (ts, s') \<Longrightarrow> length acc \<le> maxReplies \<Longrightarrow> length ts \<le> maxReplies"
proof (induction n arbitrary: page u acc s)
  case (Suc n)
  show ?case
  proof (cases "length acc \<ge> maxReplies")
    case False
    have step: "length ts \<le> maxReplies"
      if r: "run_state (resolveReplyItems B (take (maxReplies - length acc) items)) s1 = (ts1, s2)"
        and n: "run_state (reply_pages B n None nxt (acc @ ts1)) s2 = (ts, s')" for items s1 ts1 s2 nxt
    proof -
      from length_resolve_items [OF r] have "length (acc @ ts1) \<le> maxReplies" using False by simp linarith
      from Suc.IH [OF n this] show ?thesis .
    qed
    from Suc.prems False show ?thesis
      by (auto split: prod.splits option.splits if_splits dest: step)
  qed (use Suc.prems in auto)
qed simp

lemma context_items_bound: "length (context_items B now host i u room its) \<le> room"
proof (induction its arbitrary: room)
  case (Cons it its)
  show ?case
    by (cases room) (use Cons.IH in \<open>auto split: option.split\<close>)
qed simp

lemma contextReplies_bound:
  "run_state (contextReplies B u) s = (Some ts, s') \<Longrightarrow> length ts \<le> maxReplies"
  using context_items_bound
  by (auto simp: contextReplies_def split: option.splits sum.splits prod.splits if_splits)

lemma apReplies_bound: "run_state (apReplies B u) s = (Inr ts, s') \<Longrightarrow> length ts \<le> maxReplies"
  by (auto simp: apReplies_def Let_def split: sum.splits prod.splits if_splits option.splits
      dest!: reply_pages_bound)

text \<open>
  A thread never makes the gateway answer with more than fifty replies, on either path, however
  many descendants or pages the remote server returns.
\<close>

theorem replies_bounded:
  assumes "run_state (getReplies B url) s = (Inr ts, s')" shows "length ts \<le> 50"
proof -
  have "length ts \<le> maxReplies"
    using assms
    by (auto simp: getReplies_def Let_def split: option.splits prod.splits
        dest: contextReplies_bound) (auto simp: map_sum_def split: sum.splits dest: apReplies_bound)
  then show ?thesis by (simp add: maxReplies_def)
qed

section \<open>A canned transport\<close>

text \<open>A transport that answers from a table of documents, on which the operations can be evaluated.\<close>

definition table_get :: "(string \<times> json) list \<Rightarrow> string \<Rightarrow> gw_error + json" where
  "table_get docs u = (case map_of docs u of None \<Rightarrow> Inl ErrNetwork | Some j \<Rightarrow> Inr j)"

definition table_transport :: "(string \<times> json) list \<Rightarrow> unit apTransport" where
  "table_transport docs =
     \<lparr>ap_getJSON = (\<lambda>u _. ret (as_document (table_get docs u))),
      ap_resolveActorID = (\<lambda>h. ret (Inr h)), ap_getArray = (\<lambda>u _. ret (as_array (table_get docs u))),
      ap_fetchActor = (\<lambda>u. ret (as_document (table_get docs u))),
      ap_remoteInbox = (\<lambda>u. ret (Inr (u @ ''/inbox''))), ap_actorID = actorID sample_gateway,
      ap_postSigned = (\<lambda>_ _ _. ret None), ap_deliverFollow = (\<lambda>_ _ _. ret ()),
      ap_fetchMedia = (\<lambda>_. ret (Inl ErrNetwork)), ap_isSelfHost = isSelfHost sample_gateway\<rparr>"

definition sample_bridge :: "(string \<times> json) list \<Rightarrow> unit bridge" where
  "sample_bridge docs = \<lparr>br_ap = table_transport docs, br_nodeID = ''n'', br_lib = sample_lib,
     br_now = (\<lambda>w. (7, w)), br_token = (\<lambda>w. (''tok'', w))\<rparr>"

definition sample_status :: "string \<Rightarrow> string \<Rightarrow> json" where
  "sample_status i parent = JObj [(''id'', JStr i), (''uri'', JStr (''https://m.example/users/bob/statuses/'' @ i)),
     (''content'', JStr ''hi''), (''account'', JObj [(''acct'', JStr ''bob'')]), (''in_reply_to_id'', JStr parent)]"

definition sample_docs :: "(string \<times> json) list" where
  "sample_docs =
     [(''https://m.example/api/v1/accounts/7/statuses?limit=2'', JArr [sample_status ''12'' [], sample_status ''11'' ''9'']),
      (''https://m.example/api/v1/statuses/9/context'',
        JObj [(''descendants'', JArr [sample_status ''11'' ''9'', sample_status ''13'' ''11''])]),
      (''https://m.example/users/bob/statuses/9'',
        JObj [(''id'', JStr ''https://m.example/users/bob/statuses/9''),
          (''attributedTo'', JStr ''https://m.example/users/bob'')])]"

definition unit_state :: "unit gw_state" where
  "unit_state = \<lparr>st_world = (), st_trace = [], st_good = []\<rparr>"

lemma sample_timeline:
  "map_sum (\<lambda>e. e) (\<lambda>r. (map t_Id (tr_Tweets r), tr_Cursor r))
     (fst (run_state (getTweets (sample_bridge sample_docs) ''bob@m.example''
        (Some ''https://m.example/api/v1/accounts/7/statuses?limit=2'')) unit_state))
   = Inr ([''https://m.example/users/bob/statuses/12''],
       ''https://m.example/api/v1/accounts/7/statuses?limit=2&max_id=11'')"
  by code_simp

lemma profile_timeline_top_level_witness:
  "\<exists>r s' t. run_state (getTweets (sample_bridge sample_docs) ''bob@m.example''
       (Some ''https://m.example/api/v1/accounts/7/statuses?limit=2'')) unit_state = (Inr r, s') \<and>
     t \<in> set (tr_Tweets r) \<and> (t_ParentId t = None \<or> t_ParentId t = Some [])"
proof -
  obtain r s' where r: "run_state (getTweets (sample_bridge sample_docs) ''bob@m.example''
      (Some ''https://m.example/api/v1/accounts/7/statuses?limit=2'')) unit_state = (Inr r, s')"
    and ids: "map t_Id (tr_Tweets r) = [''https://m.example/users/bob/statuses/12'']"
    using sample_timeline by (auto simp: map_sum_def prod_eq_iff split: sum.splits)
  then obtain t where t: "t \<in> set (tr_Tweets r)" by (cases "tr_Tweets r") auto
  from profile_timeline_top_level [OF r t] r t show ?thesis by blast
qed

lemma sample_thread:
  "map_sum (\<lambda>e. e) (map t_Id)
     (fst (run_state (getReplies (sample_bridge sample_docs) ''https://m.example/users/bob/statuses/9'') unit_state))
   = Inr [''https://m.example/users/bob/statuses/11'']"
  by code_simp

lemma replies_bounded_witness:
  "\<exists>ts s'. run_state (getReplies (sample_bridge sample_docs) ''https://m.example/users/bob/statuses/9'') unit_state
     = (Inr ts, s') \<and> length ts \<le> 50"
proof -
  obtain ts s' where "run_state (getReplies (sample_bridge sample_docs) ''https://m.example/users/bob/statuses/9'')
      unit_state = (Inr ts, s')"
    using sample_thread by (auto simp: map_sum_def prod_eq_iff split: sum.splits)
  with replies_bounded [OF this] show ?thesis by blast
qed

section \<open>Reactions\<close>

text \<open>The Like of a note by a user, and the activity delivered: the Like, or the Undo that carries it.\<close>

definition like_of :: "string \<Rightarrow> string \<Rightarrow> string \<Rightarrow> activity" where
  "like_of actor token noteID =
     Activity (CtxIRI asContext) (actor @ ''#like-'' @ token) typeLike actor (ObjIRI noteID) [] []"

text \<open>What the count is after a reaction, or its undoing, from what the note says of its likes.\<close>

definition count_after :: "bool \<Rightarrow> u64 \<Rightarrow> u64" where
  "count_after undo n = (if \<not> undo then n + 1 else if n > 0 then n - 1 else n)"

lemma react_cases:
  assumes "run_state (react B u url e undo) s = (r, s')" and "undo \<or> e = lib_default_reaction (br_lib B)"
  shows "(\<exists>err. run_state (authorInbox B url) s = (Inl err, s') \<and> r = Inl err) \<or>
    (\<exists>note inbox s1 s2 doc tok outcome.
      run_state (authorInbox B url) s = (Inr (note, inbox), s1) \<and>
      run_state (ap_postSigned (br_ap B) u inbox doc) s2 = (outcome, s') \<and> st_trace s2 = st_trace s1 \<and>
      (let like = like_of (ap_actorID (br_ap B) u) tok (asString (jget note ''id'')) in
       if undo then act_Type doc = typeUndo \<and> act_Actor doc = ap_actorID (br_ap B) u \<and> act_Object doc = ObjActivity like
       else doc = like) \<and>
      r = (case outcome of Some err \<Rightarrow> Inl err
           | None \<Rightarrow> Inr (count_after undo (apCollectionCount (lib_oor (br_lib B)) (jget note ''likes'')))))"
proof -
  obtain a s1 where a: "run_state (authorInbox B url) s = (a, s1)" by fastforce
  show ?thesis
  proof (cases a)
    case (Inl err)
    then show ?thesis using assms a by (auto simp: react_def)
  next
    case (Inr ni)
    obtain nt inbox where ni: "ni = (nt, inbox)" by fastforce
    obtain tok w where t: "br_token B (st_world s1) = (tok, w)" by fastforce
    obtain doc s2 where d: "run_state (wrap_undo B (ap_actorID (br_ap B) u)
        (like_of (ap_actorID (br_ap B) u) tok (asString (jget nt ''id''))) undo) (s1\<lparr>st_world := w\<rparr>) = (doc, s2)" by fastforce
    obtain dl s3 where p: "run_state (ap_postSigned (br_ap B) u inbox doc) s2 = (dl, s3)" by fastforce
    have "s3 = s'" "r = (case dl of Some err \<Rightarrow> Inl err
           | None \<Rightarrow> Inr (count_after undo (apCollectionCount (lib_oor (br_lib B)) (jget nt ''likes''))))"
      using assms a Inr ni t d p
      by (auto simp: react_def Let_def like_of_def count_after_def split: option.splits if_splits)
    moreover have "st_trace s2 = st_trace s1" using d by (auto simp: wrap_undo_def Let_def split: if_splits prod.splits)
    moreover have "let like = like_of (ap_actorID (br_ap B) u) tok (asString (jget nt ''id'')) in
       if undo then act_Type doc = typeUndo \<and> act_Actor doc = ap_actorID (br_ap B) u \<and> act_Object doc = ObjActivity like
       else doc = like"
      using d by (auto simp: wrap_undo_def undoIf_def Let_def split: if_splits)
    ultimately show ?thesis using a Inr ni p by blast
  qed
qed

text \<open>
  C31: a reaction reaches the Fediverse exactly when it has a form there.  An emoji other than the
  default heart is accepted and dropped: nothing is fetched, sent or changed, and the count is zero.  The
  default heart, and every undoing, is delivered: unless the note or its author's inbox cannot be read,
  in which case the error is the answer and no delivery is tried, the activity delivered to that inbox is
  the Like of that note by the reacting user or an Undo of the user that carries that Like; the answer is
  the delivery's error, or the note's count of likes moved by one, never below zero.
\<close>

theorem reaction_federated_iff_expressible:
  "(\<not> undo \<and> emoji \<noteq> lib_default_reaction (br_lib B) \<longrightarrow>
      run_state (react B localUser url emoji undo) s = (Inr 0, s)) \<and>
   (undo \<or> emoji = lib_default_reaction (br_lib B) \<longrightarrow>
      (\<forall>r s'. run_state (react B localUser url emoji undo) s = (r, s') \<longrightarrow>
        (\<exists>err. run_state (authorInbox B url) s = (Inl err, s') \<and> r = Inl err) \<or>
        (\<exists>note inbox s1 s2 doc tok outcome. run_state (authorInbox B url) s = (Inr (note, inbox), s1) \<and>
           run_state (ap_postSigned (br_ap B) localUser inbox doc) s2 = (outcome, s') \<and> st_trace s2 = st_trace s1 \<and>
           (let like = like_of (ap_actorID (br_ap B) localUser) tok (asString (jget note ''id'')) in
            if undo then act_Type doc = typeUndo \<and> act_Actor doc = ap_actorID (br_ap B) localUser \<and>
              act_Object doc = ObjActivity like
            else doc = like) \<and>
           r = (case outcome of Some err \<Rightarrow> Inl err
                | None \<Rightarrow> Inr (count_after undo (apCollectionCount (lib_oor (br_lib B)) (jget note ''likes'')))))))"
proof (intro conjI impI allI)
  fix r s' assume e: "undo \<or> emoji = lib_default_reaction (br_lib B)"
    and run: "run_state (react B localUser url emoji undo) s = (r, s')"
  from react_cases [OF run e] show
    "(\<exists>err. run_state (authorInbox B url) s = (Inl err, s') \<and> r = Inl err) \<or>
        (\<exists>note inbox s1 s2 doc tok outcome. run_state (authorInbox B url) s = (Inr (note, inbox), s1) \<and>
           run_state (ap_postSigned (br_ap B) localUser inbox doc) s2 = (outcome, s') \<and> st_trace s2 = st_trace s1 \<and>
           (let like = like_of (ap_actorID (br_ap B) localUser) tok (asString (jget note ''id'')) in
            if undo then act_Type doc = typeUndo \<and> act_Actor doc = ap_actorID (br_ap B) localUser \<and>
              act_Object doc = ObjActivity like
            else doc = like) \<and>
           r = (case outcome of Some err \<Rightarrow> Inl err
                | None \<Rightarrow> Inr (count_after undo (apCollectionCount (lib_oor (br_lib B)) (jget note ''likes'')))))" .
qed (simp add: react_def)

text \<open>A note of bob's, to which alice's reaction is undone.\<close>

definition liked_note :: "(string \<times> json) list" where
  "liked_note = [(''https://m.example/n/1'', JObj [(''id'', JStr ''https://m.example/n/1''),
     (''attributedTo'', JStr ''https://m.example/users/bob'')])]"

lemma liked_run:
  "fst (run_state (authorInbox (sample_bridge liked_note) ''https://m.example/n/1'') unit_state) =
     Inr (Some [(''id'', JStr ''https://m.example/n/1''), (''attributedTo'', JStr ''https://m.example/users/bob'')],
       ''https://m.example/users/bob/inbox'')"
  by code_simp

lemma reaction_federated_iff_expressible_witness:
  "run_state (react (sample_bridge []) ''alice'' ''https://m.example/n/1'' ''smile'' False) unit_state = (Inr 0, unit_state) \<and>
   (\<exists>doc tok s2 d s'. run_state (ap_postSigned (br_ap (sample_bridge liked_note)) ''alice''
        ''https://m.example/users/bob/inbox'' doc) s2 = (d, s') \<and> act_Type doc = typeUndo \<and>
      act_Object doc = ObjActivity (like_of (actorID sample_gateway ''alice'') tok ''https://m.example/n/1''))"
proof
  let ?B = "sample_bridge liked_note" and ?n = "''https://m.example/n/1''"
  have "''smile'' \<noteq> lib_default_reaction (br_lib (sample_bridge []))"
    by (simp add: sample_bridge_def sample_lib_def)
  then show "run_state (react (sample_bridge []) ''alice'' ''https://m.example/n/1'' ''smile'' False) unit_state = (Inr 0, unit_state)"
    using reaction_federated_iff_expressible by blast
  obtain r s' where run: "run_state (react ?B ''alice'' ?n [] True) unit_state = (r, s')" by fastforce
  obtain s1 where a: "run_state (authorInbox ?B ?n) unit_state =
     (Inr (Some [(''id'', JStr ''https://m.example/n/1''), (''attributedTo'', JStr ''https://m.example/users/bob'')],
       ''https://m.example/users/bob/inbox''), s1)"
    using liked_run by (metis prod.collapse)
  have actor: "ap_actorID (br_ap ?B) = actorID sample_gateway" by (simp add: sample_bridge_def table_transport_def)
  from reaction_federated_iff_expressible [THEN conjunct2, rule_format, OF _ run] show
    "\<exists>doc tok s2 d s'. run_state (ap_postSigned (br_ap ?B) ''alice'' ''https://m.example/users/bob/inbox'' doc) s2 = (d, s') \<and>
      act_Type doc = typeUndo \<and>
      act_Object doc = ObjActivity (like_of (actorID sample_gateway ''alice'') tok ''https://m.example/n/1'')"
    unfolding a actor by (auto simp: Let_def)
qed

section \<open>Pagination\<close>

definition page_query :: "string \<Rightarrow> string" where
  "page_query l = ''exclude_replies=true&limit=40&max_id='' @ query_escape l"

definition statuses_page :: "string \<Rightarrow> string \<Rightarrow> string \<Rightarrow> string" where
  "statuses_page inst accID q = ''https://'' @ inst @ (''/api/v1/accounts/'' @ accID @ ''/statuses'') @ ''?'' @ q"

lemma plain_statuses_path: "plain_name a \<Longrightarrow> plain_path (''/api/v1/accounts/'' @ a @ ''/statuses'')"
  by (auto simp: plain_path_def plain_name_def is_unreserved_def is_alnum_def is_digit_def)

lemma first_page: "statuses_url inst accID = statuses_page inst accID ''limit=40&exclude_replies=true''"
  by (simp add: statuses_url_def statuses_page_def)

lemma page_query_bytes: "c \<in> set (page_query l) \<Longrightarrow> query_byte c"
proof -
  have lit: "\<forall>c\<in>set ''exclude_replies=true&limit=40&max_id=''. query_byte c" by code_simp
  assume "c \<in> set (page_query l)"
  then consider "c \<in> set ''exclude_replies=true&limit=40&max_id=''" | "c \<in> set (query_escape l)"
    unfolding page_query_def by (simp only: set_append Un_iff) blast
  then show ?thesis
    by cases (use lit query_escape_bytes [of c l] in \<open>auto simp only: query_byte_def\<close>)
qed

lemma encode_page:
  "values_encode [(''exclude_replies'', ''true''), (''limit'', ''40''), (''max_id'', l)] = page_query l"
  "values_encode [(''limit'', ''40''), (''exclude_replies'', ''true''), (''max_id'', l)] = page_query l"
proof -
  have e: "encode_value ''exclude_replies'' ''true'' = ''exclude_replies=true''"
    "encode_value ''limit'' ''40'' = ''limit=40''" "query_escape ''max_id'' = ''max_id''"
    by code_simp+
  show "values_encode [(''exclude_replies'', ''true''), (''limit'', ''40''), (''max_id'', l)] = page_query l"
    "values_encode [(''limit'', ''40''), (''exclude_replies'', ''true''), (''max_id'', l)] = page_query l"
    by (simp_all add: values_encode_def e page_query_def encode_value_def [of "''max_id''"])
qed

lemma parse_page_query:
  "parse_query (page_query l) = [(''exclude_replies'', ''true''), (''limit'', ''40''), (''max_id'', l)]"
proof -
  have amp: "CHR ''&'' \<notin> set (''max_id='' @ query_escape l)" and semi: "CHR '';'' \<notin> set (''max_id='' @ query_escape l)"
    using query_escape_safe by auto
  have s: "split_on CHR ''&'' (page_query l) = [''exclude_replies=true'', ''limit=40'', ''max_id='' @ query_escape l]"
    using split_on_append [of "CHR ''&''" "''exclude_replies=true''" "''limit=40&max_id='' @ query_escape l"]
      split_on_append [of "CHR ''&''" "''limit=40''" "''max_id='' @ query_escape l"] split_on_absent [OF amp]
    by (simp add: page_query_def)
  have c: "cut (''max_id='' @ query_escape l) ''='' = (''max_id'', query_escape l, True)"
    using cut_byte_append [of "CHR ''=''" "''max_id''" "query_escape l"] by simp
  have u: "query_unescape ''max_id'' = Some ''max_id''"
    "parse_pairs [''exclude_replies=true'', ''limit=40''] = [(''exclude_replies'', ''true''), (''limit'', ''40'')]"
    by code_simp+
  have app: "parse_pairs (xs @ ys) = parse_pairs xs @ parse_pairs ys" for xs ys
    by (induction xs) (auto split: prod.splits option.splits)
  have "parse_pairs [''max_id='' @ query_escape l] = [(''max_id'', l)]"
    using c u(1) semi by (simp add: contains_byte_iff)
  then show ?thesis
    using u(2) app [of "[''exclude_replies=true'', ''limit=40'']" "[''max_id='' @ query_escape l]"]
    by (simp add: parse_query_def s)
qed

lemma next_of_page:
  assumes "plain_host inst" "plain_name accID" "\<forall>c\<in>set q. query_byte c" "q \<noteq> []"
  shows "next_page_url (statuses_page inst accID q) l =
    statuses_page inst accID (values_encode (values_set ''max_id'' l (parse_query q)))"
  using parse_https_query [OF assms(1) plain_statuses_path [OF assms(2)] assms(3,4)]
    url_with_query_plain [OF assms(1) plain_statuses_path [OF assms(2)] assms(3,4)]
  by (simp add: next_page_url_def statuses_page_def del: append.simps)

lemma rest_page_cursor:
  "isRESTStatusesURL (statuses_page inst accID q) \<and> pageCursor (Some (statuses_page inst accID q)) = statuses_page inst accID q"
  using contains_append [of "''https://'' @ inst" "''/api/v1/accounts/''" "accID @ ''/statuses'' @ ''?'' @ q"]
    contains_append [of "''https://'' @ inst @ ''/api/v1/accounts/'' @ accID" "''/statuses''" "''?'' @ q"]
  by (simp add: isRESTStatusesURL_def pageCursor_def statuses_page_def)

text \<open>The ids of the statuses on a page, in order, and the page's cursor.\<close>

definition status_ids :: "json list \<Rightarrow> string list" where
  "status_ids arr = [i \<leftarrow> map (\<lambda>it. asString (jget (asMap it) ''id'')) arr. i \<noteq> []]"

lemma rest_page_last: "snd (rest_page L now host arr l) = (if status_ids arr = [] then l else last (status_ids arr))"
proof (induction arr arbitrary: l)
  case (Cons it arr)
  show ?case
  proof (cases "asMap it")
    case None
    then show ?thesis using Cons by (simp add: status_ids_def)
  next
    case (Some m)
    let ?i = "asString (jget (Some m) ''id'')"
    have "snd (rest_page L now host (it # arr) l) = snd (rest_page L now host arr (if ?i \<noteq> [] then ?i else l))"
      by (simp add: Some Let_def split: prod.split option.split)
    then show ?thesis using Cons [of "if ?i \<noteq> [] then ?i else l"] Some by (simp add: status_ids_def)
  qed
qed (simp add: status_ids_def)

lemma page_cursor:
  assumes "run_state (ap_getArray (br_ap B) url ''application/json'') s = (Inr arr, s1)"
    and "run_state (restTweetsPage B handle url) s = ((resp, ok), s')"
  shows "ok \<and> tr_Cursor resp = (if status_ids arr = [] then [] else next_page_url url (last (status_ids arr)))"
proof -
  obtain now w where n: "br_now B (st_world s1) = (now, w)" by fastforce
  let ?h = "case url_parse url of Some u \<Rightarrow> u_host u | None \<Rightarrow> []"
  have l: "snd (rest_page (br_lib B) now ?h arr []) = (if status_ids arr = [] then [] else last (status_ids arr))"
    by (rule rest_page_last)
  have "\<forall>i\<in>set (status_ids arr). i \<noteq> []" "status_ids [] = []" by (simp_all add: status_ids_def)
  then have ne: "status_ids arr \<noteq> [] \<Longrightarrow> last (status_ids arr) \<noteq> [] \<and> arr \<noteq> []" using last_in_set by fastforce
  have "ok \<and> tr_Cursor resp = (if snd (rest_page (br_lib B) now ?h arr []) \<noteq> [] \<and> arr \<noteq> []
      then next_page_url url (snd (rest_page (br_lib B) now ?h arr [])) else [])"
    using assms n by (auto simp: restTweetsPage_def Let_def split: prod.splits)
  then show ?thesis unfolding l using ne by auto
qed

text \<open>
  C28: pagination of a REST timeline continues where it stopped.  When the instance answers a page of an
  account's statuses, the first one or one reached by a cursor, the cursor of the answer is that account's
  statuses URL with \<open>max_id\<close> set to the id of the last status on the page, whether or not that status is
  shown, and with no other \<open>max_id\<close>; a page without statuses has no cursor.  Given back to the gateway, the
  cursor makes it ask the instance for exactly that page.
\<close>

theorem rest_pagination_continues:
  assumes "plain_host inst" "plain_name accID"
    and url: "url = statuses_url inst accID \<or> url = statuses_page inst accID (page_query l)"
    and page: "run_state (ap_getArray (br_ap B) url ''application/json'') s = (Inr arr, s1)"
    and run: "run_state (restTweetsPage B handle url) s = ((resp, ok), s')"
  shows "ok \<and> (status_ids arr = [] \<longrightarrow> tr_Cursor resp = []) \<and>
    (status_ids arr \<noteq> [] \<longrightarrow>
       tr_Cursor resp = statuses_page inst accID (page_query (last (status_ids arr))) \<and>
       (\<forall>t. run_state (getTweets B handle (Some (tr_Cursor resp))) t =
          (let ((next, _), t') = run_state (restTweetsPage B handle (tr_Cursor resp)) t in (Inr next, t'))))"
proof -
  have q: "\<forall>c\<in>set ''limit=40&exclude_replies=true''. query_byte c"
    "parse_query ''limit=40&exclude_replies=true'' = [(''limit'', ''40''), (''exclude_replies'', ''true'')]"
    by code_simp+
  have 1: "next_page_url (statuses_url inst accID) i = statuses_page inst accID (page_query i)" for i
    using next_of_page [OF assms(1,2) q(1)] by (simp add: first_page q(2) values_set_def encode_page)
  have "page_query l \<noteq> []" by (simp add: page_query_def)
  then have 2: "next_page_url (statuses_page inst accID (page_query l)) i = statuses_page inst accID (page_query i)" for i
    using next_of_page [OF assms(1,2), of "page_query l"] page_query_bytes
    by (simp add: parse_page_query values_set_def encode_page)
  from page_cursor [OF page run] url 1 2 have c: "ok \<and> tr_Cursor resp = (if status_ids arr = [] then []
      else statuses_page inst accID (page_query (last (status_ids arr))))" by auto
  have "statuses_page inst accID q \<noteq> []" for q by (simp add: statuses_page_def)
  with c show ?thesis
    using rest_page_cursor by (simp add: getTweets_def Let_def split: prod.split)
qed

text \<open>The second page of bob's statuses: a post and a thread continuation, which is last and is not shown.\<close>

definition second_page :: "(string \<times> json) list" where
  "second_page = [(statuses_page ''m.example'' ''7'' (page_query ''13''), JArr [sample_status ''12'' [], sample_status ''11'' ''9''])]"

lemma rest_pagination_continues_witness:
  "\<exists>resp ok s'. run_state (restTweetsPage (sample_bridge second_page) ''bob@m.example''
      (statuses_page ''m.example'' ''7'' (page_query ''13''))) unit_state = ((resp, ok), s') \<and>
    tr_Cursor resp = ''https://m.example/api/v1/accounts/7/statuses?exclude_replies=true&limit=40&max_id=11''"
proof -
  let ?B = "sample_bridge second_page" and ?u = "statuses_page ''m.example'' ''7'' (page_query ''13'')"
  have p: "plain_host ''m.example''" "plain_name ''7''"
    "statuses_page ''m.example'' ''7'' (page_query ''11'')
      = ''https://m.example/api/v1/accounts/7/statuses?exclude_replies=true&limit=40&max_id=11''"
    "last (status_ids [sample_status ''12'' [], sample_status ''11'' ''9'']) = ''11''"
    "status_ids [sample_status ''12'' [], sample_status ''11'' ''9''] \<noteq> []"
    by code_simp+
  have page: "run_state (ap_getArray (br_ap ?B) ?u ''application/json'') unit_state
      = (Inr [sample_status ''12'' [], sample_status ''11'' ''9''], unit_state)"
    by (simp add: sample_bridge_def table_transport_def table_get_def second_page_def as_array_def)
  obtain resp ok s' where run: "run_state (restTweetsPage ?B ''bob@m.example'' ?u) unit_state = ((resp, ok), s')"
    by (metis surj_pair)
  have "?u = statuses_url ''m.example'' ''7'' \<or> ?u = statuses_page ''m.example'' ''7'' (page_query ''13'')" by simp
  from rest_pagination_continues [OF p(1,2) this page run, THEN conjunct2, THEN conjunct2, THEN mp, OF p(5)]
  have "tr_Cursor resp = ''https://m.example/api/v1/accounts/7/statuses?exclude_replies=true&limit=40&max_id=11''"
    unfolding p(4) p(3) by (rule conjunct1)
  with run show ?thesis by (intro exI [of _ resp] exI [of _ ok] exI [of _ s'] conjI)
qed

end
