(* ===== verification/Tweet_Types.thy ===== *)
theory Tweet_Types
  imports Bridge_Facts
begin

text \<open>
  The type of the tweets that the bridge answers with: what the Warpnet side may assume of every tweet
  made from a Mastodon status, whichever of the two mappings made it.
\<close>

section \<open>The type\<close>

text \<open>
  A bridged tweet has an id, the bridged network and a date; it is its own root unless it has a parent,
  which then is its root; its image keys are not empty, and a quoted author comes with a quoted tweet.
\<close>

definition bridged_tweet :: "tweet \<Rightarrow> bool" where
  "bridged_tweet t \<longleftrightarrow> t_Id t \<noteq> [] \<and> t_Network t = mastodonNetwork \<and> t_CreatedAt t \<noteq> 0 \<and>
     (t_ParentId t = None \<longrightarrow> t_RootId t = t_Id t) \<and>
     (\<forall>p. t_ParentId t = Some p \<longrightarrow> p \<noteq> [] \<and> t_RootId t = p) \<and>
     [] \<notin> set (t_ImageKeys t) \<and>
     (t_QuotedTweetId t = None \<longrightarrow> t_QuotedUserId t = None) \<and> t_QuotedTweetId t \<noteq> Some []"

section \<open>Notes\<close>

lemma note_images_ne: "[] \<notin> set (note_images as)"
  by (induction as) (auto simp: Let_def split: option.split)

lemma rest_images_ne: "[] \<notin> set (rest_images as)"
  by (induction as) (auto simp: Let_def split: option.split)

lemma prefix_parent: "splitREPrefix x = Some (p, r) \<Longrightarrow> p \<noteq> []"
  by (auto simp: splitREPrefix_def Let_def split: if_splits option.splits)

lemma last_index_prefix: "last_index s sub = Some i \<Longrightarrow> prefix sub (drop i s)"
  by (induction s arbitrary: i) (auto split: if_splits option.splits)

lemma quoted_ne: "splitREQuote x = Some (q, c) \<Longrightarrow> q \<noteq> []"
proof -
  assume a: "splitREQuote x = Some (q, c)"
  then obtain i where i: "last_index (trim_space x) ''RE: https://'' = Some i" "q = drop (Suc (Suc (Suc (Suc i)))) (trim_space x)"
    by (auto simp: splitREQuote_def Let_def split: option.splits if_splits)
  from last_index_prefix [OF i(1)] obtain z where "drop i (trim_space x) = ''RE: https://'' @ z" by (auto simp only: prefix_def)
  then have "drop 4 (drop i (trim_space x)) = ''https://'' @ z" by simp
  moreover have "q = drop 4 (drop i (trim_space x))" by (simp add: i(2) eval_nat_numeral)
  ultimately show ?thesis by simp
qed

lemma quoted_url_ne: "first_https m ks \<noteq> [] \<Longrightarrow> has_prefix (first_https m ks) ''https://''"
  by (induction ks) (auto simp: Let_def)

lemma setQuoted_fields [simp]:
  "t_Id (setQuoted t q) = t_Id t" "t_RootId (setQuoted t q) = t_RootId t" "t_ParentId (setQuoted t q) = t_ParentId t"
  "t_Network (setQuoted t q) = t_Network t" "t_CreatedAt (setQuoted t q) = t_CreatedAt t" "t_ImageKeys (setQuoted t q) = t_ImageKeys t"
  "t_QuotedTweetId (setQuoted t q) = Some q" "t_Text (setQuoted t q) = t_Text t"
  by (simp_all add: setQuoted_def Let_def)

text \<open>The type, but for the date and the images, which are set later.\<close>

definition pre_typed :: "tweet \<Rightarrow> bool" where
  "pre_typed t \<longleftrightarrow> t_Id t \<noteq> [] \<and> t_Network t = mastodonNetwork \<and>
     (t_ParentId t = None \<longrightarrow> t_RootId t = t_Id t) \<and>
     (\<forall>p. t_ParentId t = Some p \<longrightarrow> p \<noteq> [] \<and> t_RootId t = p) \<and>
     (t_QuotedTweetId t = None \<longrightarrow> t_QuotedUserId t = None) \<and> t_QuotedTweetId t \<noteq> Some []"

lemma pre_quoted: "pre_typed t \<Longrightarrow> q \<noteq> [] \<Longrightarrow> pre_typed (setQuoted t q)"
  by (simp add: pre_typed_def)

lemma pre_text: "pre_typed (t\<lparr>t_Text := x\<rparr>) = pre_typed t"
  by (simp add: pre_typed_def)

lemma pre_parent: "pre_typed t \<Longrightarrow> p \<noteq> [] \<Longrightarrow> pre_typed (t\<lparr>t_RootId := p, t_ParentId := Some p\<rparr>)"
  by (simp add: pre_typed_def)

lemma pre_apply_quote: "pre_typed t \<Longrightarrow> pre_typed (apply_quote note t)"
  by (auto simp: apply_quote_def Let_def pre_text pre_quoted pre_parent
      split: option.split dest: prefix_parent quoted_ne)

lemma noteToTweet_typed:
  assumes "noteToTweet L now h note = Some t" "now \<noteq> 0"
  shows "bridged_tweet t"
proof -
  have pre: "bridged_tweet (t2\<lparr>t_CreatedAt := c, t_ImageKeys := note_images as\<rparr>)"
    "t_CreatedAt t2 \<noteq> 0 \<Longrightarrow> bridged_tweet (t2\<lparr>t_ImageKeys := note_images as\<rparr>)" if "pre_typed t2" "c \<noteq> 0" for t2 c as
    using that by (simp_all add: pre_typed_def bridged_tweet_def note_images_ne)
  define i where "i = asString (jget note ''id'')"
  define u where "u = (if h = [] then handleFromActorURL (asString (jget note ''attributedTo'')) else h)"
  define t0 where "t0 = zero_tweet\<lparr>t_Id := i, t_RootId := i, t_Text := htmlToText L (asString (jget note ''content'')),
    t_UserId := u, t_Username := u, t_CreatedAt := parseAPTime L (asString (jget note ''published'')), t_Network := mastodonNetwork\<rparr>"
  define t1 where "t1 = (let p = asString (jget note ''inReplyTo'') in
    if p \<noteq> [] then t0\<lparr>t_RootId := p, t_ParentId := Some p\<rparr> else t0)"
  have "i \<noteq> []" using assms(1) by (auto simp: noteToTweet_def Let_def i_def split: if_splits)
  then have "pre_typed t0" by (simp add: pre_typed_def t0_def zero_tweet_def)
  then have t2: "pre_typed (apply_quote note t1)"
    by (intro pre_apply_quote) (simp add: t1_def Let_def pre_parent)
  have "t = (let t2 = apply_quote note t1; t3 = (if t_CreatedAt t2 = 0 then t2\<lparr>t_CreatedAt := now\<rparr> else t2) in
      t3\<lparr>t_ImageKeys := note_images (asSlice (jget note ''attachment''))\<rparr>)"
    using assms(1) \<open>i \<noteq> []\<close> by (simp add: noteToTweet_def Let_def i_def u_def t0_def t1_def split: if_splits)
  then show ?thesis using pre [OF t2 assms(2)] by (simp add: Let_def split: if_splits)
qed

section \<open>REST statuses\<close>

lemma rest_quote_ne: "t_QuotedTweetId t = None \<Longrightarrow> t_QuotedTweetId (rest_quote host s t) \<noteq> Some []"
  by (simp add: rest_quote_def Let_def split: option.split)

lemma rest_quote_images [simp]: "t_ImageKeys (rest_quote host s t) = t_ImageKeys t"
  by (simp add: rest_quote_def Let_def split: option.split)

lemma restBaseTweet_typed:
  "restBaseTweet L now host s = Some t \<Longrightarrow> now \<noteq> 0 \<Longrightarrow> bridged_tweet t"
  by (erule restBaseTweet_cases)
    (auto simp: bridged_tweet_def Let_def zero_tweet_def rest_images_ne rest_quote_user split: option.split
      dest: rest_quote_ne [THEN notE, rotated])

lemma retweeted_typed [simp]: "bridged_tweet (t\<lparr>t_RetweetedBy := b\<rparr>) = bridged_tweet t"
  by (simp add: bridged_tweet_def)

lemma restStatusToTweet_typed:
  "restStatusToTweet L now host s = Some t \<Longrightarrow> now \<noteq> 0 \<Longrightarrow> bridged_tweet t"
proof (induction L now host s arbitrary: t rule: restStatusToTweet.induct)
  case (2 L now host s)
  show ?case
  proof (cases "jget (Some s) ''reblog''")
    case (JObj rb)
    with "2.prems"(1) obtain t' where t': "restStatusToTweet L now host (Some rb) = Some t'"
      "t = (if account_handle host (Some s) \<noteq> [] then t'\<lparr>t_RetweetedBy := Some (account_handle host (Some s))\<rparr> else t')"
      by (simp add: restStatusToTweet.simps(2) Let_def split: option.splits)
    with "2.IH" [OF JObj t'(1) "2.prems"(2)] show ?thesis by simp
  qed (use "2.prems" restBaseTweet_typed in \<open>simp add: restStatusToTweet.simps(2)\<close>)+
qed simp

section \<open>What the bridge answers\<close>

text \<open>\<open>yields P m\<close>: every result of \<open>m\<close> satisfies \<open>P\<close>.\<close>

definition yields :: "('a \<Rightarrow> bool) \<Rightarrow> ('w, 'a) gw \<Rightarrow> bool" where
  "yields P m \<longleftrightarrow> (\<forall>s. P (fst (run_state m s)))"

named_theorems yields_intros

lemma yields_ret [yields_intros]: "P x \<Longrightarrow> yields P (ret x)"
  by (simp add: yields_def)

lemma yields_bind: "yields Q m \<Longrightarrow> (\<And>a. Q a \<Longrightarrow> yields P (f a)) \<Longrightarrow> yields P (m \<bind> f)"
  by (auto simp: yields_def split: prod.splits) (metis fst_conv)

lemma yields_any [yields_intros]: "(\<And>a. yields P (f a)) \<Longrightarrow> yields P (m \<bind> f)"
  by (rule yields_bind [where Q = "\<lambda>_. True"]) (simp_all add: yields_def)

lemma yields_if [yields_intros]: "(c \<Longrightarrow> yields P m) \<Longrightarrow> (\<not> c \<Longrightarrow> yields P n) \<Longrightarrow> yields P (if c then m else n)"
  by simp

lemma yields_option [yields_intros]:
  "(x = None \<Longrightarrow> yields P m) \<Longrightarrow> (\<And>a. x = Some a \<Longrightarrow> yields P (f a)) \<Longrightarrow> yields P (case x of None \<Rightarrow> m | Some a \<Rightarrow> f a)"
  by (cases x) auto

lemma yields_sum [yields_intros]:
  "(\<And>a. x = Inl a \<Longrightarrow> yields P (f a)) \<Longrightarrow> (\<And>b. x = Inr b \<Longrightarrow> yields P (g b)) \<Longrightarrow> yields P (case_sum f g x)"
  by (cases x) auto

lemma yields_prod [yields_intros]: "(\<And>a b. x = (a, b) \<Longrightarrow> yields P (f a b)) \<Longrightarrow> yields P (case x of (a, b) \<Rightarrow> f a b)"
  by (cases x) auto

lemma yields_map_gw:
  assumes "\<And>x. yields P (f x)"
  shows "yields (\<lambda>ys. \<forall>y\<in>set ys. P y) (map_gw f xs)"
proof (induction xs)
  case (Cons x xs)
  show ?case
    unfolding map_gw.simps by (rule yields_bind [OF assms], rule yields_bind [OF Cons]) (simp add: yields_ret)
qed (simp add: yields_ret)

abbreviation typed_option :: "tweet option \<Rightarrow> bool" where
  "typed_option x \<equiv> \<forall>t. x = Some t \<longrightarrow> bridged_tweet t"

definition clock_ok :: "'w bridge \<Rightarrow> bool" where
  "clock_ok B \<longleftrightarrow> (\<forall>w. fst (br_now B w) \<noteq> 0)"

lemma note_tweet_typed: "clock_ok B \<Longrightarrow> yields typed_option (note_tweet B h m)"
  by (auto simp: yields_def note_tweet_def clock_ok_def world_def split: prod.splits dest: noteToTweet_typed)
    (metis fst_conv noteToTweet_typed)

lemma quoted_user_typed: "bridged_tweet t \<Longrightarrow> t_QuotedTweetId t = Some q \<Longrightarrow> bridged_tweet (t\<lparr>t_QuotedUserId := u\<rparr>)"
  by (simp add: bridged_tweet_def)

lemma fill_typed: "bridged_tweet t \<Longrightarrow> yields bridged_tweet (fillQuotedAuthor B t)"
  unfolding fillQuotedAuthor_def Let_def by (intro yields_intros) (auto intro: quoted_user_typed)

lemma fill_some_typed:
  "bridged_tweet t \<Longrightarrow> yields typed_option (do { t1 \<leftarrow> fillQuotedAuthor B t; ret (Some t1) })"
  by (rule yields_bind [OF fill_typed]) (auto intro: yields_intros)

lemma activity_typed: "clock_ok B \<Longrightarrow> yields typed_option (activityToTweet B h obj)"
  unfolding activityToTweet_def Let_def
  by (intro yields_if yields_ret yields_any yields_sum yields_bind [OF note_tweet_typed] yields_option fill_some_typed) auto

lemma items_typed: "clock_ok B \<Longrightarrow> yields (\<lambda>ts. \<forall>t\<in>set ts. bridged_tweet t) (resolveTimelineItems B h items)"
  unfolding resolveTimelineItems_def
  by (rule yields_bind [OF yields_map_gw [where P = typed_option]])
    (auto simp: somes_def intro!: yields_intros activity_typed split: option.splits)

lemma rest_page_typed: "now \<noteq> 0 \<Longrightarrow> t \<in> set (fst (rest_page L now host its l0)) \<Longrightarrow> bridged_tweet t"
proof (induction its arbitrary: l0)
  case (Cons it its)
  show ?case
  proof (cases "asMap it")
    case (Some m)
    show ?thesis
      using Cons.IH [OF Cons.prems(1), of "if asString (jget (Some m) ''id'') \<noteq> [] then asString (jget (Some m) ''id'') else l0"]
        Cons.prems restStatusToTweet_typed [of L now host "Some m"]
      by (auto simp: Some Let_def split: prod.splits option.splits if_splits)
  qed (use Cons in simp)
qed simp

definition typed_timeline :: "tweetsResponse \<Rightarrow> bool" where
  "typed_timeline r \<longleftrightarrow> (\<forall>t\<in>set (tr_Tweets r). bridged_tweet t)"

definition typed_answer :: "gw_error + tweetsResponse \<Rightarrow> bool" where
  "typed_answer x \<longleftrightarrow> (\<forall>r. x = Inr r \<longrightarrow> typed_timeline r)"

lemma typed_timelines [simp]: "typed_timeline (tweets_for h)" "typed_answer (Inl e)" "typed_answer (Inr r) = typed_timeline r"
  by (simp_all add: typed_timeline_def typed_answer_def tweets_for_def)

lemma restTweetsPage_typed: "clock_ok B \<Longrightarrow> yields (\<lambda>(r, _). typed_timeline r) (restTweetsPage B h u)"
  unfolding restTweetsPage_def
  by (auto simp: yields_def typed_timeline_def Let_def clock_ok_def world_def tweets_for_def
      split: sum.splits prod.splits) (metis fst_conv rest_page_typed)

lemma restTweets_typed: "clock_ok B \<Longrightarrow> yields (\<lambda>(r, _). typed_timeline r) (restTweets B h)"
  unfolding restTweets_def Let_def by (intro yields_intros restTweetsPage_typed) auto

lemma apTweets_typed: "clock_ok B \<Longrightarrow> yields typed_answer (apTweets B h c)"
  unfolding apTweets_def
  by (rule yields_bind [OF items_typed] | rule yields_any yields_sum yields_option yields_ret | assumption
      | (simp add: typed_timeline_def topLevelOnly_def tweets_for_def; fail))+

lemma getTweets_typed: "clock_ok B \<Longrightarrow> yields typed_answer (getTweets B h c)"
  unfolding getTweets_def Let_def
  by (intro yields_if yields_bind [OF restTweetsPage_typed] yields_bind [OF restTweets_typed])
    (auto intro!: yields_intros apTweets_typed)

abbreviation typed_or_zero :: "gw_error + tweet \<Rightarrow> bool" where
  "typed_or_zero x \<equiv> \<forall>t. x = Inr t \<longrightarrow> bridged_tweet t \<or> t = zero_tweet"

lemma fill_answer_typed:
  "bridged_tweet t \<Longrightarrow> yields typed_or_zero (do { t1 \<leftarrow> fillQuotedAuthor B t; ret (Inr t1) })"
  by (rule yields_bind [OF fill_typed]) (auto intro: yields_ret)

lemma apTweet_typed: "clock_ok B \<Longrightarrow> yields typed_or_zero (apTweet B u)"
  unfolding apTweet_def
  by (rule yields_bind [OF note_tweet_typed] fill_answer_typed | rule yields_any yields_sum yields_option yields_ret
      | assumption | (simp; fail))+

lemma clock_yields: "clock_ok B \<Longrightarrow> yields (\<lambda>now. now \<noteq> 0) (world (br_now B))"
  by (auto simp: yields_def clock_ok_def world_def split: prod.split) (metis fst_conv)

lemma getTweet_typed: "clock_ok B \<Longrightarrow> yields typed_or_zero (getTweet B u)"
  unfolding getTweet_def Let_def
  by (rule apTweet_typed yields_bind [OF clock_yields] | rule yields_option yields_prod yields_any yields_sum yields_ret
      | assumption | (auto dest: restStatusToTweet_typed; fail))+

text \<open>
  C33: what the bridge answers is well typed.  With a clock that has been set, every tweet of a profile
  timeline, read over REST or from an outbox, and every tweet answered for a status, has the type of a
  bridged tweet: an id, the bridged network, a date, a root that is its parent if it has one and itself
  otherwise, image keys that are not empty, and no quoted author without a quoted tweet; with one
  exception, that a document which is no note is answered, without an error, with the zero tweet.
\<close>

theorem bridge_answers_are_typed:
  assumes "clock_ok B"
  shows "(\<forall>r. fst (run_state (getTweets B handle cursor) s) = Inr r \<longrightarrow> (\<forall>t\<in>set (tr_Tweets r). bridged_tweet t)) \<and>
    (\<forall>t. fst (run_state (getTweet B url) s) = Inr t \<longrightarrow> bridged_tweet t \<or> t = zero_tweet) \<and>
    (\<forall>m s1. ap_getJSON (br_ap B) url contentTypeAP = ret (Inr m) \<and> restStatusRef url = None \<and>
        trim_prefix url (lib_retweet_prefix (br_lib B)) = url \<and>
        str_or_empty (jget (note_of m) ''type'') \<noteq> typeNote \<longrightarrow>
      fst (run_state (getTweet B url) s1) = Inr zero_tweet)"
proof (intro conjI allI impI)
  fix r assume "fst (run_state (getTweets B handle cursor) s) = Inr r"
  with getTweets_typed [OF assms, of handle cursor] have "typed_answer (Inr r)" unfolding yields_def by metis
  then show "\<forall>t\<in>set (tr_Tweets r). bridged_tweet t" by (simp add: typed_timeline_def)
next
  fix t assume "fst (run_state (getTweet B url) s) = Inr t"
  with getTweet_typed [OF assms, of url] show "bridged_tweet t \<or> t = zero_tweet" unfolding yields_def by metis
next
  fix m s1
  assume h: "ap_getJSON (br_ap B) url contentTypeAP = ret (Inr m) \<and> restStatusRef url = None \<and>
        trim_prefix url (lib_retweet_prefix (br_lib B)) = url \<and>
        str_or_empty (jget (note_of m) ''type'') \<noteq> typeNote"
  then show "fst (run_state (getTweet B url) s1) = Inr zero_tweet"
    by (simp add: getTweet_def apTweet_def note_tweet_def noteToTweet_def split: prod.split)
qed

lemma bridge_answers_are_typed_witness:
  "\<exists>r. fst (run_state (getTweets ((sample_bridge sample_docs)\<lparr>br_now := \<lambda>w. (7, w)\<rparr>) ''bob@m.example''
      (Some ''https://m.example/api/v1/accounts/7/statuses?limit=2'')) unit_state) = r \<and>
    (\<forall>ts. r = Inr ts \<longrightarrow> (\<forall>t\<in>set (tr_Tweets ts). bridged_tweet t))"
proof -
  have "clock_ok ((sample_bridge sample_docs)\<lparr>br_now := \<lambda>w. (7, w)\<rparr>)" by (simp add: clock_ok_def)
  from bridge_answers_are_typed [OF this] show ?thesis by blast
qed

end
