(* ===== verification/Server.thy ===== *)
theory Server
  imports Inbox
begin

text \<open>
  The HTTP surface of the gateway (\<open>server.go\<close>, \<open>notes.go\<close>, \<open>mediaproxy.go\<close>, \<open>inbox.go\<close>): routing,
  WebFinger, actors, collections, statuses, the media proxy and the log endpoint.
\<close>

section \<open>Responses\<close>

text \<open>A document handed to \<open>json.Marshal\<close>, and the body of a response.\<close>

datatype document =
    DocActor actor | DocNote ap_note | DocCollection orderedCollection | DocJRD webFingerJRD
  | DocNodeInfoLinks (nil_Rel: string) (nil_Href: string)
  | DocNodeInfo (ni_Version: string) (ni_Software: string) (ni_SoftwareVersion: string)

datatype body = NoBody | BodyText string | BodyDoc document | BodyBytes string | BodyLines "string list"

record response =
  rp_status :: nat
  rp_type :: string
  rp_header :: "(string \<times> string) list"
  rp_body :: body

definition http_error :: "string \<Rightarrow> nat \<Rightarrow> response" where
  "http_error msg status =
     \<lparr>rp_status = status, rp_type = ''text/plain; charset=utf-8'', rp_header = [], rp_body = BodyText msg\<rparr>"

definition http_NotFound :: response where
  "http_NotFound = http_error ''404 page not found'' 404"

text \<open>
  The server: the gateway's environment and the components it calls.  \<open>sv_marshals\<close> is whether
  \<open>json.Marshal\<close> succeeds; \<open>sv_full\<close> whether the delivery pool is saturated when a handler tries to
  enter it; \<open>sv_logs\<close> the lines of the log ring, if one is installed; \<open>sv_static\<close> the embedded file
  server.
\<close>

record ('w, 'k) server =
  sv_env :: "('w, 'k) gw_env"
  sv_source :: "'w source"
  sv_followers :: "'w followerStore"
  sv_req :: "'w nodeRequester"
  sv_codec :: node_codec
  sv_marshals :: "document \<Rightarrow> bool"
  sv_full :: "'w \<Rightarrow> bool \<times> 'w"
  sv_logs :: "(string list) option"
  sv_static :: "in_request \<Rightarrow> response"

definition sv_gw :: "('w, 'k) server \<Rightarrow> gateway" where "sv_gw S = env_gw (sv_env S)"
definition sv_lib :: "('w, 'k) server \<Rightarrow> warp_lib" where "sv_lib S = env_lib (sv_env S)"

definition writeJSON :: "('w, 'k) server \<Rightarrow> (string \<times> string) list \<Rightarrow> string \<Rightarrow> document \<Rightarrow> response" where
  "writeJSON S header contentType doc =
     (if \<not> sv_marshals S doc then (http_error ''marshal'' 500)\<lparr>rp_header := header\<rparr>
      else \<lparr>rp_status = 200, rp_type = contentType, rp_header = header, rp_body = BodyDoc doc\<rparr>)"

section \<open>Collections\<close>

definition collection_of :: "string \<Rightarrow> coll_item list \<Rightarrow> document" where
  "collection_of i items = DocCollection \<lparr>oc_Context = CtxIRI asContext, oc_ID = i, oc_Type = ''OrderedCollection'',
     oc_TotalItems = length items, oc_OrderedItems = items\<rparr>"

definition serveEmptyCollection :: "('w, 'k) server \<Rightarrow> string \<Rightarrow> response" where
  "serveEmptyCollection S i = writeJSON S [] contentTypeAP (collection_of i [])"

definition serveFollowers :: "('w, 'k) server \<Rightarrow> string \<Rightarrow> ('w, response) gw" where
  "serveFollowers S user = do {
     r \<leftarrow> fs_List (sv_followers S) user;
     (let urls = (case r of Inl e \<Rightarrow> [] | Inr us \<Rightarrow> us) in
      ret (writeJSON S [] contentTypeAP (collection_of (actorID (sv_gw S) user @ pathFollowers) (map ItemIRI urls))))
   }"

text \<open>The items of the outbox: the user's own original top-level posts.\<close>

definition outbox_items :: "('w, 'k) server \<Rightarrow> string \<Rightarrow> tweet list \<Rightarrow> coll_item list" where
  "outbox_items S userID ts =
     map (\<lambda>t. ItemActivity (buildCreateNote (sv_lib S) (sv_gw S) userID t))
       (filter (\<lambda>t. publishableTweet t userID) ts)"

definition serveOutbox :: "('w, 'k) server \<Rightarrow> string \<Rightarrow> ('w, response) gw" where
  "serveOutbox S userID =
     (let i = actorID (sv_gw S) userID @ ''/outbox'' in
      if \<not> gw_has_node (sv_gw S) then ret (serveEmptyCollection S i)
      else do {
        r \<leftarrow> nr_requestUser (sv_req S) userID routeGetTweets (GetAllTweetsEvent userID [] [] None None);
        ret (case r of
           Inl e \<Rightarrow> serveEmptyCollection S i
         | Inr bt \<Rightarrow>
             (case dc_tweets (sv_codec S) bt of
                None \<Rightarrow> serveEmptyCollection S i
              | Some (ts, _) \<Rightarrow> writeJSON S [] contentTypeAP (collection_of i (outbox_items S userID ts))))
      })"

text \<open>A Warpnet follow is rendered as the gateway's own actor, a Fediverse follow is resolved.\<close>

fun following_items :: "('w, 'k) gw_env \<Rightarrow> string list \<Rightarrow> ('w, coll_item list) gw" where
  "following_items E [] = ret []"
| "following_items E (fid # fids) =
     (if \<not> isBridgedUserID fid then do {
        items \<leftarrow> following_items E fids;
        ret (ItemIRI (actorID (env_gw E) fid) # items)
      }
      else do {
        r \<leftarrow> resolveActorID E fid;
        items \<leftarrow> following_items E fids;
        ret (case r of Inl e \<Rightarrow> items | Inr actorURL \<Rightarrow> ItemIRI actorURL # items)
      })"

definition serveFollowing :: "('w, 'k) server \<Rightarrow> string \<Rightarrow> ('w, response) gw" where
  "serveFollowing S user =
     (let i = actorID (sv_gw S) user @ ''/following'' in
      if \<not> gw_has_node (sv_gw S) then ret (serveEmptyCollection S i)
      else do {
        r \<leftarrow> nr_requestUser (sv_req S) user routeGetFollowings (getFollowersEvent user None None);
        (case r of
           Inl e \<Rightarrow> ret (serveEmptyCollection S i)
         | Inr bt \<Rightarrow>
             (case dc_followings (sv_codec S) bt of
                None \<Rightarrow> ret (serveEmptyCollection S i)
              | Some (ids, _) \<Rightarrow> do {
                  items \<leftarrow> following_items (sv_env S) ids;
                  ret (writeJSON S [] contentTypeAP (collection_of i items))
                }))
      })"

text \<open>The replies of a status that Warpnet users wrote; Fediverse replies are left to the Fediverse.\<close>

definition reply_items :: "('w, 'k) server \<Rightarrow> string \<Rightarrow> tweet list \<Rightarrow> coll_item list" where
  "reply_items S parentURL ts =
     map (\<lambda>t. ItemNote ((buildNote (sv_lib S) (sv_gw S) (t_UserId t) t)\<lparr>n_InReplyTo := parentURL\<rparr>))
       (filter (\<lambda>t. \<not> (t_Id t = [] \<or> isBridgedUserID (t_UserId t))) ts)"

definition serveReplies :: "('w, 'k) server \<Rightarrow> string \<Rightarrow> string \<Rightarrow> ('w, response) gw" where
  "serveReplies S user tweetID =
     (let i = actorID (sv_gw S) user @ pathStatuses @ tweetID @ ''/replies'' in
      if \<not> gw_has_node (sv_gw S) then ret (serveEmptyCollection S i)
      else do {
        r \<leftarrow> nr_requestUser (sv_req S) user routeGetTweets (GetAllTweetsEvent user tweetID [] None None);
        ret (case r of
           Inl e \<Rightarrow> serveEmptyCollection S i
         | Inr bt \<Rightarrow>
             (case dc_tweets (sv_codec S) bt of
                None \<Rightarrow> serveEmptyCollection S i
              | Some (ts, _) \<Rightarrow> writeJSON S [] contentTypeAP
                  (collection_of i (reply_items S (actorID (sv_gw S) user @ pathStatuses @ tweetID) ts))))
      })"

section \<open>Statuses\<close>

definition serveStatus :: "('w, 'k) server \<Rightarrow> in_request \<Rightarrow> string \<Rightarrow> string \<Rightarrow> ('w, response) gw" where
  "serveStatus S r user tweetID =
     (if \<not> gw_has_node (sv_gw S) then ret http_NotFound
      else let parent = query_get (ir_query r) replyParentQuery in do {
        a \<leftarrow> nr_request (sv_req S) routeGetTweet (GetTweetEvent user tweetID parent);
        ret (case a of
           Inl e \<Rightarrow> http_NotFound
         | Inr bt \<Rightarrow>
             (case dc_tweet (sv_codec S) bt of
                None \<Rightarrow> http_NotFound
              | Some t \<Rightarrow>
                  if t_Id t = [] then http_NotFound
                  else writeJSON S [] contentTypeAP (DocNote (statusNote (sv_lib S) (sv_gw S) user t parent))))
      })"

section \<open>Actors\<close>

definition serveActor :: "('w, 'k) server \<Rightarrow> warpnetUser \<Rightarrow> response" where
  "serveActor S wu = writeJSON S [] contentTypeAP (DocActor (buildActor (sv_gw S) wu))"

definition handleInstanceActor :: "('w, 'k) server \<Rightarrow> response" where
  "handleInstanceActor S =
     writeJSON S [(''Cache-Control'', ''max-age=3600'')] contentTypeAP (DocActor (instanceActor (sv_gw S)))"

definition handleInstanceActorSub :: "('w, 'k) server \<Rightarrow> in_request \<Rightarrow> response" where
  "handleInstanceActorSub S r =
     (if trim_prefix (ir_path r) (pathActor @ ''/'') \<in> {''outbox'', ''followers'', ''following''}
      then serveEmptyCollection S (baseURL (sv_gw S) @ ir_path r)
      else http_NotFound)"

section \<open>Routing below /users/\<close>

text \<open>What a path below \<open>/users/\<close> names, once the user is known.\<close>

datatype user_target =
    UActor | UInbox | UOutbox | UFollowers | UFollowing | UStatus string | UReplies string | UNone

definition user_parts :: "string \<Rightarrow> string list" where
  "user_parts p = split_on CHR ''/'' (trim_prefix p pathUsers)"

definition user_target :: "string list \<Rightarrow> user_target" where
  "user_target parts =
     (if length parts = 1 \<or> parts ! 1 = [] then UActor
      else if parts ! 1 = ''inbox'' then UInbox
      else if parts ! 1 = ''outbox'' then UOutbox
      else if parts ! 1 = ''followers'' then UFollowers
      else if parts ! 1 = ''following'' then UFollowing
      else if parts ! 1 = ''statuses'' then
        (if length parts < 3 \<or> parts ! 2 = [] then UNone
         else if length parts \<ge> 4 \<and> parts ! 3 = ''replies'' then UReplies (parts ! 2)
         else UStatus (parts ! 2))
      else UNone)"

definition status_only :: "nat \<times> job option \<Rightarrow> response \<times> job option" where
  "status_only = (\<lambda>(st, j). (\<lparr>rp_status = st, rp_type = [], rp_header = [], rp_body = NoBody\<rparr>, j))"

definition serveInbox :: "('w, 'k) server \<Rightarrow> string \<Rightarrow> in_request \<Rightarrow> ('w, response \<times> job option) gw" where
  "serveInbox S user r = do {
     full \<leftarrow> world (sv_full S);
     a \<leftarrow> handleInbox (sv_env S) (sv_source S) full user r;
     ret (status_only a)
   }"

definition plain_reply :: "('w, response) gw \<Rightarrow> ('w, response \<times> job option) gw" where
  "plain_reply m = do { a \<leftarrow> m; ret (a, None) }"

definition handleUsers :: "('w, 'k) server \<Rightarrow> in_request \<Rightarrow> ('w, response \<times> job option) gw" where
  "handleUsers S r =
     (let parts = user_parts (ir_path r); user = parts ! 0 in do {
        u \<leftarrow> sv_source S user;
        (case u of
           None \<Rightarrow> ret (http_NotFound, None)
         | Some wu \<Rightarrow>
             (case user_target parts of
                UActor \<Rightarrow> ret (serveActor S wu, None)
              | UInbox \<Rightarrow> serveInbox S user r
              | UOutbox \<Rightarrow> plain_reply (serveOutbox S user)
              | UFollowers \<Rightarrow> plain_reply (serveFollowers S user)
              | UFollowing \<Rightarrow> plain_reply (serveFollowing S user)
              | UStatus i \<Rightarrow> plain_reply (serveStatus S r user i)
              | UReplies i \<Rightarrow> plain_reply (serveReplies S user i)
              | UNone \<Rightarrow> ret (http_NotFound, None)))
      })"

section \<open>WebFinger and node info\<close>

definition self_jrd :: "gateway \<Rightarrow> string \<Rightarrow> string \<Rightarrow> document" where
  "self_jrd g user href = DocJRD \<lparr>jrd_Subject = ''acct:'' @ user @ ''@'' @ gw_host g,
     jrd_Links = [\<lparr>wl_Rel = ''self'', wl_Type = contentTypeAP, wl_Href = href\<rparr>]\<rparr>"

definition handleWebFinger :: "('w, 'k) server \<Rightarrow> in_request \<Rightarrow> ('w, response) gw" where
  "handleWebFinger S r =
     (let acct = trim_prefix (query_get (ir_query r) ''resource'') ''acct:''; g = sv_gw S in
      case last_index acct ''@'' of
        None \<Rightarrow> ret (http_error ''bad resource'' 400)
      | Some i \<Rightarrow>
          (let user = take i acct; domain = drop (i + 1) acct in
           if domain \<noteq> gw_host g then ret http_NotFound
           else if user = instanceActorName
             then ret (writeJSON S [] contentTypeJRD (self_jrd g user (instanceActorID g)))
           else do {
             u \<leftarrow> sv_source S user;
             ret (case u of
                None \<Rightarrow> http_NotFound
              | Some _ \<Rightarrow> writeJSON S [] contentTypeJRD (self_jrd g user (actorID g user)))
           }))"

definition gatewayVersion :: string where "gatewayVersion = ''0.1.86''"

definition handleNodeInfoLinks :: "('w, 'k) server \<Rightarrow> response" where
  "handleNodeInfoLinks S = writeJSON S [] ''application/json''
     (DocNodeInfoLinks ''http://nodeinfo.diaspora.software/ns/schema/2.0'' (baseURL (sv_gw S) @ ''/nodeinfo/2.0''))"

definition handleNodeInfo :: "('w, 'k) server \<Rightarrow> response" where
  "handleNodeInfo S = writeJSON S [] ''application/json''
     (DocNodeInfo ''2.0'' ''warpnet-fediverse-gateway'' gatewayVersion)"

section \<open>The media proxy\<close>

text \<open>A stored image is a data URL, or \<open>mime,base64\<close>.\<close>

definition media_type :: "string \<Rightarrow> string" where
  "media_type m = trim_suffix (trim_prefix m ''data:'') '';base64''"

definition media_response :: "string \<Rightarrow> response" where
  "media_response file =
     (let (m, data, found) = cut file '','' in
      if \<not> found then http_NotFound
      else case std_decode data of
        None \<Rightarrow> http_error ''decode failed'' 502
      | Some bytes \<Rightarrow> \<lparr>rp_status = 200, rp_type = media_type m, rp_header = [], rp_body = BodyBytes bytes\<rparr>)"

definition handleMedia :: "('w, 'k) server \<Rightarrow> in_request \<Rightarrow> ('w, response) gw" where
  "handleMedia S r =
     (if \<not> gw_has_node (sv_gw S) then ret (http_error ''no node'' 503)
      else case decodeMediaRef (trim_prefix (ir_path r) pathMedia) of
        (userID, key, ok) \<Rightarrow>
          if \<not> ok \<or> key = [] then ret http_NotFound
          else do {
            a \<leftarrow> nr_request (sv_req S) routeGetImage (GetImageEvent userID key);
            ret (case a of
               Inl e \<Rightarrow> http_error ''fetch failed'' 502
             | Inr bt \<Rightarrow>
                 (case dc_image (sv_codec S) bt of
                    None \<Rightarrow> http_NotFound
                  | Some file \<Rightarrow> if file = [] then http_NotFound else media_response file))
          })"

section \<open>Logs\<close>

definition handleLogs :: "('w, 'k) server \<Rightarrow> in_request \<Rightarrow> response" where
  "handleLogs S r =
     (let token = gw_logsToken (sv_gw S) in
      case (if token = [] then None else sv_logs S) of
        None \<Rightarrow> http_NotFound
      | Some ls \<Rightarrow>
          (let q = query_get (ir_query r) ''token'';
               provided = (if q = [] then trim_prefix (header_get (rq_headers r) ''Authorization'') ''Bearer '' else q) in
           if provided \<noteq> token
             then (http_error ''unauthorized'' 401)\<lparr>rp_header := [(''WWW-Authenticate'', ''Bearer'')]\<rparr>
           else \<lparr>rp_status = 200, rp_type = ''text/plain; charset=utf-8'', rp_header = [], rp_body = BodyLines ls\<rparr>))"

section \<open>The routes\<close>

text \<open>
  The handlers registered on the mux, by pattern: a pattern that ends in a slash matches a subtree,
  another one a single path.  The request path is the one the mux dispatches on, after the mux has
  redirected unclean paths.
\<close>

datatype endpoint =
    EpWebFinger | EpNodeInfoLinks | EpNodeInfo | EpUsers | EpInstanceActor | EpInstanceSub
  | EpSharedInbox | EpMedia | EpStatic | EpLogs | EpNone

definition pathStatic :: string where "pathStatic = ''/static/''"

definition endpoint_of :: "string \<Rightarrow> endpoint" where
  "endpoint_of p =
     (if p = ''/.well-known/webfinger'' then EpWebFinger
      else if p = ''/.well-known/nodeinfo'' then EpNodeInfoLinks
      else if p = ''/nodeinfo/2.0'' then EpNodeInfo
      else if prefix pathUsers p then EpUsers
      else if p = pathActor then EpInstanceActor
      else if prefix (pathActor @ ''/'') p then EpInstanceSub
      else if p = pathInbox then EpSharedInbox
      else if prefix pathMedia p then EpMedia
      else if prefix pathStatic p then EpStatic
      else if p = ''/logs'' then EpLogs
      else EpNone)"

definition routes :: "('w, 'k) server \<Rightarrow> in_request \<Rightarrow> ('w, response \<times> job option) gw" where
  "routes S r = (case endpoint_of (ir_path r) of
     EpWebFinger \<Rightarrow> plain_reply (handleWebFinger S r)
   | EpNodeInfoLinks \<Rightarrow> ret (handleNodeInfoLinks S, None)
   | EpNodeInfo \<Rightarrow> ret (handleNodeInfo S, None)
   | EpUsers \<Rightarrow> handleUsers S r
   | EpInstanceActor \<Rightarrow> ret (handleInstanceActor S, None)
   | EpInstanceSub \<Rightarrow> ret (handleInstanceActorSub S r, None)
   | EpSharedInbox \<Rightarrow> serveInbox S [] r
   | EpMedia \<Rightarrow> plain_reply (handleMedia S r)
   | EpStatic \<Rightarrow> ret ((sv_static S r)\<lparr>rp_header := (''Cache-Control'', ''public, max-age=86400'') # rp_header (sv_static S r)\<rparr>, None)
   | EpLogs \<Rightarrow> ret (handleLogs S r, None)
   | EpNone \<Rightarrow> ret (http_NotFound, None))"

text \<open>The standalone log listener (\<open>logsHandler\<close>).\<close>

definition logsHandler :: "('w, 'k) server \<Rightarrow> in_request \<Rightarrow> response" where
  "logsHandler S r = (if ir_path r = ''/logs'' then handleLogs S r else http_NotFound)"

end
