(* ===== verification/Wire.thy ===== *)
theory Wire
  imports Server
begin

text \<open>
  The documents on the wire: what \<open>json.Marshal\<close> makes of the structs of \<open>activitypub.go\<close>, field by
  field, with the names and the \<open>omitempty\<close> options of their tags, as decoded values.  The bytes
  between a value and its text are \<open>encoding/json\<close>, and stay the parameters \<open>env_marshal\<close> and
  \<open>env_unmarshal\<close>.
\<close>

section \<open>Fields\<close>

text \<open>An \<open>omitempty\<close> field of type string, slice and pointer.\<close>

definition opt_str :: "string \<Rightarrow> string \<Rightarrow> (string \<times> json) list" where
  "opt_str k s = (if s = [] then [] else [(k, JStr s)])"

definition opt_list :: "string \<Rightarrow> json list \<Rightarrow> (string \<times> json) list" where
  "opt_list k xs = (if xs = [] then [] else [(k, JArr xs)])"

definition opt_ptr :: "string \<Rightarrow> json option \<Rightarrow> (string \<times> json) list" where
  "opt_ptr k p = (case p of None \<Rightarrow> [] | Some v \<Rightarrow> [(k, v)])"

text \<open>A slice of terms is followed by the term map, when there is one.\<close>

definition context_json :: "ap_context \<Rightarrow> json" where
  "context_json c = (case c of
     CtxNone \<Rightarrow> JNull
   | CtxIRI s \<Rightarrow> JStr s
   | CtxList iris terms \<Rightarrow> JArr (map JStr iris @
       (if terms = [] then [] else [JObj (map (\<lambda>(k, v). (k, JStr v)) terms)])))"

definition opt_context :: "ap_context \<Rightarrow> (string \<times> json) list" where
  "opt_context c = (if c = CtxNone then [] else [(''@context'', context_json c)])"

section \<open>Documents\<close>

definition attachment_json :: "attachment \<Rightarrow> json" where
  "attachment_json a = JObj [(''type'', JStr (at_Type a)), (''url'', JStr (at_URL a))]"

definition mention_json :: "mentionTag \<Rightarrow> json" where
  "mention_json m = JObj ([(''type'', JStr (mt_Type m)), (''href'', JStr (mt_Href m))] @ opt_str ''name'' (mt_Name m))"

definition note_json :: "ap_note \<Rightarrow> json" where
  "note_json n = JObj (opt_context (n_Context n) @
     [(''id'', JStr (n_ID n)), (''type'', JStr (n_Type n)), (''attributedTo'', JStr (n_AttributedTo n)),
      (''content'', JStr (n_Content n)), (''published'', JStr (n_Published n))] @
     opt_str ''replies'' (n_Replies n) @ opt_str ''inReplyTo'' (n_InReplyTo n) @
     opt_list ''to'' (map JStr (n_To n)) @ opt_list ''cc'' (map JStr (n_Cc n)) @
     opt_list ''tag'' (map mention_json (n_Tag n)) @
     opt_list ''attachment'' (map attachment_json (n_Attachment n)))"

definition public_key_json :: "publicKey \<Rightarrow> json" where
  "public_key_json k = JObj [(''id'', JStr (pk_ID k)), (''owner'', JStr (pk_Owner k)),
     (''publicKeyPem'', JStr (pk_PublicKeyPEM k))]"

definition emoji_icon_json :: "emojiIcon \<Rightarrow> json" where
  "emoji_icon_json i = JObj [(''type'', JStr (ei_Type i)), (''mediaType'', JStr (ei_MediaType i)), (''url'', JStr (ei_URL i))]"

definition emoji_json :: "emojiTag \<Rightarrow> json" where
  "emoji_json t = JObj [(''type'', JStr (em_Type t)), (''id'', JStr (em_ID t)), (''name'', JStr (em_Name t)),
     (''icon'', case em_Icon t of None \<Rightarrow> JNull | Some i \<Rightarrow> emoji_icon_json i)]"

definition property_json :: "propertyValue \<Rightarrow> json" where
  "property_json p = JObj [(''type'', JStr (pv_Type p)), (''name'', JStr (pv_Name p)), (''value'', JStr (pv_Value p))]"

definition endpoints_json :: "string \<Rightarrow> json" where
  "endpoints_json shared = JObj [(''sharedInbox'', JStr shared)]"

definition actor_json :: "actor \<Rightarrow> json" where
  "actor_json a = JObj ([(''@context'', context_json (ac_Context a)), (''id'', JStr (ac_ID a)),
      (''type'', JStr (ac_Type a)), (''preferredUsername'', JStr (ac_PreferredUsername a))] @
     opt_str ''name'' (ac_Name a) @ opt_str ''summary'' (ac_Summary a) @
     opt_ptr ''icon'' (map_option attachment_json (ac_Icon a)) @
     opt_ptr ''image'' (map_option attachment_json (ac_Image a)) @
     opt_list ''tag'' (map emoji_json (ac_Tag a)) @
     opt_list ''attachment'' (map property_json (ac_Attachment a)) @
     [(''inbox'', JStr (ac_Inbox a)), (''outbox'', JStr (ac_Outbox a)), (''followers'', JStr (ac_Followers a)),
      (''following'', JStr (ac_Following a)), (''publicKey'', public_key_json (ac_PublicKey a))] @
     opt_ptr ''endpoints'' (map_option endpoints_json (ac_SharedInbox a)))"

definition tombstone_json :: "string \<Rightarrow> string \<Rightarrow> json" where
  "tombstone_json i typ = JObj [(''id'', JStr i), (''type'', JStr typ)]"

text \<open>An inbound activity is echoed as it was decoded; a nil map is \<open>null\<close>.\<close>

fun activity_json :: "activity \<Rightarrow> json" and object_json :: "ap_object \<Rightarrow> json" where
  "activity_json (Activity ctx i typ actor obj tos cc) =
     JObj (opt_context ctx @ opt_str ''id'' i @ [(''type'', JStr typ)] @ opt_str ''actor'' actor @
       [(''object'', object_json obj)] @ opt_list ''to'' (map JStr tos) @ opt_list ''cc'' (map JStr cc))"
| "object_json (ObjInbound m) = (case m of None \<Rightarrow> JNull | Some kvs \<Rightarrow> JObj kvs)"
| "object_json (ObjIRI s) = JStr s"
| "object_json (ObjNote n) = note_json n"
| "object_json (ObjActor a) = actor_json a"
| "object_json (ObjTombstone i typ) = tombstone_json i typ"
| "object_json (ObjActivity a) = activity_json a"

definition item_json :: "coll_item \<Rightarrow> json" where
  "item_json it = (case it of ItemIRI s \<Rightarrow> JStr s | ItemNote n \<Rightarrow> note_json n | ItemActivity a \<Rightarrow> activity_json a)"

definition collection_json :: "orderedCollection \<Rightarrow> json" where
  "collection_json c = JObj [(''@context'', context_json (oc_Context c)), (''id'', JStr (oc_ID c)),
     (''type'', JStr (oc_Type c)), (''totalItems'', JNum (of_nat (oc_TotalItems c))),
     (''orderedItems'', JArr (map item_json (oc_OrderedItems c)))]"

definition link_json :: "webFingerLink \<Rightarrow> json" where
  "link_json l = JObj ([(''rel'', JStr (wl_Rel l))] @ opt_str ''type'' (wl_Type l) @ opt_str ''href'' (wl_Href l))"

definition jrd_json :: "webFingerJRD \<Rightarrow> json" where
  "jrd_json j = JObj [(''subject'', JStr (jrd_Subject j)), (''links'', JArr (map link_json (jrd_Links j)))]"

definition nodeinfo_links_json :: "string \<Rightarrow> string \<Rightarrow> json" where
  "nodeinfo_links_json rel href = JObj [(''links'', JArr [JObj [(''rel'', JStr rel), (''href'', JStr href)]])]"

definition nodeinfo_json :: "string \<Rightarrow> string \<Rightarrow> string \<Rightarrow> json" where
  "nodeinfo_json version software softwareVersion = JObj
     [(''metadata'', JObj []), (''openRegistrations'', JBool False), (''protocols'', JArr [JStr ''activitypub'']),
      (''services'', JObj [(''inbound'', JArr []), (''outbound'', JArr [])]),
      (''software'', JObj [(''name'', JStr software), (''version'', JStr softwareVersion)]),
      (''usage'', JObj [(''users'', JObj [(''total'', JNum 1)])]), (''version'', JStr version)]"

text \<open>What \<open>writeJSON\<close> encodes.\<close>

definition document_json :: "document \<Rightarrow> json" where
  "document_json d = (case d of
     DocActor a \<Rightarrow> actor_json a | DocNote n \<Rightarrow> note_json n | DocCollection c \<Rightarrow> collection_json c
   | DocJRD j \<Rightarrow> jrd_json j | DocNodeInfoLinks rel href \<Rightarrow> nodeinfo_links_json rel href
   | DocNodeInfo v s sv \<Rightarrow> nodeinfo_json v s sv)"

section \<open>Reading the fields back\<close>

lemma jget_append_fields:
  "jget (Some (opt_str k s @ m)) k' = (if k' = k \<and> s \<noteq> [] then JStr s else jget (Some m) k')"
  "jget (Some (opt_list k xs @ m)) k' = (if k' = k \<and> xs \<noteq> [] then JArr xs else jget (Some m) k')"
  "jget (Some (opt_ptr k p @ m)) k' = (if k' = k \<and> p \<noteq> None then the p else jget (Some m) k')"
  "jget (Some (opt_context c @ m)) k' = (if k' = ''@context'' \<and> c \<noteq> CtxNone then context_json c else jget (Some m) k')"
  by (simp_all add: opt_str_def opt_list_def opt_ptr_def opt_context_def split: option.split)

lemma jget_last_fields:
  "jget (Some (opt_str k s)) k' = (if k' = k \<and> s \<noteq> [] then JStr s else JNull)"
  "jget (Some (opt_list k xs)) k' = (if k' = k \<and> xs \<noteq> [] then JArr xs else JNull)"
  "jget (Some (opt_ptr k p)) k' = (if k' = k \<and> p \<noteq> None then the p else JNull)"
  by (simp_all add: opt_str_def opt_list_def opt_ptr_def split: option.split)

lemmas wire_fields [simp] = jget_append_fields jget_last_fields

abbreviation fields_of :: "json \<Rightarrow> gomap" where "fields_of \<equiv> asMap"

lemma note_json_obj: "note_json n = JObj (the (fields_of (note_json n)))"
  by (simp add: note_json_def)

lemma note_json_fields [simp]:
  "jget (fields_of (note_json n)) ''id'' = JStr (n_ID n)"
  "jget (fields_of (note_json n)) ''type'' = JStr (n_Type n)"
  "jget (fields_of (note_json n)) ''attributedTo'' = JStr (n_AttributedTo n)"
  "jget (fields_of (note_json n)) ''content'' = JStr (n_Content n)"
  "jget (fields_of (note_json n)) ''published'' = JStr (n_Published n)"
  "asString (jget (fields_of (note_json n)) ''replies'') = n_Replies n"
  "asString (jget (fields_of (note_json n)) ''inReplyTo'') = n_InReplyTo n"
  "asSlice (jget (fields_of (note_json n)) ''attachment'') = map attachment_json (n_Attachment n)"
  "jget (fields_of (note_json n)) ''quoteUri'' = JNull" "jget (fields_of (note_json n)) ''quoteUrl'' = JNull"
  "jget (fields_of (note_json n)) ''_misskey_quote'' = JNull" "jget (fields_of (note_json n)) ''quote'' = JNull"
  "jget (fields_of (note_json n)) ''url'' = JNull" "jget (fields_of (note_json n)) ''likes'' = JNull"
  by (simp_all add: note_json_def)

lemma activity_json_fields [simp]:
  "jget (fields_of (activity_json a)) ''type'' = JStr (act_Type a)"
  "asString (jget (fields_of (activity_json a)) ''actor'') = act_Actor a"
  "str_or_empty (jget (fields_of (activity_json a)) ''actor'') = act_Actor a"
  "asString (jget (fields_of (activity_json a)) ''id'') = act_ID a"
  "jget (fields_of (activity_json a)) ''object'' = object_json (act_Object a)"
  by (cases a; simp)+

declare activity_json.simps [simp del]

lemma actor_json_fields [simp]:
  "jget (fields_of (actor_json a)) ''id'' = JStr (ac_ID a)"
  "jget (fields_of (actor_json a)) ''preferredUsername'' = JStr (ac_PreferredUsername a)"
  "str_or_empty (jget (fields_of (actor_json a)) ''name'') = ac_Name a"
  "asString (jget (fields_of (actor_json a)) ''summary'') = ac_Summary a"
  "jget (fields_of (actor_json a)) ''inbox'' = JStr (ac_Inbox a)"
  "jget (fields_of (actor_json a)) ''outbox'' = JStr (ac_Outbox a)"
  "jget (fields_of (actor_json a)) ''followers'' = JStr (ac_Followers a)"
  "jget (fields_of (actor_json a)) ''following'' = JStr (ac_Following a)"
  "jget (fields_of (actor_json a)) ''publicKey'' = public_key_json (ac_PublicKey a)"
  "jget (fields_of (actor_json a)) ''endpoints'' =
     (case ac_SharedInbox a of None \<Rightarrow> JNull | Some s \<Rightarrow> endpoints_json s)"
  "asImageURL (jget (fields_of (actor_json a)) ''icon'') = (case ac_Icon a of None \<Rightarrow> [] | Some i \<Rightarrow> at_URL i)"
  "asImageURL (jget (fields_of (actor_json a)) ''image'') = (case ac_Image a of None \<Rightarrow> [] | Some i \<Rightarrow> at_URL i)"
  "jget (fields_of (actor_json a)) ''published'' = JNull"
  by (auto simp: actor_json_def attachment_json_def split: option.split)

lemma fields_of_objects [simp]:
  "fields_of (note_json n) \<noteq> None" "fields_of (activity_json a) \<noteq> None" "fields_of (actor_json ac) \<noteq> None"
  "fields_of (jrd_json j) \<noteq> None" "fields_of (collection_json c) \<noteq> None"
  by (cases a; simp add: activity_json.simps note_json_def actor_json_def jrd_json_def collection_json_def)+

text \<open>Every document is an object, so that decoding it into a map succeeds.\<close>

lemma as_document_obj: "fields_of j \<noteq> None \<Longrightarrow> as_document (Inr j) = Inr (fields_of j)"
  by (cases j) (simp_all add: as_document_def)

end
