(* ===== verification/Rate_Limit.thy ===== *)
theory Rate_Limit
  imports Server
begin

text \<open>
  Rate limiting (\<open>rate-limit.go\<close>): the task queue behind a limiter, the per-client and global
  limiters, the watchdog that replaces stuck limiters, the middleware, and the classification of
  paths.  The limiter itself and the expirable cache are third-party packages: the operations of
  \<open>limiter_lib\<close>.
\<close>

section \<open>The task queue\<close>

definition q_Len :: "'t list \<Rightarrow> int" where "q_Len q = int (length q)"

text \<open>\<open>TaskByIndex\<close> clamps its index; on an empty queue the clamped index is -1 and the access panics.\<close>

definition q_TaskByIndex :: "'t list \<Rightarrow> int \<Rightarrow> 't option" where
  "q_TaskByIndex q i0 =
     (let i1 = (if i0 < 0 then 0 else i0); i = (if i1 \<ge> int (length q) then int (length q) - 1 else i1) in
      if i < 0 then None else Some (q ! nat i))"

definition q_CutOffBefore :: "'t list \<Rightarrow> int \<Rightarrow> 't list" where
  "q_CutOffBefore q start =
     (if start \<le> 0 then q else if start \<ge> int (length q) then [] else drop (nat start) q)"

definition q_Append :: "'t list \<Rightarrow> 't list \<Rightarrow> 't list" where
  "q_Append q ts = q @ ts"

section \<open>Budgets and classification\<close>

definition rateWindow :: int where "rateWindow = 60 * 1000000000"
definition perClientBudget :: u32 where "perClientBudget = 1200"
definition globalBudget :: u32 where "globalBudget = 6000"
definition weightStatic :: u32 where "weightStatic = 1"
definition weightActor :: u32 where "weightActor = 2"
definition weightCollection :: u32 where "weightCollection = 4"
definition weightInbox :: u32 where "weightInbox = 4"
definition weightMedia :: u32 where "weightMedia = 8"

definition isControlPlane :: "string \<Rightarrow> bool" where
  "isControlPlane p =
     (if p = pathInbox \<or> p = pathActor \<or> prefix ''/.well-known/webfinger'' p then True
      else if prefix pathUsers p then
        (let rest = trim_prefix p pathUsers in
         case index_byte rest CHR ''/'' of
           None \<Rightarrow> True
         | Some i \<Rightarrow> (let sub = drop (i + 1) rest in sub = [] \<or> prefix ''inbox'' sub))
      else False)"

definition requestWeight :: "string \<Rightarrow> u32" where
  "requestWeight p =
     (if prefix pathMedia p then weightMedia
      else if p = pathInbox then weightInbox
      else if prefix pathUsers p then
        (let rest = trim_prefix p pathUsers in
         case index_byte rest CHR ''/'' of
           None \<Rightarrow> weightActor
         | Some i \<Rightarrow>
             if drop (i + 1) rest \<noteq> [] then
               (if prefix ''inbox'' (drop (i + 1) rest) then weightInbox else weightCollection)
             else weightActor)
      else if prefix ''/.well-known/webfinger'' p then weightActor
      else weightStatic)"

text \<open>\<open>clientIP\<close>; \<open>net.SplitHostPort\<close> is an argument.\<close>

definition clientIP :: "(string \<Rightarrow> (string \<times> string) option) \<Rightarrow> string \<Rightarrow> string" where
  "clientIP split_host_port remoteAddr =
     (case split_host_port remoteAddr of Some (host, _) \<Rightarrow> host | None \<Rightarrow> remoteAddr)"

section \<open>The limiters\<close>

text \<open>
  Limiters of type \<open>'l\<close>: creation over an empty task queue, the locked flag, spending a weight, and
  closing; and the cache of the clients' limiters, with \<open>Get\<close>, \<open>Peek\<close>, \<open>Add\<close> and \<open>Keys\<close>.
\<close>

record ('w, 'l) limiter_lib =
  lim_new :: "u32 \<Rightarrow> int \<Rightarrow> 'w \<Rightarrow> 'l \<times> 'w"
  lim_locked :: "'l \<Rightarrow> 'w \<Rightarrow> bool \<times> 'w"
  lim_spend :: "'l \<Rightarrow> u32 \<Rightarrow> 'w \<Rightarrow> 'w"
  cl_get :: "string \<Rightarrow> 'w \<Rightarrow> 'l option \<times> 'w"
  cl_peek :: "string \<Rightarrow> 'w \<Rightarrow> 'l option \<times> 'w"
  cl_add :: "string \<Rightarrow> 'l \<Rightarrow> 'w \<Rightarrow> 'w"
  cl_keys :: "'w \<Rightarrow> string list \<times> 'w"

text \<open>The throttle: its parameters and the global limiter, which the watchdog swaps.\<close>

record 'l rateLimiters =
  rl_window :: int
  rl_clientBudget :: u32
  rl_globalBudget :: u32
  rl_global :: 'l

type_synonym ('w, 'l, 'a) rl = "('l rateLimiters \<times> 'w, 'a) state"

definition rl_world :: "('w \<Rightarrow> 'a \<times> 'w) \<Rightarrow> ('w, 'l, 'a) rl" where
  "rl_world f = State (\<lambda>(rl, w). let (a, w') = f w in (a, (rl, w')))"

definition rl_read :: "('l rateLimiters \<Rightarrow> 'a) \<Rightarrow> ('w, 'l, 'a) rl" where
  "rl_read f = State (\<lambda>(rl, w). (f rl, (rl, w)))"

definition rl_store :: "'l \<Rightarrow> ('w, 'l, unit) rl" where
  "rl_store l = State (\<lambda>(rl, w). ((), (rl\<lparr>rl_global := l\<rparr>, w)))"

lemma run_rl [simp]:
  "run_state (rl_world f) (rl, w) = (fst (f w), (rl, snd (f w)))"
  "run_state (rl_read h) (rl, w) = (h rl, (rl, w))"
  "run_state (rl_store l) (rl, w) = ((), (rl\<lparr>rl_global := l\<rparr>, w))"
  by (simp_all add: rl_world_def rl_read_def rl_store_def split: prod.split)

definition newRateLimitersWith ::
  "('w, 'l) limiter_lib \<Rightarrow> u32 \<Rightarrow> u32 \<Rightarrow> int \<Rightarrow> 'w \<Rightarrow> 'l rateLimiters \<times> 'w" where
  "newRateLimitersWith B global perClient window w =
     (let (l, w') = lim_new B global window w in
      (\<lparr>rl_window = window, rl_clientBudget = perClient, rl_globalBudget = global, rl_global = l\<rparr>, w'))"

definition newRateLimiters :: "('w, 'l) limiter_lib \<Rightarrow> 'w \<Rightarrow> 'l rateLimiters \<times> 'w" where
  "newRateLimiters B = newRateLimitersWith B globalBudget perClientBudget rateWindow"

text \<open>The limiter of a client: re-added when found, so that an active client keeps its budget.\<close>

definition client :: "('w, 'l) limiter_lib \<Rightarrow> string \<Rightarrow> ('w, 'l, 'l) rl" where
  "client B ip = do {
     hit \<leftarrow> rl_world (cl_get B ip);
     (case hit of
        Some l \<Rightarrow> do { _ \<leftarrow> rl_world (\<lambda>w. ((), cl_add B ip l w)); State_Monad.return l }
      | None \<Rightarrow> do {
          (budget, window) \<leftarrow> rl_read (\<lambda>rl. (rl_clientBudget rl, rl_window rl));
          l \<leftarrow> rl_world (lim_new B budget window);
          _ \<leftarrow> rl_world (\<lambda>w. ((), cl_add B ip l w));
          State_Monad.return l
        })
   }"

section \<open>The middleware\<close>

text \<open>
  \<open>middleware\<close>: \<open>Inl\<close> the \<open>Retry-After\<close> of a 429, or \<open>Inr\<close> when the next handler is handed to
  \<open>Limit\<close>; \<open>lim_spend\<close> is the effect of \<open>Limit\<close> apart from the handler it is given.
\<close>

definition middleware ::
  "('w, 'l) limiter_lib \<Rightarrow> string \<Rightarrow> string \<Rightarrow> ('w, 'l, int + unit) rl" where
  "middleware B ip p = do {
     lm \<leftarrow> client B ip;
     global \<leftarrow> rl_read rl_global;
     locked \<leftarrow> rl_world (lim_locked B lm);
     refused \<leftarrow> (if locked then State_Monad.return True
                else if isControlPlane p then State_Monad.return False
                else rl_world (lim_locked B global));
     (if refused then rl_read (\<lambda>rl. Inl (rl_window rl div 1000000000))
      else if isControlPlane p then do {
        _ \<leftarrow> rl_world (\<lambda>w. ((), lim_spend B lm (requestWeight p) w));
        State_Monad.return (Inr ())
      }
      else do {
        _ \<leftarrow> rl_world (\<lambda>w. ((), lim_spend B global (requestWeight p) w));
        _ \<leftarrow> rl_world (\<lambda>w. ((), lim_spend B lm (requestWeight p) w));
        State_Monad.return (Inr ())
      })
   }"

section \<open>The watchdog\<close>

text \<open>\<open>resetGlobalIfStuck\<close>, with the zero time as 0.\<close>

definition resetGlobalIfStuck :: "('w, 'l) limiter_lib \<Rightarrow> gotime \<Rightarrow> gotime \<Rightarrow> ('w, 'l, gotime) rl" where
  "resetGlobalIfStuck B lockedSince now = do {
     global \<leftarrow> rl_read rl_global;
     locked \<leftarrow> rl_world (lim_locked B global);
     (if \<not> locked then State_Monad.return 0
      else if lockedSince = 0 then State_Monad.return now
      else do {
        (budget, window) \<leftarrow> rl_read (\<lambda>rl. (rl_globalBudget rl, rl_window rl));
        (if now - lockedSince \<ge> window then do {
           l \<leftarrow> rl_world (lim_new B budget window);
           _ \<leftarrow> rl_store l;
           State_Monad.return 0
         }
         else State_Monad.return lockedSince)
      })
   }"

text \<open>One client of \<open>resetStuckClients\<close>: the new map, and whether the client was seen locked.\<close>

definition reset_client ::
  "('w, 'l) limiter_lib \<Rightarrow> (string \<rightharpoonup> gotime) \<Rightarrow> gotime \<Rightarrow> string \<Rightarrow> ('w, 'l, (string \<rightharpoonup> gotime) \<times> bool) rl" where
  "reset_client B m now ip = do {
     hit \<leftarrow> rl_world (cl_peek B ip);
     (case hit of
        None \<Rightarrow> State_Monad.return (m, False)
      | Some lm \<Rightarrow> do {
          locked \<leftarrow> rl_world (lim_locked B lm);
          (if \<not> locked then State_Monad.return (m, False)
           else case m ip of
             None \<Rightarrow> State_Monad.return (m(ip \<mapsto> now), True)
           | Some since \<Rightarrow> do {
               (budget, window) \<leftarrow> rl_read (\<lambda>rl. (rl_clientBudget rl, rl_window rl));
               (if now - since \<ge> window then do {
                  l \<leftarrow> rl_world (lim_new B budget window);
                  _ \<leftarrow> rl_world (\<lambda>w. ((), cl_add B ip l w));
                  State_Monad.return (m(ip := None), True)
                }
                else State_Monad.return (m, True))
             })
        })
   }"

fun reset_clients ::
  "('w, 'l) limiter_lib \<Rightarrow> gotime \<Rightarrow> string list \<Rightarrow> (string \<rightharpoonup> gotime) \<Rightarrow> string set \<Rightarrow>
    ('w, 'l, (string \<rightharpoonup> gotime) \<times> string set) rl" where
  "reset_clients B now [] m present = State_Monad.return (m, present)"
| "reset_clients B now (ip # ips) m present = do {
     (m', seen) \<leftarrow> reset_client B m now ip;
     reset_clients B now ips m' (if seen then insert ip present else present)
   }"

definition resetStuckClients ::
  "('w, 'l) limiter_lib \<Rightarrow> (string \<rightharpoonup> gotime) \<Rightarrow> gotime \<Rightarrow> ('w, 'l, string \<rightharpoonup> gotime) rl" where
  "resetStuckClients B m now = do {
     ips \<leftarrow> rl_world (cl_keys B);
     (m', present) \<leftarrow> reset_clients B now ips m {};
     State_Monad.return (m' |` present)
   }"

text \<open>One tick of \<open>drain\<close>.\<close>

definition drain_tick ::
  "('w, 'l) limiter_lib \<Rightarrow> gotime \<times> (string \<rightharpoonup> gotime) \<Rightarrow> gotime \<Rightarrow> ('w, 'l, gotime \<times> (string \<rightharpoonup> gotime)) rl" where
  "drain_tick B = (\<lambda>(since, m) now. do {
     since' \<leftarrow> resetGlobalIfStuck B since now;
     m' \<leftarrow> resetStuckClients B m now;
     State_Monad.return (since', m')
   })"

section \<open>The task queue keeps a limiter's total exact\<close>

lemma q_cut_drop: "0 \<le> k \<Longrightarrow> q_CutOffBefore q k = drop (nat k) q"
  by (auto simp: q_CutOffBefore_def)

text \<open>
  C30: the task queue never forgets or double counts a weight.  If a limiter's 32-bit total is the sum of
  the weights in the queue and it subtracts the weights of the first \<open>k\<close> tasks before cutting them
  off, then the total is again the sum of what is left, for every \<open>k\<close> up to and including the whole
  queue, when the total becomes zero and the queue empty; the task that was at index \<open>k + j\<close> is then at
  index \<open>j\<close>.
\<close>

theorem queue_total_exact:
  fixes weight :: "'t \<Rightarrow> u32"
  assumes "tot = sum_list (map weight q)" "0 \<le> k" "k \<le> q_Len q"
  shows "tot - sum_list (map weight (take (nat k) q)) = sum_list (map weight (q_CutOffBefore q k)) \<and>
    q_Len (q_CutOffBefore q k) = q_Len q - k \<and>
    (k = q_Len q \<longrightarrow> q_CutOffBefore q k = [] \<and> tot - sum_list (map weight (take (nat k) q)) = 0) \<and>
    (\<forall>j. 0 \<le> j \<and> k + j < q_Len q \<longrightarrow> q_TaskByIndex (q_CutOffBefore q k) j = q_TaskByIndex q (k + j))"
proof -
  have cut: "q_CutOffBefore q k = drop (nat k) q" and n: "nat k \<le> length q" "int (nat k) = k"
    using assms by (simp_all add: q_cut_drop q_Len_def)
  have "sum_list (map weight q) = sum_list (map weight (take (nat k) q)) + sum_list (map weight (drop (nat k) q))"
    by (metis append_take_drop_id map_append sum_list_append)
  then have total: "tot - sum_list (map weight (take (nat k) q)) = sum_list (map weight (drop (nat k) q))"
    using assms(1) by simp
  have "q_TaskByIndex (drop (nat k) q) j = q_TaskByIndex q (k + j)"
    if "0 \<le> j" "k + j < int (length q)" for j
    using that assms(2) by (simp add: q_TaskByIndex_def Let_def nat_add_distrib)
  moreover have "q_Len (drop (nat k) q) = q_Len q - k" using n by (simp add: q_Len_def)
  moreover have "drop (nat k) q = []" if "k = q_Len q" using that by (simp add: q_Len_def)
  ultimately show ?thesis unfolding cut total by (simp add: q_Len_def)
qed

lemma queue_total_exact_witness:
  "(12 :: u32) - sum_list (map (\<lambda>w. w) (take 3 [2, 4, 6])) = 0 \<and> q_CutOffBefore [2 :: u32, 4, 6] 3 = []"
  using queue_total_exact [of 12 "\<lambda>w. w" "[2 :: u32, 4, 6]" 3] by (simp add: q_Len_def)

section \<open>Classification and routing agree\<close>

text \<open>The requests by which peers verify and deliver activities.\<close>

definition federation_path :: "string \<Rightarrow> bool" where
  "federation_path p = (case endpoint_of p of
     EpWebFinger \<Rightarrow> True | EpInstanceActor \<Rightarrow> True | EpSharedInbox \<Rightarrow> True
   | EpUsers \<Rightarrow> user_target (user_parts p) \<in> {UActor, UInbox}
   | _ \<Rightarrow> False)"

definition serves_nothing :: "string \<Rightarrow> bool" where
  "serves_nothing p \<longleftrightarrow> endpoint_of p = EpNone \<or> endpoint_of p = EpUsers \<and> user_target (user_parts p) = UNone"

lemma index_byte_split: "index_byte s c = Some i \<Longrightarrow> s = take i s @ c # drop (Suc i) s \<and> c \<notin> set (take i s)"
proof (induction s arbitrary: i)
  case (Cons x xs)
  then show ?case by (auto simp: index_byte_def map_option_Suc_eq_Some_iff split: if_splits)
qed (simp add: index_byte_def)

lemma user_parts_users:
  "user_parts (''/users/'' @ rest) = (case index_byte rest CHR ''/'' of
     None \<Rightarrow> [rest] | Some i \<Rightarrow> take i rest # split_on CHR ''/'' (drop (Suc i) rest))"
proof (cases "index_byte rest CHR ''/''")
  case None
  then show ?thesis
    unfolding user_parts_def pathUsers_def trim_prefix_append by (simp add: split_on_absent index_byte_None_iff)
next
  case (Some i)
  from index_byte_split [OF this] show ?thesis
    unfolding user_parts_def pathUsers_def trim_prefix_append
    using split_on_append [of "CHR ''/''" "take i rest" "drop (Suc i) rest"] Some by simp
qed

lemma hd_split_on: "hd (split_on c s) = takeWhile (\<lambda>x. x \<noteq> c) s"
  by (induction s) (auto split: list.splits)

lemma split_on_nth_0: "split_on c s ! 0 = takeWhile (\<lambda>x. x \<noteq> c) s"
  using hd_split_on [of c s] by (cases "split_on c s") auto

lemma endpoint_users: "endpoint_of (''/users/'' @ rest) = EpUsers"
  by (simp add: endpoint_of_def)

lemma endpoint_users_iff: "endpoint_of p = EpUsers \<Longrightarrow> \<exists>rest. p = ''/users/'' @ rest"
  by (auto simp: endpoint_of_def prefix_def simp del: append.simps split: if_splits)

lemma control_users:
  "isControlPlane (''/users/'' @ rest) \<longleftrightarrow> (case index_byte rest CHR ''/'' of
     None \<Rightarrow> True | Some i \<Rightarrow> drop (Suc i) rest = [] \<or> prefix ''inbox'' (drop (Suc i) rest))"
proof -
  have "\<not> prefix ''/.well-known/webfinger'' (''/users/'' @ rest)" "''/users/'' @ rest \<noteq> pathInbox"
    "''/users/'' @ rest \<noteq> pathActor" "prefix pathUsers (''/users/'' @ rest)"
    "trim_prefix (''/users/'' @ rest) pathUsers = rest"
    unfolding pathUsers_def trim_prefix_append by simp_all
  then show ?thesis by (simp add: isControlPlane_def Let_def del: path_defs append.simps split: option.split)
qed

lemma weight_users:
  "requestWeight (''/users/'' @ rest) = (case index_byte rest CHR ''/'' of
     None \<Rightarrow> weightActor
   | Some i \<Rightarrow> if drop (Suc i) rest = [] then weightActor
       else if prefix ''inbox'' (drop (Suc i) rest) then weightInbox else weightCollection)"
proof -
  have "\<not> prefix pathMedia (''/users/'' @ rest)" "''/users/'' @ rest \<noteq> pathInbox"
    "prefix pathUsers (''/users/'' @ rest)" "trim_prefix (''/users/'' @ rest) pathUsers = rest"
    unfolding pathUsers_def trim_prefix_append by simp_all
  then show ?thesis by (simp add: requestWeight_def Let_def del: path_defs append.simps split: option.split)
qed

text \<open>
  The target of a path without empty inner segments, by what follows the user: nothing is the actor,
  \<open>inbox\<close> the inbox, and neither is reached by anything else.
\<close>

lemma target_actor_inbox:
  assumes "b = [] \<or> hd b \<noteq> CHR ''/''"
  shows "(user_target (u # split_on CHR ''/'' b) = UActor \<longleftrightarrow> b = []) \<and>
    (user_target (u # split_on CHR ''/'' b) = UInbox \<longrightarrow> b \<noteq> [] \<and> prefix ''inbox'' b) \<and>
    (prefix ''inbox'' b \<longrightarrow> user_target (u # split_on CHR ''/'' b) \<in> {UInbox, UNone})"
proof -
  let ?w = "takeWhile (\<lambda>x. x \<noteq> CHR ''/'') b"
  have w: "?w = [] \<longleftrightarrow> b = []" using assms by (cases b) auto
  have p1: "prefix ''inbox'' b" if "?w = ''inbox''" using that takeWhile_eq_take [of "\<lambda>x. x \<noteq> CHR ''/''" b]
    by (metis take_is_prefix)
  have p2: "\<exists>r. ?w = ''inbox'' @ r" if "prefix ''inbox'' b"
    using that by (auto simp: prefix_def)
  show ?thesis
    using w p1 p2 by (auto simp: user_target_def split_on_nth_0 split: if_splits)
qed

text \<open>
  C29: the exemption from the global budget covers the federation endpoints and nothing else that is
  served.  For every request path without an empty segment, WebFinger, the instance actor, a user's
  actor document, a user's inbox and the shared inbox are control plane, and a path that is control
  plane is one of these or is not served at all.
\<close>

theorem control_plane_is_federation:
  assumes "\<not> contains p ''//''"
  shows "(federation_path p \<longrightarrow> isControlPlane p) \<and> (isControlPlane p \<longrightarrow> federation_path p \<or> serves_nothing p)"
proof (cases "endpoint_of p = EpUsers")
  case True
  then obtain rest where p: "p = ''/users/'' @ rest" using endpoint_users_iff by blast
  show ?thesis
  proof (cases "index_byte rest CHR ''/''")
    case None
    then show ?thesis
      by (simp add: p federation_path_def serves_nothing_def endpoint_users control_users user_parts_users
          user_target_def del: append.simps)
  next
    case (Some i)
    define a b where "a = take i rest" and "b = drop (Suc i) rest"
    have rest: "rest = a @ CHR ''/'' # b" using index_byte_split [OF Some] by (simp add: a_def b_def)
    have "b = [] \<or> hd b \<noteq> CHR ''/''"
    proof (rule ccontr)
      assume "\<not> (b = [] \<or> hd b \<noteq> CHR ''/'')"
      then obtain b' where "b = CHR ''/'' # b'" by (cases b) auto
      then have "p = (''/users/'' @ a) @ ''//'' @ b'" by (simp add: p rest)
      with assms contains_append show False by metis
    qed
    from target_actor_inbox [OF this, of a] show ?thesis
      using Some by (auto simp: p federation_path_def serves_nothing_def endpoint_users control_users
          user_parts_users a_def [symmetric] b_def [symmetric] simp del: append.simps)
  qed
next
  case False
  have "\<not> prefix ''/actor/'' p \<and> \<not> prefix ''/media/'' p \<and> \<not> prefix pathStatic p"
    if "prefix ''/.well-known/webfinger'' p"
    using that by (auto simp: prefix_def pathStatic_def)
  with False show ?thesis
    by (auto simp: federation_path_def serves_nothing_def endpoint_of_def isControlPlane_def split: if_splits)
qed

lemma control_plane_is_federation_witness:
  "isControlPlane ''/users/alice/'' \<and> federation_path ''/users/alice/'' \<and> \<not> isControlPlane ''/users/alice/outbox''"
proof -
  have c: "\<not> contains ''/users/alice/'' ''//''" "\<not> contains ''/users/alice/outbox'' ''//''" by code_simp+
  have f: "federation_path ''/users/alice/''" "\<not> federation_path ''/users/alice/outbox''"
    "\<not> serves_nothing ''/users/alice/outbox''" by code_simp+
  show ?thesis
    using control_plane_is_federation [OF c(1)] control_plane_is_federation [OF c(2)] f by blast
qed

end
