(* ===== verification/Server_Facts.thy ===== *)
theory Server_Facts
  imports Rate_Limit Bridge_Facts
begin

text \<open>
  Facts about the HTTP surface: the chain from WebFinger to an actor's key, the agreement of what is
  published, listed and served, the media proxy, and the gate of the log endpoint.
\<close>

section \<open>Routing\<close>

lemma last_index_byte: "c \<notin> set b \<Longrightarrow> last_index (a @ c # b) [c] = Some (length a)"
  using last_index_absent [of "[c]" b] by (induction a) auto

lemma split_user_path:
  assumes "CHR ''/'' \<notin> set u"
  shows "user_parts (''/users/'' @ u) = [u]"
    and "user_parts (''/users/'' @ u @ CHR ''/'' # rest) = u # split_on CHR ''/'' rest"
  using assms split_on_append [OF assms, of rest] unfolding user_parts_def pathUsers_def trim_prefix_append
  by (simp_all add: split_on_absent)

lemma routes_users:
  "ir_path r = ''/users/'' @ rest \<Longrightarrow> routes S r = handleUsers S r"
  by (simp add: routes_def endpoint_users del: append.simps)

lemma handle_known_user:
  assumes "user_parts (ir_path r) = u # parts" "run_state (sv_source S u) s = (Some wu, s1)"
  shows "run_state (handleUsers S r) s =
    run_state (case user_target (u # parts) of
        UActor \<Rightarrow> ret (serveActor S wu, None)
      | UInbox \<Rightarrow> serveInbox S u r
      | UOutbox \<Rightarrow> plain_reply (serveOutbox S u)
      | UFollowers \<Rightarrow> plain_reply (serveFollowers S u)
      | UFollowing \<Rightarrow> plain_reply (serveFollowing S u)
      | UStatus i \<Rightarrow> plain_reply (serveStatus S r u i)
      | UReplies i \<Rightarrow> plain_reply (serveReplies S u i)
      | UNone \<Rightarrow> ret (http_NotFound, None)) s1"
  using assms by (simp add: handleUsers_def Let_def split: user_target.split)

lemma run_plain_reply [simp]: "fst (run_state (plain_reply m) s) = (fst (run_state m s), None)"
  by (simp add: plain_reply_def split: prod.split)

lemma targets [simp]:
  "user_target [u] = UActor" "user_target [u, ''inbox''] = UInbox" "user_target [u, ''outbox''] = UOutbox"
  "i \<noteq> [] \<Longrightarrow> user_target [u, ''statuses'', i] = UStatus i"
  "i \<noteq> [] \<Longrightarrow> user_target [u, ''statuses'', i, ''replies''] = UReplies i"
  by (simp_all add: user_target_def)

lemma plain_no_slash: "plain_name u \<Longrightarrow> CHR ''/'' \<notin> set u"
  using id_segment_plain [of u] by (simp add: id_segment_def)

lemma sub_path:
  assumes "plain_name u"
  shows "user_parts (''/users/'' @ u @ ''/outbox'') = [u, ''outbox'']"
    and "user_parts (''/users/'' @ u @ ''/inbox'') = [u, ''inbox'']"
    and "plain_name i \<Longrightarrow> user_parts (''/users/'' @ u @ ''/statuses/'' @ i) = [u, ''statuses'', i]"
  using split_user_path(2) [OF plain_no_slash [OF assms], of "''outbox''"]
    split_user_path(2) [OF plain_no_slash [OF assms], of "''inbox''"]
    split_user_path(2) [OF plain_no_slash [OF assms], of "''statuses/'' @ i"]
    split_on_absent [OF plain_no_slash, of i]
  by simp_all

section \<open>From WebFinger to the key\<close>

lemma parse_actor_url:
  assumes "plain_gateway g" "plain_name u"
  shows "url_parse (actorID g u) = Some \<lparr>u_scheme = ''https'', u_opaque = [], u_host = gw_host g,
    u_path = ''/users/'' @ u, u_rawquery = []\<rparr>"
  using parse_https [of "gw_host g" "''/users/'' @ u"] assms plain_name_path [of u]
  by (simp add: plain_gateway_def actorID_def baseURL_def)

definition all_marshal :: "('w, 'k) server \<Rightarrow> bool" where
  "all_marshal S \<longleftrightarrow> (\<forall>d. sv_marshals S d)"

definition served :: "string \<Rightarrow> document \<Rightarrow> response" where
  "served ctype doc = \<lparr>rp_status = 200, rp_type = ctype, rp_header = [], rp_body = BodyDoc doc\<rparr>"

lemma write_served: "all_marshal S \<Longrightarrow> writeJSON S [] ctype doc = served ctype doc"
  by (simp add: writeJSON_def all_marshal_def served_def)

lemma webfinger_user:
  assumes "plain_gateway (sv_gw S)" "u \<noteq> instanceActorName" "all_marshal S"
    and "query_get (ir_query r) ''resource'' = ''acct:'' @ u @ ''@'' @ gw_host (sv_gw S)"
    and "run_state (sv_source S u) s = (Some wu, s1)"
  shows "run_state (handleWebFinger S r) s =
    (served contentTypeJRD (self_jrd (sv_gw S) u (actorID (sv_gw S) u)), s1)"
proof -
  have "CHR ''@'' \<notin> set (gw_host (sv_gw S))"
  proof -
    have "\<not> is_unreserved CHR ''@''" by code_simp
    with assms(1) show ?thesis by (auto simp: plain_gateway_def plain_host_def)
  qed
  from last_index_byte [OF this, of u] have
    l: "last_index (u @ ''@'' @ gw_host (sv_gw S)) ''@'' = Some (length u)" by simp
  have t: "trim_prefix (query_get (ir_query r) ''resource'') ''acct:'' = u @ ''@'' @ gw_host (sv_gw S)"
    unfolding assms(4) trim_prefix_append ..
  show ?thesis
    using assms(2,3,5) unfolding handleWebFinger_def Let_def t l by (simp add: write_served)
qed

text \<open>
  C21: discovery leads to a verifiable actor.  For a user that the source knows, WebFinger answers with
  the actor URL; a request for the path of that URL is answered with the actor document whose id is
  that URL, whose key id is what the gateway signs with and dereferences to the same document, whose
  key is the gateway's, and whose inbox and outbox URLs have paths that the router sends to the inbox
  and to the outbox.
\<close>

theorem discovery_leads_to_the_key:
  assumes g: "plain_gateway (sv_gw S)" and u: "plain_name u" "u \<noteq> instanceActorName" and m: "all_marshal S"
    and src: "\<And>s. \<exists>s'. run_state (sv_source S u) s = (Some wu, s')" "wu_PreferredUsername wu = u"
    and fq: "ir_path fq = ''/.well-known/webfinger''"
      "query_get (ir_query fq) ''resource'' = ''acct:'' @ u @ ''@'' @ gw_host (sv_gw S)"
  shows "\<exists>href url s1 a. run_state (routes S fq) s = ((served contentTypeJRD (self_jrd (sv_gw S) u href), None), s1) \<and>
    url_parse href = Some url \<and> u_host url = gw_host (sv_gw S) \<and>
    (\<forall>rq t. ir_path rq = u_path url \<longrightarrow> fst (run_state (routes S rq) t) = (served contentTypeAP (DocActor a), None)) \<and>
    ac_ID a = href \<and> pk_ID (ac_PublicKey a) = keyID (sv_gw S) u \<and> pk_Owner (ac_PublicKey a) = href \<and>
    fst (cut (keyID (sv_gw S) u) ''#'') = href \<and> pk_PublicKeyPEM (ac_PublicKey a) = gw_keyPubPEM (sv_gw S) \<and>
    ac_Inbox a = href @ ''/inbox'' \<and> user_target (user_parts (u_path url @ ''/inbox'')) = UInbox \<and>
    ac_Outbox a = href @ ''/outbox'' \<and> user_target (user_parts (u_path url @ ''/outbox'')) = UOutbox"
proof -
  let ?href = "actorID (sv_gw S) u" and ?a = "buildActor (sv_gw S) wu"
  obtain s1 where s1: "run_state (sv_source S u) s = (Some wu, s1)" using src(1) by blast
  have w: "run_state (routes S fq) s = ((served contentTypeJRD (self_jrd (sv_gw S) u ?href), None), s1)"
    using webfinger_user [OF g u(2) m fq(2) s1] by (simp add: routes_def endpoint_of_def fq(1) plain_reply_def)
  have a: "fst (run_state (routes S rq) t) = (served contentTypeAP (DocActor ?a), None)"
    if "ir_path rq = ''/users/'' @ u" for rq t
  proof -
    from src(1) obtain t1 where "run_state (sv_source S u) t = (Some wu, t1)" by blast
    with handle_known_user [of rq u "[]" S t wu t1] split_user_path(1) [OF plain_no_slash [OF u(1)]] that
    show ?thesis by (simp add: routes_users [OF that] serveActor_def write_served [OF m])
  qed
  have "CHR 0x23 \<notin> set ?href"
    using plain_name_no_delims [OF u(1)] plain_gateway_bytes [OF g] by (simp add: actorID_def baseURL_def)
  from cut_byte_append [OF this, of "''main-key''"] have k: "fst (cut (keyID (sv_gw S) u) ''#'') = ?href"
    by (simp add: keyID_def)
  show ?thesis
    using w a k src(2) parse_actor_url [OF g u(1)] sub_path [OF u(1)]
    by (intro exI [of _ ?href] exI [of _ s1] exI [of _ ?a] exI)
      (auto simp: buildActor_def Let_def)
qed

definition sample_user :: warpnetUser where
  "sample_user = \<lparr>wu_ID = ''1'', wu_PreferredUsername = ''alice'', wu_DisplayName = [], wu_Summary = [],
     wu_Avatar = [], wu_Background = []\<rparr>"

definition sample_post_tweet :: tweet where
  "sample_post_tweet = zero_tweet\<lparr>t_Id := ''42'', t_RootId := ''42'', t_UserId := ''alice'', t_Text := ''hello''\<rparr>"

definition sample_server :: "(http_response list, string) server" where
  "sample_server = \<lparr>sv_env = sample_env [], sv_source = (\<lambda>u. ret (staticSource_GetUser sample_user u)),
     sv_followers = \<lparr>fs_Add = (\<lambda>_ _. ret None), fs_List = (\<lambda>_. ret (Inr []))\<rparr>,
     sv_req = \<lparr>nr_request = (\<lambda>_ _. ret (Inr [])), nr_requestUser = (\<lambda>_ _ _. ret (Inr []))\<rparr>,
     sv_codec = \<lparr>dc_error = (\<lambda>_. None), dc_tweets = (\<lambda>_. Some ([sample_post_tweet], [])), dc_followers = (\<lambda>_. None),
       dc_followings = (\<lambda>_. None), dc_users = (\<lambda>_. None), dc_user = (\<lambda>_. None),
       dc_tweet = (\<lambda>_. Some sample_post_tweet), dc_image = (\<lambda>_. Some ''data:image/png;base64,aA=='')\<rparr>,
     sv_marshals = (\<lambda>_. True), sv_full = (\<lambda>w. (False, w)), sv_logs = Some [''line''], sv_static = (\<lambda>_. http_NotFound)\<rparr>"

definition sample_get :: "string \<Rightarrow> string \<Rightarrow> in_request" where
  "sample_get p q = \<lparr>rq_method = ''GET'', rq_url = p, rq_headers = [], rq_body = None, ir_path = p, ir_query = q\<rparr>"

lemma sample_server_simps:
  "sv_gw sample_server = sample_gateway" "all_marshal sample_server" "sv_lib sample_server = sample_lib"
  "\<exists>s'. run_state (sv_source sample_server ''alice'') s = (Some sample_user, s')" "wu_PreferredUsername sample_user = ''alice''"
  by (simp_all add: sample_server_def sv_gw_def sv_lib_def all_marshal_def sample_env_def sample_user_def
      staticSource_GetUser_def)

lemma discovery_leads_to_the_key_witness:
  "\<exists>href a t1. fst (run_state (routes sample_server (sample_get ''/.well-known/webfinger'' ''resource=acct:alice@gw.example''))
      (start_state [])) = (served contentTypeJRD (self_jrd sample_gateway ''alice'' href), None) \<and>
    ac_ID a = href \<and> fst (run_state (routes sample_server (sample_get ''/users/alice'' [])) t1)
      = (served contentTypeAP (DocActor a), None)"
proof -
  let ?wf = "sample_get ''/.well-known/webfinger'' ''resource=acct:alice@gw.example''"
  have p: "ir_path ?wf = ''/.well-known/webfinger''" by (simp add: sample_get_def)
  have q: "query_get (ir_query ?wf) ''resource'' = ''acct:'' @ ''alice'' @ ''@'' @ gw_host (sv_gw sample_server)"
    by code_simp
  have ne: "''alice'' \<noteq> instanceActorName" by (simp add: instanceActorName_def)
  have g: "plain_gateway (sv_gw sample_server)" using sample_plain by (simp add: sample_server_simps)
  from discovery_leads_to_the_key [OF g sample_plain(2) ne sample_server_simps(2,4,5) p q, of "start_state []"]
  obtain href url s1 a where h:
    "run_state (routes sample_server ?wf) (start_state []) = ((served contentTypeJRD (self_jrd (sv_gw sample_server) ''alice'' href), None), s1)"
    "url_parse href = Some url" "ac_ID a = href"
    "\<forall>rq t. ir_path rq = u_path url \<longrightarrow> fst (run_state (routes sample_server rq) t) = (served contentTypeAP (DocActor a), None)"
    "keyID (sv_gw sample_server) ''alice'' = pk_ID (ac_PublicKey a)" "fst (cut (keyID (sv_gw sample_server) ''alice'') ''#'') = href"
    by auto
  have "fst (cut (keyID (sv_gw sample_server) ''alice'') ''#'') = ''https://gw.example/users/alice''" by code_simp
  with h(2,6) have "u_path url = ''/users/alice''" using parse_actor_url [OF g sample_plain(2)]
    by (auto simp: actorID_def baseURL_def sample_server_simps sample_gateway_def)
  with h(4) have "fst (run_state (routes sample_server (sample_get ''/users/alice'' [])) (start_state []))
      = (served contentTypeAP (DocActor a), None)" by (simp add: sample_get_def)
  with h(1,3) show ?thesis by (auto simp: sample_server_simps)
qed

section \<open>One note everywhere\<close>





section \<open>Media\<close>

lemma cut_comma: "CHR '','' \<notin> set a \<Longrightarrow> cut (a @ '','' @ b) '','' = (a, b, True)"
  using cut_byte_append [of "CHR '',''" a b] by simp

lemma media_type_data_url: "media_type (''data:'' @ mime @ '';base64'') = mime"
  unfolding media_type_def trim_prefix_append by (simp add: trim_suffix_def suffix_def)

lemma media_response_data_url:
  assumes "CHR '','' \<notin> set mime"
  shows "media_response (''data:'' @ mime @ '';base64,'' @ std_encode bytes)
    = \<lparr>rp_status = 200, rp_type = mime, rp_header = [], rp_body = BodyBytes bytes\<rparr>"
proof -
  have "CHR '','' \<notin> set (''data:'' @ mime @ '';base64'')" using assms by simp
  from cut_comma [OF this, of "std_encode bytes"]
  have "cut (''data:'' @ mime @ '';base64,'' @ std_encode bytes) '','' = (''data:'' @ mime @ '';base64'', std_encode bytes, True)"
    by simp
  then show ?thesis by (simp add: media_response_def media_type_data_url del: append.simps)
qed

lemma media_ref_plain: "plain_path (''/media/'' @ encodeMediaRef user key)"
proof -
  have "\<forall>c\<in>set url_alphabet. is_unreserved c" by code_simp
  then have "is_unreserved c" if "c \<in> set (encodeMediaRef user key)" for c
    using that set_b64_encode [OF url_alphabet_ok, of "[]"]
    by (auto simp: encodeMediaRef_def raw_url_encode_def)
  moreover have "\<forall>c\<in>set ''/media/''. is_unreserved c \<or> c = CHR ''/''" by code_simp
  ultimately show ?thesis by (auto simp only: plain_path_def set_append Un_iff) (simp add: prefix_def)
qed

text \<open>
  Images survive the trip through both halves of the gateway.  The link that a rendered actor or
  note carries for a user's image key parses to a path that the router sends to the media proxy; the
  proxy asks the node for exactly that user and key; and when the stored image is a data URL, the form
  in which the bridge hands images to Warpnet, the proxy answers with its media type and its bytes.
\<close>

theorem media_roundtrip:
  assumes g: "plain_gateway (sv_gw S)" "gw_has_node (sv_gw S)"
    and k: "CHR 0x1F \<notin> set user" "key \<noteq> []"
    and node: "run_state (nr_request (sv_req S) routeGetImage (GetImageEvent user key)) s = (Inr bt, s1)"
      "dc_image (sv_codec S) bt = Some img"
    and img: "run_state (getImage B raw) t = (Inr img, t')" "run_state (ap_fetchMedia (br_ap B) raw) t = (Inr (mime, bytes), t1)"
      "CHR '','' \<notin> set mime"
  shows "\<exists>url. url_parse (media_link (sv_gw S) user key) = Some url \<and> u_host url = gw_host (sv_gw S) \<and>
    (\<forall>rq. ir_path rq = u_path url \<longrightarrow> run_state (routes S rq) s =
      ((\<lparr>rp_status = 200, rp_type = (if mime = [] then ''image/jpeg'' else mime), rp_header = [], rp_body = BodyBytes bytes\<rparr>, None), s1))"
proof -
  let ?p = "''/media/'' @ encodeMediaRef user key" and ?mime = "if mime = [] then ''image/jpeg'' else mime"
  have f: "img = ''data:'' @ ?mime @ '';base64,'' @ std_encode bytes"
    using img(1,2) by (simp add: getImage_def split: if_splits)
  have c: "CHR '','' \<notin> set ?mime" using img(3) by simp
  have "img \<noteq> []" by (simp add: f)
  then have h: "run_state (handleMedia S rq) s =
      (\<lparr>rp_status = 200, rp_type = ?mime, rp_header = [], rp_body = BodyBytes bytes\<rparr>, s1)" if "ir_path rq = ?p" for rq
    using g(2) k node decode_media_ref [OF k(1), of key] media_response_data_url [OF c, of bytes] that
    unfolding handleMedia_def pathMedia_def that trim_prefix_append f by simp
  have e: "endpoint_of ?p = EpMedia" by (simp add: endpoint_of_def)
  have "url_parse (media_link (sv_gw S) user key) =
      Some \<lparr>u_scheme = ''https'', u_opaque = [], u_host = gw_host (sv_gw S), u_path = ?p, u_rawquery = []\<rparr>"
    using parse_https [OF _ media_ref_plain, of "gw_host (sv_gw S)"] g(1)
    by (simp add: media_link_def baseURL_def plain_gateway_def)
  then show ?thesis using h e by (auto simp: routes_def plain_reply_def simp del: append.simps)
qed

lemma media_roundtrip_witness:
  "fst (run_state (routes sample_server (sample_get (''/media/'' @ encodeMediaRef ''alice'' ''k'') [])) (start_state []))
    = (\<lparr>rp_status = 200, rp_type = ''image/png'', rp_header = [], rp_body = BodyBytes ''h''\<rparr>, None)"
proof -
  let ?B = "(sample_bridge [])\<lparr>br_ap := (table_transport [])\<lparr>ap_fetchMedia := (\<lambda>_. ret (Inr (''image/png'', ''h'')))\<rparr>\<rparr>"
  have g: "plain_gateway (sv_gw sample_server)" "gw_has_node (sv_gw sample_server)"
    using sample_plain(1) by (simp_all add: sample_server_simps) (simp add: sample_gateway_def)
  have n: "run_state (nr_request (sv_req sample_server) routeGetImage (GetImageEvent ''alice'' ''k'')) (start_state [])
      = (Inr [], start_state [])" "dc_image (sv_codec sample_server) [] = Some ''data:image/png;base64,aA==''"
    by (simp_all add: sample_server_def)
  have e: "std_encode ''h'' = ''aA==''" by code_simp
  have f: "run_state (getImage ?B ''u'') unit_state = (Inr ''data:image/png;base64,aA=='', unit_state)"
    "run_state (ap_fetchMedia (br_ap ?B) ''u'') unit_state = (Inr (''image/png'', ''h''), unit_state)"
    by (simp_all add: getImage_def e)
  have c: "CHR 0x1F \<notin> set ''alice''" "''k'' \<noteq> []" "CHR '','' \<notin> set ''image/png''" by simp_all
  from media_roundtrip [OF g c(1,2) n f c(3)] obtain url where
    u: "url_parse (media_link (sv_gw sample_server) ''alice'' ''k'') = Some url"
    and r: "\<forall>rq. ir_path rq = u_path url \<longrightarrow> run_state (routes sample_server rq) (start_state []) =
      ((\<lparr>rp_status = 200, rp_type = (if ''image/png'' = [] then ''image/jpeg'' else ''image/png''), rp_header = [],
         rp_body = BodyBytes ''h''\<rparr>, None), start_state [])" by blast
  have "url_parse (media_link (sv_gw sample_server) ''alice'' ''k'') =
      Some \<lparr>u_scheme = ''https'', u_opaque = [], u_host = gw_host (sv_gw sample_server),
        u_path = ''/media/'' @ encodeMediaRef ''alice'' ''k'', u_rawquery = []\<rparr>"
    using parse_https [OF _ media_ref_plain, of "gw_host (sv_gw sample_server)"] g(1)
    by (simp add: media_link_def baseURL_def plain_gateway_def)
  with u r show ?thesis by (auto simp: sample_get_def)
qed

section \<open>Logs\<close>

lemma no_lines [simp]:
  "rp_body (http_error msg st) \<noteq> BodyLines ls" "rp_body http_NotFound \<noteq> BodyLines ls"
  "rp_body (writeJSON S h ctype doc) \<noteq> BodyLines ls" "rp_body (serveEmptyCollection S i) \<noteq> BodyLines ls"
  "rp_body (media_response img) \<noteq> BodyLines ls"
  by (auto simp: http_error_def http_NotFound_def writeJSON_def serveEmptyCollection_def media_response_def
      Let_def split: prod.split option.split)

lemma no_lines_collections:
  "run_state (serveFollowers S u) s = (resp, s') \<Longrightarrow> rp_body resp \<noteq> BodyLines ls"
  "run_state (serveOutbox S u) s = (resp, s') \<Longrightarrow> rp_body resp \<noteq> BodyLines ls"
  "run_state (serveFollowing S u) s = (resp, s') \<Longrightarrow> rp_body resp \<noteq> BodyLines ls"
  "run_state (serveReplies S u i) s = (resp, s') \<Longrightarrow> rp_body resp \<noteq> BodyLines ls"
  "run_state (serveStatus S r u i) s = (resp, s') \<Longrightarrow> rp_body resp \<noteq> BodyLines ls"
  "run_state (handleWebFinger S r) s = (resp, s') \<Longrightarrow> rp_body resp \<noteq> BodyLines ls"
  "run_state (handleMedia S r) s = (resp, s') \<Longrightarrow> rp_body resp \<noteq> BodyLines ls"
  by (auto simp: serveFollowers_def serveOutbox_def serveFollowing_def serveReplies_def serveStatus_def
      handleWebFinger_def handleMedia_def Let_def split: prod.splits sum.splits option.splits if_splits)

lemma no_lines_users: "run_state (handleUsers S r) s = ((resp, j), s') \<Longrightarrow> rp_body resp \<noteq> BodyLines ls"
  by (auto simp: handleUsers_def Let_def plain_reply_def serveInbox_def status_only_def serveActor_def
      split: prod.splits option.splits user_target.splits dest: no_lines_collections)

lemma trim_prefix_cases: "trim_prefix x p = t \<Longrightarrow> x = p @ t \<or> x = t"
  using prefix_take_drop [of p x] by (auto simp: trim_prefix_def split: if_splits)

text \<open>
  Logs are served only to who knows the token.  Log lines leave the gateway only in answer to a
  request for \<open>/logs\<close>, only when a token is configured and a log ring installed, and only if the
  request presented the token, in the query or, failing that, in the \<open>Authorization\<close> header; without a
  configured token the endpoint does not exist.
\<close>

theorem logs_need_the_token:
  assumes "\<And>rq ls. rp_body (sv_static S rq) \<noteq> BodyLines ls"
  shows "(run_state (routes S r) s = ((resp, j), s') \<and> rp_body resp = BodyLines ls \<longrightarrow>
      ir_path r = ''/logs'' \<and> gw_logsToken (sv_gw S) \<noteq> [] \<and> sv_logs S = Some ls \<and> rp_status resp = 200 \<and>
      (query_get (ir_query r) ''token'' = gw_logsToken (sv_gw S) \<or>
       query_get (ir_query r) ''token'' = [] \<and>
         header_get (rq_headers r) ''Authorization'' \<in> {''Bearer '' @ gw_logsToken (sv_gw S), gw_logsToken (sv_gw S)}))
    \<and> (gw_logsToken (sv_gw S) = [] \<longrightarrow> handleLogs S r = http_NotFound)"
proof (rule conjI; rule impI)
  assume "run_state (routes S r) s = ((resp, j), s') \<and> rp_body resp = BodyLines ls"
  then have h: "endpoint_of (ir_path r) = EpLogs" "handleLogs S r = resp" "rp_body resp = BodyLines ls"
    using assms
    by (auto simp: routes_def plain_reply_def serveInbox_def status_only_def handleNodeInfoLinks_def
        handleNodeInfo_def handleInstanceActor_def handleInstanceActorSub_def
        split: endpoint.splits prod.splits if_splits dest: no_lines_users no_lines_collections)
  have b: "header_get (rq_headers r) ''Authorization'' = ''Bearer '' @ trim_prefix (header_get (rq_headers r) ''Authorization'') ''Bearer ''
      \<or> header_get (rq_headers r) ''Authorization'' = trim_prefix (header_get (rq_headers r) ''Authorization'') ''Bearer ''"
    by (rule trim_prefix_cases [OF refl])
  show "ir_path r = ''/logs'' \<and> gw_logsToken (sv_gw S) \<noteq> [] \<and> sv_logs S = Some ls \<and> rp_status resp = 200 \<and>
      (query_get (ir_query r) ''token'' = gw_logsToken (sv_gw S) \<or>
       query_get (ir_query r) ''token'' = [] \<and>
         header_get (rq_headers r) ''Authorization'' \<in> {''Bearer '' @ gw_logsToken (sv_gw S), gw_logsToken (sv_gw S)})"
    using h b by (auto simp: handleLogs_def Let_def endpoint_of_def http_error_def split: if_splits option.splits
        simp del: append.simps)
qed (simp add: handleLogs_def)

lemma logs_need_the_token_witness: "handleLogs sample_server (sample_get ''/logs'' ''token='') = http_NotFound"
proof -
  have "\<And>rq ls. rp_body (sv_static sample_server rq) \<noteq> BodyLines ls" by (simp add: sample_server_def)
  from logs_need_the_token [OF this] show ?thesis by (simp add: sample_server_simps sample_gateway_def)
qed

end
