(* ===== verification/Signed_Delivery.thy ===== *)
theory Signed_Delivery
  imports Wire Server_Facts
begin

text \<open>
  Delivery between gateways: a document that \<open>postSigned\<close> reports as delivered was sent, signed, to its
  target, and a peer that runs the same code verifies it and dispatches the decoded document.  The
  signature library is third-party code: its header format, what it covers and that verification
  accepts what was signed are the hypotheses collected in \<open>signature_scheme\<close>.
\<close>

section \<open>The Signature header\<close>

text \<open>The header the library writes, as the signature draft documents it.\<close>

definition quoted :: "string \<Rightarrow> string" where
  "quoted s = CHR 0x22 # s @ [CHR 0x22]"

definition header_names :: "string list \<Rightarrow> string" where
  "header_names hs = drop 1 (concat (map (\<lambda>h. '' '' @ h) hs))"

definition signature_header :: "string \<Rightarrow> string \<Rightarrow> string list \<Rightarrow> string \<Rightarrow> string" where
  "signature_header key_id alg hs sig =
     ''keyId='' @ quoted key_id @ '','' @ ''algorithm='' @ quoted alg @ '','' @
     ''headers='' @ quoted (header_names hs) @ '','' @ ''signature='' @ quoted sig"

definition header_value :: "string \<Rightarrow> bool" where
  "header_value s \<longleftrightarrow> s \<noteq> [] \<and> CHR '','' \<notin> set s \<and> CHR 0x22 \<notin> set s"

lemma header_value_std_encode: "s \<noteq> [] \<Longrightarrow> header_value (std_encode s)"
proof -
  have "set (std_encode s) \<subseteq> set std_alphabet \<union> set ''=''"
    using set_b64_encode [OF std_alphabet_ok, of "''=''" s] by (simp add: std_encode_def)
  moreover have "CHR '','' \<notin> set std_alphabet \<union> set ''=''" "CHR 0x22 \<notin> set std_alphabet \<union> set ''=''"
    by (simp_all add: std_alphabet_def)
  moreover have "std_encode s = [] \<Longrightarrow> s = []"
    using std_roundtrip [of s] std_roundtrip [of "[]"] by (simp add: std_encode_def)
  ultimately show "s \<noteq> [] \<Longrightarrow> header_value (std_encode s)" unfolding header_value_def by blast
qed

lemma trim_quoted: "CHR 0x22 \<notin> set s \<Longrightarrow> trim_set {CHR 0x22} (trim_space (quoted s)) = s"
proof -
  assume s: "CHR 0x22 \<notin> set s"
  have "\<not> space_lead (CHR 0x22)" "\<not> space_final (CHR 0x22)" by code_simp+
  then have "trim_space (quoted s) = quoted s"
    using space_width_end_final [of "CHR 0x22" "CHR 0x22 # s"]
    by (intro trim_space_id) (simp_all add: quoted_def space_width_lead)
  moreover have "dropWhile (\<lambda>c. c = CHR 0x22) (s @ [CHR 0x22]) = (if s = [] then [] else s @ [CHR 0x22])"
    using s by (cases s) auto
  moreover have "dropWhile (\<lambda>c. c = CHR 0x22) (rev s) = rev s"
    using s by (cases s rule: rev_cases) auto
  ultimately show ?thesis by (simp add: quoted_def trim_set_def trim_left_set_def trim_right_set_def)
qed

lemma sig_part_field:
  assumes "CHR ''='' \<notin> set name" "CHR 0x22 \<notin> set v" "trim_space name = name"
  shows "sig_part (name @ ''='' @ quoted v) (k, hs, sig) =
    (if name = ''keyId'' then (v, hs, sig)
     else if name = ''headers'' then (k, Go_Strings.fields (to_lower v), sig)
     else if name = ''signature'' then (k, hs, v) else (k, hs, sig))"
  using cut_byte_append [OF assms(1), of "quoted v"] trim_quoted [OF assms(2)] assms(3)
  by (simp add: sig_part_def)

lemma parse_signature_header:
  assumes "header_value key_id" "header_value alg" "header_value (header_names hs)" "header_value sig"
    and "Go_Strings.fields (to_lower (header_names hs)) = hs" "hs \<noteq> []"
  shows "parseSignatureHeader (signature_header key_id alg hs sig) = Some (key_id, hs, sig)"
proof -
  note v = assms(1-4) [unfolded header_value_def]
  let ?p = "\<lambda>n v. n @ ''='' @ quoted v"
  have c: "CHR '','' \<notin> set (?p ''keyId'' key_id)" "CHR '','' \<notin> set (?p ''algorithm'' alg)"
    "CHR '','' \<notin> set (?p ''headers'' (header_names hs))" "CHR '','' \<notin> set (?p ''signature'' sig)"
    using v by (simp_all add: quoted_def)
  have h: "signature_header key_id alg hs sig = ?p ''keyId'' key_id @ CHR '','' # ?p ''algorithm'' alg @ CHR '','' #
      ?p ''headers'' (header_names hs) @ CHR '','' # ?p ''signature'' sig"
    by (simp add: signature_header_def)
  have s: "split_on CHR '','' (signature_header key_id alg hs sig) =
      [?p ''keyId'' key_id, ?p ''algorithm'' alg, ?p ''headers'' (header_names hs), ?p ''signature'' sig]"
    unfolding h by (simp only: split_on_append [OF c(1)] split_on_append [OF c(2)] split_on_append [OF c(3)] split_on_absent [OF c(4)])
  have t: "trim_space ''keyId'' = ''keyId''" "trim_space ''algorithm'' = ''algorithm''"
    "trim_space ''headers'' = ''headers''" "trim_space ''signature'' = ''signature''"
    by code_simp+
  have f: "fold sig_part [?p ''keyId'' key_id, ?p ''algorithm'' alg, ?p ''headers'' (header_names hs), ?p ''signature'' sig]
      ([], [], []) = (key_id, hs, sig)"
    using sig_part_field [of "''keyId''" key_id] sig_part_field [of "''algorithm''" alg]
      sig_part_field [of "''headers''" "header_names hs"] sig_part_field [of "''signature''" sig] t v assms(5)
    by simp
  show ?thesis unfolding parseSignatureHeader_def s f using v assms(6) by simp
qed

text \<open>The names the gateway signs survive the header.\<close>

lemma signed_names:
  "Go_Strings.fields (to_lower (header_names (signed_header_names body))) = signed_header_names body"
  "header_value (header_names (signed_header_names body))" "signed_header_names body \<noteq> []"
  "set minSignedHeaders \<subseteq> set (signed_header_names body)"
  "''digest'' \<in> set (signed_header_names body) \<longleftrightarrow> body \<noteq> None"
proof -
  have "Go_Strings.fields (to_lower (header_names (signed_header_names None))) = signed_header_names None"
    "Go_Strings.fields (to_lower (header_names (signed_header_names (Some [])))) = signed_header_names (Some [])"
    by code_simp+
  moreover have b: "body \<noteq> None \<Longrightarrow> signed_header_names body = signed_header_names (Some [])"
    by (cases body) (simp_all add: signed_header_names_def)
  ultimately show "Go_Strings.fields (to_lower (header_names (signed_header_names body))) = signed_header_names body"
    by (cases body) auto
  have "header_value (header_names (signed_header_names None))" "header_value (header_names (signed_header_names (Some [])))"
    by code_simp+
  with b show "header_value (header_names (signed_header_names body))" by (cases body) auto
qed (auto simp: signed_header_names_def minSignedHeaders_def split: option.split)

section \<open>What delivery puts on the wire\<close>

lemma client_do_sends:
  assumes "run_state (client_do E via rq) s = (Some resp, s')"
  shows "\<exists>addr. EvSend via addr rq \<in> set (st_trace s')"
proof -
  let ?addr = "fst (env_dial E (rq_url rq) (st_world s))"
  let ?s1 = "s\<lparr>st_world := snd (env_dial E (rq_url rq) (st_world s)), st_trace := st_trace s @ [EvSend via ?addr rq]\<rparr>"
  define rest where "rest = do {
      r \<leftarrow> world (env_roundtrip E rq);
      (case r of
         None \<Rightarrow> ret None
       | Some resp \<Rightarrow>
           (case redirect_target E rq resp of
              None \<Rightarrow> ret (Some resp)
            | Some None \<Rightarrow> ret None
            | Some (Some loc) \<Rightarrow>
                if checkRedirect (Suc via) loc \<noteq> None then ret None
                else client_do E (Suc via) (redirect_request rq resp loc))) }"
  have all: "emits (\<lambda>_. True) (client_do E v q)" for v q
  proof (induction E v q rule: client_do.induct)
    case (1 E v q)
    show ?case by (subst client_do.simps, intro keeps_intros) (use 1 in auto)
  qed
  have "emits (\<lambda>_. True) rest" unfolding rest_def by (auto intro!: keeps_intros all)
  moreover have "run_state rest ?s1 = (Some resp, s')"
    using assms by (subst (asm) client_do.simps) (auto simp: rest_def split: if_splits)
  ultimately have "extends (\<lambda>_. True) ?s1 s'" by (rule emitsD)
  then show ?thesis by (auto simp: extends_def)
qed

text \<open>A successful attempt sent a request that its builder produced.\<close>

lemma attempt_sent:
  assumes "run_state (attempt E limit m v) s = ((None, v'), s')"
  obtains rq s1 s2 addr where "run_state m s1 = (Inr rq, s2)" "EvSend 0 addr (with_user_agent rq) \<in> set (st_trace s')"
proof -
  obtain rr t where m: "run_state m s = (rr, t)" by fastforce
  with assms obtain rq where rr: "rr = Inr rq" by (cases rr) (auto simp: attempt_def)
  obtain resp u where d: "run_state (client_do E 0 (with_user_agent rq)) t = (resp, u)" by fastforce
  with assms m rr obtain r where r: "resp = Some r" "s' = u"
    by (cases resp) (auto simp: attempt_def Let_def split: if_splits)
  with client_do_sends [of E 0 "with_user_agent rq" t r u] d obtain addr
    where "EvSend 0 addr (with_user_agent rq) \<in> set (st_trace s')" by auto
  with that m rr show ?thesis by blast
qed

lemma sendRetry_sent:
  assumes "retrier_ok E" "run_state (sendRetry E limit m) s = ((None, v'), s')"
  obtains rq s1 s2 addr where "run_state m s1 = (Inr rq, s2)" "EvSend 0 addr (with_user_agent rq) \<in> set (st_trace s')"
proof (cases "env_try E")
  case None
  then have "run_state (attempt E limit m no_vars) s = ((None, v'), s')" using assms(2) by (simp add: sendRetry_def)
  then show ?thesis by (rule attempt_sent) (rule that)
next
  case (Some retry)
  then have "tries (attempt E limit m) no_vars s None v' s'"
    using assms by (auto simp: sendRetry_def retrier_ok_def)
  from tries_success [OF this] obtain v1 t1 where "run_state (attempt E limit m v1) t1 = ((None, v'), s')" by blast
  then show ?thesis by (rule attempt_sent) (rule that)
qed

text \<open>The request \<open>postSigned\<close> signs, at time \<open>now\<close>.\<close>

definition unsigned_post :: "('w, 'k) gw_env \<Rightarrow> string \<Rightarrow> string \<Rightarrow> gotime \<Rightarrow> http_request" where
  "unsigned_post E target bt now =
     with_header ''Host'' (url_host_of target) (with_header ''Date'' (env_http_time E now)
       (with_header ''Content-Type'' contentTypeAP
         \<lparr>rq_method = ''POST'', rq_url = target, rq_headers = [], rq_body = Some bt\<rparr>))"

lemma post_request_signed:
  assumes "run_state (post_request E user target bt) s = (Inr rq, s')"
  obtains w where "env_sign E (signed_header_names (Some bt)) (keyID (env_gw E) user)
      (unsigned_post E target bt (fst (env_now E w))) (Some bt) = Some rq" "url_parse target \<noteq> None"
proof -
  have "header_get (rq_headers (with_header ''Content-Type'' contentTypeAP
      \<lparr>rq_method = ''POST'', rq_url = target, rq_headers = [], rq_body = Some bt\<rparr>)) ''Date'' = []"
    by (simp add: with_header_def header_set_def header_get_def)
  with assms that [of "st_world s"] show ?thesis
    by (auto simp: post_request_def new_request_def signRequest_def unsigned_post_def with_header_def
        split: if_splits option.splits)
qed

text \<open>
  What \<open>postSigned\<close> guarantees when it reports success: the document, encoded, was sent in a signed
  POST to the target.
\<close>

lemma postSigned_sent:
  assumes "retrier_ok E" "run_state (postSigned E user target doc) s = (None, s')"
  obtains bt w rq addr where "env_marshal E doc = Some bt" "url_parse target \<noteq> None"
    "env_sign E (signed_header_names (Some bt)) (keyID (env_gw E) user)
       (unsigned_post E target bt (fst (env_now E w))) (Some bt) = Some rq"
    "EvSend 0 addr (with_user_agent rq) \<in> set (st_trace s')"
proof -
  obtain bt v where bt: "env_marshal E doc = Some bt"
    and sr: "run_state (sendRetry E maxBodyBytes (post_request E user target bt)) s = ((None, v), s')"
    using assms(2) by (auto simp: postSigned_def split: option.splits prod.splits if_splits)
  obtain rq s1 s2 addr where p: "run_state (post_request E user target bt) s1 = (Inr rq, s2)"
    and e: "EvSend 0 addr (with_user_agent rq) \<in> set (st_trace s')"
    using sendRetry_sent [OF assms(1) sr] .
  from p bt e show ?thesis by (elim post_request_signed) (rule that)
qed

section \<open>The peer\<close>

text \<open>
  A request as the peer's server presents it: the same method, body and headers, except for the
  \<open>Host\<close> header, which \<open>net/http\<close> keeps elsewhere, and the path and query of its URL.
\<close>

definition arrives :: "http_request \<Rightarrow> in_request \<Rightarrow> bool" where
  "arrives rq r \<longleftrightarrow> rq_method r = rq_method rq \<and> rq_body r = rq_body rq \<and>
     (\<forall>h. h \<noteq> ''Host'' \<longrightarrow> header_get (rq_headers r) h = header_get (rq_headers rq) h) \<and>
     (\<exists>u. url_parse (rq_url rq) = Some u \<and> ir_path r = u_path u \<and> ir_query r = u_rawquery u)"

text \<open>
  The hypotheses on third-party code.  \<open>signature_scheme\<close>: the signer writes the documented header and
  the digest of the body and changes nothing else, and the verifier accepts with the public key what
  was signed with the private one, whatever other headers were added.  \<open>http_dates\<close>: an HTTP date
  denotes its time, cut to the second.  \<open>json_wire\<close>: the peer decodes what was encoded.
\<close>

definition signature_scheme :: "('w, 'k) gw_env \<Rightarrow> ('v, 'j) gw_env \<Rightarrow> 'j \<Rightarrow> bool" where
  "signature_scheme A B pub \<longleftrightarrow> (\<forall>key_id rq body rq'. header_value key_id \<and> env_sign A (signed_header_names body) key_id rq body = Some rq' \<longrightarrow>
     (\<exists>alg sig. header_value alg \<and> sig \<noteq> [] \<and>
        header_get (rq_headers rq') ''Signature'' = signature_header key_id alg (signed_header_names body) (std_encode sig)) \<and>
     (\<forall>h. h \<notin> {''Signature'', ''Digest''} \<longrightarrow> header_get (rq_headers rq') h = header_get (rq_headers rq) h) \<and>
     (\<forall>bt. body = Some bt \<longrightarrow> header_get (rq_headers rq') ''Digest'' = digest_of B bt) \<and>
     rq_method rq' = rq_method rq \<and> rq_url rq' = rq_url rq \<and> rq_body rq' = rq_body rq \<and>
     (\<forall>r. arrives (with_user_agent rq') r \<longrightarrow>
        (\<exists>verify. env_verifier B (as_http r) = Some (key_id, verify) \<and> verify pub)))"

definition http_dates :: "('w, 'k) gw_env \<Rightarrow> ('v, 'j) gw_env \<Rightarrow> bool" where
  "http_dates A B \<longleftrightarrow> (\<forall>w. let now = fst (env_now A w) in env_http_time A now \<noteq> [] \<and>
     (\<exists>sent. env_parse_http_time B (env_http_time A now) = Some sent \<and> sent \<le> now \<and> now < sent + 1000000000))"

definition json_wire :: "('w, 'k) gw_env \<Rightarrow> ('v, 'j) gw_env \<Rightarrow> bool" where
  "json_wire A B \<longleftrightarrow> (\<forall>doc bt. env_marshal A doc = Some bt \<longrightarrow> env_unmarshal B bt = Some (activity_json doc))"

text \<open>The peer dereferences the actor of a user of \<open>A\<close> and finds the document \<open>A\<close> renders, with its key.\<close>

definition reads_actor :: "('v, 'j) gw_env \<Rightarrow> gateway \<Rightarrow> string \<Rightarrow> 'j \<Rightarrow> bool" where
  "reads_actor B g user pub \<longleftrightarrow> gw_keyPubPEM g \<noteq> [] \<and> env_parse_pem B (gw_keyPubPEM g) = Some pub \<and>
     (\<exists>wu. wu_PreferredUsername wu = user \<and>
       (\<forall>s. \<exists>s'. run_state (fetchActor B (actorID g user)) s = (Inr (fields_of (actor_json (buildActor g wu))), s')))"

lemma key_id_value: "plain_gateway g \<Longrightarrow> plain_name u \<Longrightarrow> header_value (keyID g u)"
  by (auto simp: header_value_def keyID_def actorID_def baseURL_def plain_gateway_def plain_host_def plain_name_def
      is_unreserved_def is_alnum_def is_digit_def)

lemma key_id_actor: "plain_gateway g \<Longrightarrow> plain_name u \<Longrightarrow> fst (cut (keyID g u) ''#'') = actorID g u"
proof -
  assume "plain_gateway g" "plain_name u"
  then have "CHR 0x23 \<notin> set (actorID g u)"
    using plain_gateway_bytes plain_name_no_delims by (simp add: actorID_def baseURL_def)
  from cut_byte_append [OF this, of "''main-key''"] show ?thesis by (simp add: keyID_def)
qed

lemma key_of_built_actor: "reads_actor B g u pub \<Longrightarrow> wu_PreferredUsername wu = u \<Longrightarrow>
    key_of_actor B (fields_of (actor_json (buildActor g wu))) = Inr pub"
  by (simp add: reads_actor_def key_of_actor_def publicKey_of_def public_key_json_def buildActor_def Let_def)

lemma fetchKey_peer:
  assumes "reads_actor B g u pub" "plain_gateway g" "plain_name u"
  shows "\<exists>s'. run_state (fetchKey B (keyID g u)) s = (Inr pub, s')"
proof -
  obtain wu s' where "wu_PreferredUsername wu = u"
    "run_state (fetchActor B (actorID g u)) s = (Inr (fields_of (actor_json (buildActor g wu))), s')"
    using assms(1) unfolding reads_actor_def by blast
  with key_id_actor [OF assms(2,3)] key_of_built_actor [OF assms(1)] show ?thesis by (simp add: fetchKey_def)
qed

text \<open>Every \<open>Signature\<close> header of the scheme passes the gateway's own policy, in time.\<close>

lemma policy_accepts:
  assumes "header_get (rq_headers rq) ''Signature'' = signature_header key_id alg (signed_header_names (Some bt)) sig"
    and "header_value key_id" "header_value alg" "header_value sig"
    and "header_get (rq_headers rq) ''Date'' \<noteq> []" "env_parse_http_time B (header_get (rq_headers rq) ''Date'') = Some sent"
    and "\<bar>now - sent\<bar> \<le> maxClockSkew" "header_get (rq_headers rq) ''Digest'' = digest_of B bt"
  shows "signature_policy B now rq bt = None"
proof -
  let ?hs = "signed_header_names (Some bt)"
  have p: "parseSignatureHeader (signature_header key_id alg ?hs sig) = Some (key_id, ?hs, sig)"
    using parse_signature_header [of key_id alg ?hs sig] signed_names [of "Some bt"] assms(2-4) by simp
  have ne: "signature_header key_id alg ?hs sig \<noteq> []" by (simp add: signature_header_def)
  have d: "''digest'' \<in> set ?hs" and m: "\<forall>h\<in>set minSignedHeaders. h \<in> set ?hs"
    using signed_names(4,5) [of "Some bt"] by auto
  have k: "\<not> (now - sent > maxClockSkew \<or> now - sent < - maxClockSkew)" using assms(7) by linarith
  show ?thesis
    unfolding signature_policy_def Let_def assms(1) p option.case prod.case
    using ne m k d assms(5,6,8) by simp
qed

section \<open>Delivery is accepted\<close>

text \<open>What \<open>handleInbox\<close> does with a verified activity.\<close>

definition inbox_dispatch ::
  "('w, 'k) gw_env \<Rightarrow> 'w source \<Rightarrow> bool \<Rightarrow> string \<Rightarrow> gomap \<Rightarrow> ('w, nat \<times> job option) gw" where
  "inbox_dispatch E src full user raw =
     (if str_or_empty (jget raw ''type'') = typeFollow then handleFollow E src full user (stringField raw ''actor'') raw
      else if str_or_empty (jget raw ''type'') = typeDelete then ret (202, None)
      else handleInboundActivity E full raw)"

lemma handleInbox_verified:
  assumes "rq_method r = ''POST''" "rq_body r = Some bt" "length bt \<le> maxBodyBytes"
    and "run_state (verifyRequest E (as_http r) bt (fetchKey E)) s = (Inr key_id, s1)"
    and "env_unmarshal E bt = Some j" "fields_of j \<noteq> None"
    and "stringField (fields_of j) ''actor'' = fst (cut key_id ''#'')"
  shows "run_state (handleInbox E src full user r) s = run_state (inbox_dispatch E src full user (fields_of j)) s1"
  using assms as_document_obj [OF assms(6)]
  by (simp add: handleInbox_def inbox_dispatch_def Let_def)

text \<open>
  A request that \<open>A\<close> signed at \<open>now\<close> for one of its users: any peer that presents it within the clock
  skew verifies it as that user's.
\<close>

lemma signed_post_verified:
  assumes g: "plain_gateway (env_gw A)" "plain_name u" and lib: "signature_scheme A B pub" "http_dates A B"
    and key: "reads_actor B (env_gw A) u pub"
    and sign: "env_sign A (signed_header_names (Some bt)) (keyID (env_gw A) u)
      (unsigned_post A target bt (fst (env_now A w))) (Some bt) = Some rq"
    and r: "arrives (with_user_agent rq) r"
    and skew: "\<bar>fst (env_now B (st_world s)) - fst (env_now A w)\<bar> + 1000000000 \<le> maxClockSkew"
  shows "\<exists>s'. run_state (verifyRequest B (as_http r) bt (fetchKey B)) s = (Inr (keyID (env_gw A) u), s')"
proof -
  let ?now = "fst (env_now A w)" and ?nb = "fst (env_now B (st_world s))"
  let ?h = "header_get (rq_headers (as_http r))"
  have hdr: "?h n = header_get (rq_headers rq) n" if "n \<notin> {''Host'', ''User-Agent''}" for n
    using r that by (auto simp: arrives_def as_http_def http_request.defs with_user_agent_def with_header_def)
  note law = lib(1) [unfolded signature_scheme_def, rule_format, OF conjI [OF key_id_value [OF g] sign]]
  obtain alg sig where sg: "header_value alg" "sig \<noteq> []"
    "?h ''Signature'' = signature_header (keyID (env_gw A) u) alg (signed_header_names (Some bt)) (std_encode sig)"
    using law hdr [of "''Signature''"] by auto
  have date: "?h ''Date'' = env_http_time A ?now"
    using law hdr [of "''Date''"] by (simp add: unsigned_post_def with_header_def)
  have dig: "?h ''Digest'' = digest_of B bt"
    using law hdr [of "''Digest''"] by simp
  obtain sent where t: "env_http_time A ?now \<noteq> []" "env_parse_http_time B (env_http_time A ?now) = Some sent"
    "sent \<le> ?now" "?now < sent + 1000000000"
    using lib(2) unfolding http_dates_def Let_def by blast
  have k: "\<bar>?nb - sent\<bar> \<le> maxClockSkew" using skew t(3,4) by linarith
  have pol: "signature_policy B ?nb (as_http r) bt = None"
    by (rule policy_accepts [OF sg(3) key_id_value [OF g] sg(1) header_value_std_encode [OF sg(2)]])
      (use date t k dig in auto)
  obtain verify where v: "env_verifier B (as_http r) = Some (keyID (env_gw A) u, verify)" "verify pub"
    using law r by blast
  obtain s' where "run_state (fetchKey B (keyID (env_gw A) u)) (s\<lparr>st_world := snd (env_now B (st_world s))\<rparr>) = (Inr pub, s')"
    using fetchKey_peer [OF key g] by blast
  with pol v show ?thesis by (simp add: verifyRequest_def)
qed

text \<open>
  Two gateways that federate, on behalf of the user \<open>u\<close> of the first: both keep the contracts above, and
  the second can dereference \<open>u\<close>.
\<close>

definition federates :: "('w, 'k) gw_env \<Rightarrow> ('v, 'j) gw_env \<Rightarrow> string \<Rightarrow> 'j \<Rightarrow> bool" where
  "federates A B u pub \<longleftrightarrow> plain_gateway (env_gw A) \<and> plain_name u \<and> retrier_ok A \<and> signature_scheme A B pub \<and>
     http_dates A B \<and> json_wire A B \<and> reads_actor B (env_gw A) u pub"

text \<open>A request of time \<open>now\<close> is presented to \<open>B\<close> in state \<open>t\<close>, in full and within the clock skew.\<close>

definition presented :: "('v, 'j) gw_env \<Rightarrow> gotime \<Rightarrow> http_request \<Rightarrow> in_request \<Rightarrow> 'v gw_state \<Rightarrow> bool" where
  "presented B now rq r t \<longleftrightarrow> arrives rq r \<and> length (the (rq_body r)) \<le> maxBodyBytes \<and>
     \<bar>fst (env_now B (st_world t)) - now\<bar> + 1000000000 \<le> maxClockSkew"

text \<open>
  \<open>reaches A B s target full P\<close>: among the requests sent up to state \<open>s\<close> is one to \<open>target\<close> that the inbox
  of \<open>B\<close> answers as \<open>P\<close> says, whenever it is presented.
\<close>

definition reaches ::
  "('w, 'k) gw_env \<Rightarrow> ('v, 'j) gw_env \<Rightarrow> 'w gw_state \<Rightarrow> string \<Rightarrow> 'v source \<Rightarrow> bool \<Rightarrow> (nat \<times> job option \<Rightarrow> bool) \<Rightarrow> bool" where
  "reaches A B s target src full P \<longleftrightarrow> (\<exists>w addr rq. EvSend 0 addr rq \<in> set (st_trace s) \<and> rq_url rq = target \<and>
     (\<forall>r t user. presented B (fst (env_now A w)) rq r t \<longrightarrow> P (fst (run_state (handleInbox B src full user r) t))))"

lemma delivered_dispatch:
  assumes f: "federates A B u pub"
    and run: "run_state (postSigned A u target doc) s = (None, s')" "act_Actor doc = actorID (env_gw A) u"
  shows "\<exists>w addr rq. EvSend 0 addr rq \<in> set (st_trace s') \<and> rq_url rq = target \<and>
    (\<forall>r t src full user. presented B (fst (env_now A w)) rq r t \<longrightarrow>
       (\<exists>t'. run_state (handleInbox B src full user r) t =
          run_state (inbox_dispatch B src full user (fields_of (activity_json doc))) t'))"
proof -
  have g: "plain_gateway (env_gw A)" "plain_name u" and key: "reads_actor B (env_gw A) u pub"
    and lib: "retrier_ok A" "signature_scheme A B pub" "http_dates A B" "json_wire A B"
    using f by (simp_all add: federates_def)
  obtain bt w rq addr where bt: "env_marshal A doc = Some bt"
    and sign: "env_sign A (signed_header_names (Some bt)) (keyID (env_gw A) u)
       (unsigned_post A target bt (fst (env_now A w))) (Some bt) = Some rq"
    and sent: "EvSend 0 addr (with_user_agent rq) \<in> set (st_trace s')"
    by (rule postSigned_sent [OF lib(1) run(1)])
  have same: "rq_method rq = ''POST''" "rq_url rq = target" "rq_body rq = Some bt"
    using lib(2) [unfolded signature_scheme_def, rule_format, OF conjI [OF key_id_value [OF g] sign]]
    by (simp_all add: unsigned_post_def with_header_def)
  have accepted: "\<exists>t'. run_state (handleInbox B src full user r) t =
      run_state (inbox_dispatch B src full user (fields_of (activity_json doc))) t'"
    if p: "presented B (fst (env_now A w)) (with_user_agent rq) r t" for r t src full user
  proof -
    have m: "rq_method r = ''POST''" "rq_body r = Some bt"
      using p same by (simp_all add: presented_def arrives_def with_user_agent_def with_header_def)
    obtain t' where v: "run_state (verifyRequest B (as_http r) bt (fetchKey B)) t = (Inr (keyID (env_gw A) u), t')"
      using signed_post_verified [OF g lib(2,3) key sign] p unfolding presented_def by blast
    have j: "env_unmarshal B bt = Some (activity_json doc)" using lib(4) bt unfolding json_wire_def by blast
    have a: "stringField (fields_of (activity_json doc)) ''actor'' = fst (cut (keyID (env_gw A) u) ''#'')"
      using key_id_actor [OF g] run(2) by (simp add: stringField_eq)
    from handleInbox_verified [OF m _ v j _ a] p m show ?thesis by (auto simp: presented_def)
  qed
  show ?thesis
  proof (rule exI [of _ w], rule exI [of _ addr], rule exI [of _ "with_user_agent rq"], intro conjI allI impI)
    show "EvSend 0 addr (with_user_agent rq) \<in> set (st_trace s')" by (rule sent)
    show "rq_url (with_user_agent rq) = target" using same(2) by simp
  qed (rule accepted)
qed

lemma delivered_reaches:
  assumes "federates A B u pub" "run_state (postSigned A u target doc) s = (None, s')"
    and "act_Actor doc = actorID (env_gw A) u"
    and "\<And>t user. P (fst (run_state (inbox_dispatch B src full user (fields_of (activity_json doc))) t))"
  shows "reaches A B s' target src full P"
  using delivered_dispatch [OF assms(1-3)] assms(4) unfolding reaches_def by metis

text \<open>
  C3: a delivery that this gateway reports as successful is one its peers accept.  The document was sent
  to the target in a POST signed as the local user, and any gateway that runs this code, can read the
  user's actor document and is presented that request within the clock skew verifies it, finds that
  the signer is the activity's actor and dispatches exactly the activity that was sent.
\<close>

theorem delivery_is_accepted:
  assumes "federates A B u pub"
    and "run_state (postSigned A u target doc) s = (None, s')" "act_Actor doc = actorID (env_gw A) u"
  shows "\<exists>w addr rq. EvSend 0 addr rq \<in> set (st_trace s') \<and> rq_url rq = target \<and>
    (\<forall>r t src full user. presented B (fst (env_now A w)) rq r t \<longrightarrow>
       (\<exists>t'. run_state (handleInbox B src full user r) t =
          run_state (inbox_dispatch B src full user (fields_of (activity_json doc))) t'))"
  by (rule delivered_dispatch [OF assms])

section \<open>Two concrete gateways\<close>

text \<open>
  Two gateways over the sample environments, whose caches answer every read with the key they are asked
  for, so that decoding is a table from URLs to documents.  \<open>sample_a\<close> can encode one document.
\<close>

definition peer_gateway :: gateway where
  "peer_gateway = sample_gateway\<lparr>gw_host := ''m.example''\<rparr>"

definition doc_key :: "string \<Rightarrow> string" where
  "doc_key url = contentTypeAP @ '' '' @ url"

definition sample_sign :: "string list \<Rightarrow> string \<Rightarrow> http_request \<Rightarrow> string option \<Rightarrow> http_request option" where
  "sample_sign hs key_id rq body =
     Some (with_header ''Signature'' (signature_header key_id ''rsa-sha256'' hs (std_encode ''s''))
       (case body of None \<Rightarrow> rq | Some bt \<Rightarrow> with_header ''Digest'' (''SHA-256='' @ std_encode ''h'') rq))"

definition sample_verifier :: "http_request \<Rightarrow> (string \<times> (string \<Rightarrow> bool)) option" where
  "sample_verifier rq = map_option (\<lambda>(key_id, _). (key_id, \<lambda>k. k = ''PEM''))
     (parseSignatureHeader (header_get (rq_headers rq) ''Signature''))"

definition cached :: "('w, 'k) gw_env \<Rightarrow> ('w, 'k) gw_env" where
  "cached E = E\<lparr>env_get_cache := (\<lambda>k w. (Some (200, k), w))\<rparr>"

definition sample_a :: "(string \<times> json) list \<Rightarrow> activity \<Rightarrow> (http_response list, string) gw_env" where
  "sample_a docs doc = (cached (sample_env docs))\<lparr>env_sign := sample_sign,
     env_marshal := (\<lambda>d. if d = doc then Some ''doc'' else None)\<rparr>"

definition sample_b :: "activity \<Rightarrow> (http_response list, string) gw_env" where
  "sample_b doc = (cached (sample_env [(''doc'', activity_json doc),
      (doc_key (actorID sample_gateway ''alice''), actor_json (buildActor sample_gateway sample_user))]))
     \<lparr>env_gw := peer_gateway, env_verifier := sample_verifier\<rparr>"

lemma sample_signed_fields:
  assumes "sample_sign hs key_id rq body = Some rq'"
  shows "header_get (rq_headers rq') ''Signature'' = signature_header key_id ''rsa-sha256'' hs (std_encode ''s'')"
    "h \<notin> {''Signature'', ''Digest''} \<Longrightarrow> header_get (rq_headers rq') h = header_get (rq_headers rq) h"
    "body = Some bt \<Longrightarrow> header_get (rq_headers rq') ''Digest'' = ''SHA-256='' @ std_encode ''h''"
    "rq_method rq' = rq_method rq" "rq_url rq' = rq_url rq" "rq_body rq' = rq_body rq"
  using assms by (auto simp: sample_sign_def with_header_def split: option.splits)

lemma sample_scheme: "signature_scheme (sample_a docs doc) (sample_b doc') ''PEM''"
proof -
  have v: "header_value ''rsa-sha256''" by code_simp
  have s: "header_value (std_encode ''s'')" by (rule header_value_std_encode) simp
  have ver: "\<exists>verify. sample_verifier (as_http r) = Some (key_id, verify) \<and> verify ''PEM''"
    if "header_value key_id" "sample_sign (signed_header_names body) key_id rq body = Some rq'"
      "arrives (with_user_agent rq') r" for key_id body rq rq' r
  proof -
    have "header_get (rq_headers (as_http r)) ''Signature'' =
        signature_header key_id ''rsa-sha256'' (signed_header_names body) (std_encode ''s'')"
      using that(2,3) by (auto simp: sample_sign_def arrives_def as_http_def http_request.defs with_user_agent_def with_header_def)
    with parse_signature_header [OF that(1) v _ s] signed_names [of body] show ?thesis
      by (simp add: sample_verifier_def)
  qed
  have dig: "digest_of (sample_b doc') bt = ''SHA-256='' @ std_encode ''h''" for bt
    by (simp add: digest_of_def sample_b_def cached_def sample_env_def)
  have e: "env_sign (sample_a docs doc) = sample_sign" "env_verifier (sample_b doc') = sample_verifier"
    by (simp_all add: sample_a_def sample_b_def)
  show ?thesis
    unfolding signature_scheme_def e
  proof (intro allI impI, elim conjE)
    fix key_id :: string and rq rq' body
    assume k: "header_value key_id" and sg: "sample_sign (signed_header_names body) key_id rq body = Some rq'"
    note f = sample_signed_fields [OF sg]
    have ex: "\<exists>alg sig. header_value alg \<and> sig \<noteq> [] \<and> header_get (rq_headers rq') ''Signature'' =
        signature_header key_id alg (signed_header_names body) (std_encode sig)"
      using v f(1) by (intro exI [of _ "''rsa-sha256''"] exI [of _ "''s''"]) simp
    show "(\<exists>alg sig. header_value alg \<and> sig \<noteq> [] \<and> header_get (rq_headers rq') ''Signature'' =
        signature_header key_id alg (signed_header_names body) (std_encode sig)) \<and>
      (\<forall>h. h \<notin> {''Signature'', ''Digest''} \<longrightarrow> header_get (rq_headers rq') h = header_get (rq_headers rq) h) \<and>
      (\<forall>bt. body = Some bt \<longrightarrow> header_get (rq_headers rq') ''Digest'' = digest_of (sample_b doc') bt) \<and>
      rq_method rq' = rq_method rq \<and> rq_url rq' = rq_url rq \<and> rq_body rq' = rq_body rq \<and>
      (\<forall>r. arrives (with_user_agent rq') r \<longrightarrow> (\<exists>verify. sample_verifier (as_http r) = Some (key_id, verify) \<and> verify ''PEM''))"
      by (intro conjI allI impI; (rule ex | (rule ver [OF k sg], assumption) | simp add: f dig))
  qed
qed

lemma sample_dates: "http_dates (sample_a docs doc) (sample_b doc')"
  by (simp add: http_dates_def sample_a_def sample_b_def cached_def sample_env_def)

lemma sample_wire: "json_wire (sample_a docs doc) (sample_b doc)"
  by (simp add: json_wire_def sample_a_def sample_b_def cached_def sample_env_def)

lemma sample_a_ok: "env_ok (sample_a docs doc)" "retrier_ok (sample_a docs doc)"
  by (auto simp: env_ok_def retrier_ok_def signer_ok_def sample_a_def cached_def sample_env_def sample_sign_def
      with_header_def split: option.splits)

lemma peer_checks:
  "checkRemoteURL peer_gateway ''https://gw.example/users/alice'' = None"
  "checkRemoteURL sample_gateway ''https://m.example/inbox'' = None" "url_parse ''https://m.example/inbox'' \<noteq> None"
  "actorID sample_gateway ''alice'' = ''https://gw.example/users/alice''" "gw_keyPubPEM sample_gateway = ''PEM''"
  "doc_key ''https://gw.example/users/alice'' = ''application/activity+json https://gw.example/users/alice''"
  by code_simp+

lemma sample_reads: "reads_actor (sample_b doc) sample_gateway ''alice'' ''PEM''"
  using peer_checks
  by (auto simp: reads_actor_def sample_user_def fetchActor_def guardedGet_def signedGet_def sample_b_def cached_def
      sample_env_def Let_def as_document_obj doc_key_def contentTypeAP_def intro!: exI [of _ sample_user])

lemma sample_posts:
  assumes "target = ''https://m.example/inbox''"
  shows "\<exists>s'. run_state (postSigned (sample_a docs doc) ''alice'' target doc)
      \<lparr>st_world = [ok_response []], st_trace = tr, st_good = gs\<rparr> = (None, s') \<and> st_good s' = gs"
proof -
  have c: "checkRemoteURL sample_gateway target = None" "url_parse target \<noteq> None" "dialControl ''203.0.113.7'' = None"
    using peer_checks sample_url_ok assms by auto
  then show ?thesis
    by (auto simp: postSigned_def sample_a_def cached_def sample_env_def sendRetry_def attempt_def post_request_def new_request_def
        signRequest_def client_do.simps ok_response_def with_user_agent_def with_header_def
        redirect_target_def header_get_def Let_def maxBodyBytes_def no_vars_def sample_sign_def split: option.split)
qed

lemma sample_plains: "plain_gateway (env_gw (sample_a docs doc))" "env_gw (sample_a docs doc) = sample_gateway"
  "env_gw (sample_b doc) = peer_gateway" "plain_gateway peer_gateway"
proof -
  show "plain_gateway peer_gateway" by code_simp
qed (simp_all add: sample_a_def sample_b_def cached_def sample_env_def sample_plain)

lemma sample_federates: "federates (sample_a docs doc) (sample_b doc) ''alice'' ''PEM''"
  using sample_plains sample_plain(2) sample_a_ok(2) sample_scheme sample_dates sample_wire sample_reads
  by (simp add: federates_def)

lemma delivery_is_accepted_witness:
  "\<exists>s' addr rq. run_state (postSigned (sample_a [] (follow_activity sample_gateway ''tok'' ''alice'' ''https://m.example/users/bob''))
      ''alice'' ''https://m.example/inbox'' (follow_activity sample_gateway ''tok'' ''alice'' ''https://m.example/users/bob''))
      (start_state [ok_response []]) = (None, s') \<and> EvSend 0 addr rq \<in> set (st_trace s') \<and> rq_url rq = ''https://m.example/inbox''"
proof -
  let ?doc = "follow_activity sample_gateway ''tok'' ''alice'' ''https://m.example/users/bob''"
  obtain s' where "run_state (postSigned (sample_a [] ?doc) ''alice'' ''https://m.example/inbox'' ?doc)
      (start_state [ok_response []]) = (None, s')"
    using sample_posts [OF refl, of "[]" ?doc "[]" "[]"] by (auto simp: start_state_def)
  moreover have "act_Actor ?doc = actorID (env_gw (sample_a [] ?doc)) ''alice''"
    by (simp add: sample_plains(2) follow_activity_def)
  ultimately show ?thesis using delivery_is_accepted [OF sample_federates] by blast
qed

end
