(* ===== verification/Interop.thy ===== *)
theory Interop
  imports Signed_Delivery
begin

text \<open>
  Two gateways across the Fediverse: what the users of one do with the posts of the other.  A like, a
  boost, their undoing, a reply and a follow that this gateway delivers become, at the peer, the event of
  the right user about the right tweet; and a peer's note and actor read back as the post and the user
  they were rendered from.
\<close>

section \<open>The events at the peer\<close>

lemma dispatch_activity:
  assumes "act_Type doc \<noteq> typeFollow" "act_Type doc \<noteq> typeDelete" "gw_has_node (env_gw B)"
    and "\<And>now tok. translateInbound (env_lib B) (env_gw B) now tok (fields_of (activity_json doc)) = Some (e now tok)"
  shows "\<exists>now tok. fst (run_state (inbox_dispatch B src False user (fields_of (activity_json doc))) t) =
    (202, Some (ForwardJob (fst (e now tok)) (snd (e now tok))))"
  using assms by (auto simp: inbox_dispatch_def handleInboundActivity_def case_prod_beta simp del: type_defs)

text \<open>The Warpnet id of a gateway's user at another gateway.\<close>

lemma bridged_user:
  "plain_gateway g \<Longrightarrow> plain_name u \<Longrightarrow> bridgedUserID (actorID g u) = u @ ''@'' @ gw_host g"
  using bridged_of_users_url [of "gw_host g" u] by (simp add: plain_gateway_def actorID_def baseURL_def)

lemma actorID_ne [simp]: "actorID g u \<noteq> []"
  by (simp add: actorID_def baseURL_def)

lemma case_fields [simp]:
  "(case fields_of (activity_json a) of None \<Rightarrow> None | Some obj \<Rightarrow> f (Some obj)) = f (fields_of (activity_json a))"
  "(case fields_of (note_json n) of None \<Rightarrow> None | Some obj \<Rightarrow> f (Some obj)) = f (fields_of (note_json n))"
  using fields_of_objects(1) [of n] fields_of_objects(2) [of a] by (auto split: option.split)

lemma translate_like:
  assumes "parseLocalStatus g obj = Some (owner, tid)" "actor \<noteq> []"
  shows "translateInbound L g now tok (fields_of (activity_json (Activity c i typeLike actor (ObjIRI obj) tos cc)))
      = Some (routePostReact, ReactionEvent tid owner (bridgedUserID actor) (lib_default_reaction L))"
    "translateInbound L g now tok (fields_of (activity_json (Activity c' i' typeUndo actor
        (ObjActivity (Activity c i typeLike actor (ObjIRI obj) tos cc)) tos' cc')))
      = Some (routePostUnreact, ReactionEvent tid owner (bridgedUserID actor) [])"
  using assms by (simp_all add: translateInbound_def translateUndo_def stringField_eq)

lemma translate_announce:
  assumes "parseLocalStatus g obj = Some (owner, tid)" "actor \<noteq> []"
  shows "translateInbound L g now tok (fields_of (activity_json (Activity c i typeAnnounce actor (ObjIRI obj) tos cc)))
      = Some (routePostRetweet, TweetPayload (zero_tweet\<lparr>t_Id := tid, t_RootId := tid, t_UserId := owner,
          t_RetweetedBy := Some (bridgedUserID actor), t_CreatedAt := now\<rparr>))"
    "translateInbound L g now tok (fields_of (activity_json (Activity c' i' typeUndo actor
        (ObjActivity (Activity c i typeAnnounce actor (ObjIRI obj) tos cc)) tos' cc')))
      = Some (routePostUnretweet, UnretweetEvent tid (bridgedUserID actor))"
  using assms by (simp_all add: translateInbound_def translateUndo_def stringField_eq)

lemma translate_unfollow:
  assumes "userFromActorURL obj = owner" "owner \<noteq> []" "actor \<noteq> []"
  shows "translateInbound L g now tok (fields_of (activity_json (Activity c' i' typeUndo actor
        (ObjActivity (Activity c i typeFollow actor (ObjIRI obj) tos cc)) tos' cc')))
      = Some (routePostUnfollow, NewFollowEvent (bridgedUserID actor) owner)"
  using assms by (simp add: translateInbound_def translateUndo_def stringField_eq)

lemma translate_reply:
  assumes "parseLocalStatus g (n_InReplyTo note) = Some (owner, pid)" "actor \<noteq> []" "n_ID note \<noteq> []"
  shows "translateInbound L g now tok (fields_of (activity_json (Activity c i typeCreate actor (ObjNote note) tos cc)))
      = Some (routePostTweet, TweetPayload (zero_tweet\<lparr>t_CreatedAt := now, t_Id := n_ID note, t_ParentId := Some pid,
          t_ParentUserId := Some owner, t_RootId := pid, t_Text := htmlToText L (n_Content note),
          t_UserId := bridgedUserID actor, t_Username := handleFromActorURL actor\<rparr>))"
  using assms by (simp add: translateInbound_def translateCreate_def stringField_eq reply_event_def ingestedNoteID_def
      Let_def)

section \<open>What the operations deliver\<close>

lemma gateway_bridge [simp]:
  "br_token (newMastodonBridge E n) = env_token E" "br_now (newMastodonBridge E n) = env_now E"
  "ap_postSigned (gateway_transport E) = postSigned E" "ap_actorID (gateway_transport E) = actorID (env_gw E)"
  by (simp_all add: newMastodonBridge_def gateway_transport_def)

lemma react_posts:
  assumes "run_state (authorInbox (newMastodonBridge A n) url) s = (Inr (note, inbox), s1)"
    and "run_state (react (newMastodonBridge A n) u url emoji undo) s = (Inr c, s')"
    and "undo \<or> emoji = lib_default_reaction (env_lib A)"
  obtains tok tok' s2 where "run_state (postSigned A u inbox (undoIf (actorID (env_gw A) u) tok'
      (Activity (CtxIRI asContext) (actorID (env_gw A) u @ ''#like-'' @ tok) typeLike (actorID (env_gw A) u)
        (ObjIRI (asString (jget note ''id''))) [] []) undo)) s2 = (None, s')"
  using assms by (auto simp: react_def wrap_undo_def Let_def split: if_splits prod.splits option.splits)

lemma announce_posts:
  assumes "run_state (authorInbox (newMastodonBridge A n) url) s = (Inr (note, inbox), s1)"
    and "run_state (announce (newMastodonBridge A n) u url undo) s = (None, s')"
  obtains tok tok' s2 where "run_state (postSigned A u inbox (undoIf (actorID (env_gw A) u) tok'
      (Activity (CtxIRI asContext) (actorID (env_gw A) u @ ''#announce-'' @ tok) typeAnnounce (actorID (env_gw A) u)
        (ObjIRI (asString (jget note ''id''))) [asPublic] []) undo)) s2 = (None, s')"
  using assms by (auto simp: announce_def wrap_undo_def Let_def split: if_splits)

lemma reply_posts:
  assumes "run_state (authorInbox (newMastodonBridge A n) (reply_parent ev)) s = (Inr (note, inbox), s1)"
    and "run_state (reply (newMastodonBridge A n) ev) s = (None, s')"
  obtains tok now s2 where "run_state (postSigned A (t_UserId ev) inbox (reply_activity (env_lib A)
      (actorID (env_gw A) (t_UserId ev)) now tok (asString (jget note ''attributedTo'')) ev)) s2 = (None, s')"
  using assms by (auto simp: reply_def split: if_splits)

lemma act_Actor_undoIf [simp]: "act_Actor (undoIf a tok inner undo) = (if undo then a else act_Actor inner)"
  by (simp add: undoIf_def)

section \<open>Reactions, replies and follows between gateways\<close>

text \<open>A delivered activity that the peer translates is forwarded to its node as translated.\<close>

lemma forwarded_at_peer:
  assumes "federates A B u pub" "run_state (postSigned A u target doc) s = (None, s')"
    and "act_Actor doc = actorID (env_gw A) u" "gw_has_node (env_gw B)"
    and "act_Type doc \<noteq> typeFollow" "act_Type doc \<noteq> typeDelete"
    and "\<And>now tok. translateInbound (env_lib B) (env_gw B) now tok (fields_of (activity_json doc)) = Some (r, e now)"
  shows "reaches A B s' target src False (\<lambda>a. \<exists>now. a = (202, Some (ForwardJob r (e now))))"
  by (rule delivered_reaches [OF assms(1-3)])
    (use dispatch_activity [OF assms(5,6,4), of "\<lambda>now tok. (r, e now)"] assms(7) in fastforce)

text \<open>
  C9: reactions cross gateways.  When this gateway delivers the like of one of its users, or its
  undoing, to a post that another gateway published, the other gateway's inbox answers 202 and forwards
  the reaction, or its withdrawal, of that user, known there as \<open>name@host\<close>, to the author's node, for the
  tweet the post was rendered from; and the same holds for boosts.
\<close>

theorem reactions_reach_peer:
  assumes f: "federates A B u pub"
    and b: "plain_gateway (env_gw B)" "gw_has_node (env_gw B)" "id_segment v" "id_segment (t_Id t)"
    and nt: "run_state (authorInbox (newMastodonBridge A n) url) s = (Inr (note, inbox), s1)"
      "asString (jget note ''id'') = n_ID (buildNote L (env_gw B) v t)"
    and who: "who = u @ ''@'' @ gw_host (env_gw A)"
  shows "(run_state (react (newMastodonBridge A n) u url emoji undo) s = (Inr c, s') \<and>
      (undo \<or> emoji = lib_default_reaction (env_lib A)) \<longrightarrow>
      reaches A B s' inbox src False (\<lambda>a. a = (202, Some (if undo
        then ForwardJob routePostUnreact (ReactionEvent (t_Id t) v who [])
        else ForwardJob routePostReact (ReactionEvent (t_Id t) v who (lib_default_reaction (env_lib B)))))))
    \<and> (run_state (announce (newMastodonBridge A n) u url undo) s = (None, s') \<longrightarrow>
      reaches A B s' inbox src False (\<lambda>a. \<exists>now. a = (202, Some (if undo
        then ForwardJob routePostUnretweet (UnretweetEvent (t_Id t) who)
        else ForwardJob routePostRetweet (TweetPayload (zero_tweet\<lparr>t_Id := t_Id t, t_RootId := t_Id t, t_UserId := v,
          t_RetweetedBy := Some who, t_CreatedAt := now\<rparr>))))))"
proof -
  let ?a = "actorID (env_gw A) u"
  have p: "parseLocalStatus (env_gw B) (asString (jget note ''id'')) = Some (v, t_Id t)"
    using parse_note_id [OF b(1,3,4), of "[]" L] nt(2) by (simp add: url_tail_def)
  have w: "bridgedUserID ?a = who" using f who bridged_user by (simp add: federates_def)
  note forward = forwarded_at_peer [OF f _ _ b(2)]
  show ?thesis
  proof (intro conjI impI; (elim conjE)?)
    assume "run_state (react (newMastodonBridge A n) u url emoji undo) s = (Inr c, s')"
      "undo \<or> emoji = lib_default_reaction (env_lib A)"
    then obtain tok tok' s2 where d: "run_state (postSigned A u inbox (undoIf ?a tok'
        (Activity (CtxIRI asContext) (?a @ ''#like-'' @ tok) typeLike ?a (ObjIRI (asString (jget note ''id''))) [] []) undo)) s2
        = (None, s')" by (rule react_posts [OF nt(1)])
    show "reaches A B s' inbox src False (\<lambda>a. a = (202, Some (if undo
        then ForwardJob routePostUnreact (ReactionEvent (t_Id t) v who [])
        else ForwardJob routePostReact (ReactionEvent (t_Id t) v who (lib_default_reaction (env_lib B))))))"
      using forward [OF d, where r = "if undo then routePostUnreact else routePostReact" and src = src and
          e = "\<lambda>_. if undo then ReactionEvent (t_Id t) v who [] else ReactionEvent (t_Id t) v who (lib_default_reaction (env_lib B))"]
        translate_like [OF p actorID_ne] w
      by (cases undo) (simp_all add: undoIf_def)
  next
    assume "run_state (announce (newMastodonBridge A n) u url undo) s = (None, s')"
    then obtain tok tok' s2 where d: "run_state (postSigned A u inbox (undoIf ?a tok'
        (Activity (CtxIRI asContext) (?a @ ''#announce-'' @ tok) typeAnnounce ?a (ObjIRI (asString (jget note ''id''))) [asPublic] [])
        undo)) s2 = (None, s')" by (rule announce_posts [OF nt(1)])
    let ?boost = "\<lambda>now. zero_tweet\<lparr>t_Id := t_Id t, t_RootId := t_Id t, t_UserId := v, t_RetweetedBy := Some who, t_CreatedAt := now\<rparr>"
    show "reaches A B s' inbox src False (\<lambda>a. \<exists>now. a = (202, Some (if undo
        then ForwardJob routePostUnretweet (UnretweetEvent (t_Id t) who) else ForwardJob routePostRetweet (TweetPayload (?boost now)))))"
      using forward [OF d, where r = "if undo then routePostUnretweet else routePostRetweet" and src = src and
          e = "\<lambda>now. if undo then UnretweetEvent (t_Id t) who else TweetPayload (?boost now)"]
        translate_announce [OF p actorID_ne] w
      by (cases undo) (simp_all add: undoIf_def)
  qed
qed

text \<open>
  C10: replies cross gateways.  A reply that this gateway delivers to a post of another gateway becomes,
  at that gateway, a reply of the same user to the same tweet and author, under the id at which this
  gateway serves the reply, with the text reduced to plain text.
\<close>

theorem reply_reaches_peer:
  assumes f: "federates A B (t_UserId ev) pub"
    and b: "plain_gateway (env_gw B)" "gw_has_node (env_gw B)" "id_segment v" "id_segment (t_Id t)"
    and nt: "run_state (authorInbox (newMastodonBridge A n) (reply_parent ev)) s = (Inr (note, inbox), s1)"
      "reply_parent ev = n_ID (buildNote L (env_gw B) v t)"
    and run: "run_state (reply (newMastodonBridge A n) ev) s = (None, s')" "t_Id ev \<noteq> []"
  shows "reaches A B s' inbox src False (\<lambda>a. \<exists>now. a = (202, Some (ForwardJob routePostTweet (TweetPayload
    (zero_tweet\<lparr>t_CreatedAt := now, t_Id := replyURL (actorID (env_gw A) (t_UserId ev)) (t_Id ev) (reply_parent ev),
       t_ParentId := Some (t_Id t), t_ParentUserId := Some v, t_RootId := t_Id t,
       t_Text := htmlToText (env_lib B) (t_Text ev),
       t_UserId := t_UserId ev @ ''@'' @ gw_host (env_gw A),
       t_Username := t_UserId ev @ ''@'' @ gw_host (env_gw A)\<rparr>)))))"
proof -
  let ?a = "actorID (env_gw A) (t_UserId ev)"
  have p: "parseLocalStatus (env_gw B) (reply_parent ev) = Some (v, t_Id t)"
    using parse_note_id [OF b(1,3,4), of "[]" L] nt(2) by (simp add: url_tail_def)
  have g: "plain_gateway (env_gw A)" "plain_name (t_UserId ev)" using f by (simp_all add: federates_def)
  have h: "handleFromActorURL ?a = t_UserId ev @ ''@'' @ gw_host (env_gw A)"
    using handle_of_users_url [of "gw_host (env_gw A)" "t_UserId ev"] g
    by (simp add: plain_gateway_def actorID_def baseURL_def)
  obtain tok now s2 where d: "run_state (postSigned A (t_UserId ev) inbox (reply_activity (env_lib A) ?a now tok
      (asString (jget note ''attributedTo'')) ev)) s2 = (None, s')"
    by (rule reply_posts [OF nt(1) run(1)])
  show ?thesis
    by (rule forwarded_at_peer [OF f d _ b(2)])
      (use translate_reply [OF _ actorID_ne] p bridged_user [OF g] h run(2) in
        \<open>simp_all add: reply_activity_def Let_def replyURL_def\<close>)
qed

lemma dispatch_follow:
  assumes "userFromActorURL remote = v" "v \<noteq> []" "run_state (src v) t = (Some wu, t')" "act_Type fl = typeFollow"
    and "act_Object fl = ObjIRI remote"
  shows "fst (run_state (inbox_dispatch B src False user (fields_of (activity_json fl))) t) =
    (202, Some (AcceptJob v (act_Actor fl) (fields_of (activity_json fl))))"
  using assms by (simp add: inbox_dispatch_def handleFollow_def stringField_eq Let_def)

text \<open>
  C11: follows cross gateways and balance.  A Follow that this gateway delivers for one of its users to a
  user of another gateway starts the acceptance of exactly that pair there; accepting it tells the
  followed user's node to add the follower under the id \<open>name@host\<close>; and a delivered Undo removes the
  same follower from the same user.
\<close>

theorem follows_balance_across_gateways:
  assumes f: "federates A B u pub"
    and b: "plain_gateway (env_gw B)" "gw_has_node (env_gw B)" "gw_host (env_gw B) \<noteq> ''users''" "plain_name v"
    and src: "\<And>t. \<exists>wu t'. run_state (src v) t = (Some wu, t')"
    and who: "who = u @ ''@'' @ gw_host (env_gw A)"
    and fl: "fl = follow_activity (env_gw A) tok u (actorID (env_gw B) v)"
  shows "(run_state (postSigned A u target fl) s = (None, s1) \<longrightarrow>
      reaches A B s1 target src False (\<lambda>a. a = (202, Some (AcceptJob v (actorID (env_gw A) u) (fields_of (activity_json fl))))))
    \<and> node_add R C v (actorID (env_gw A) u) = do {
        r \<leftarrow> nr_requestUser R v routePostFollow (NewFollowEvent who v);
        ret (case r of Inl e \<Rightarrow> Some e | Inr bt \<Rightarrow> nodeResponseError C bt) }
    \<and> (run_state (postSigned A u target (undo_follow_activity (env_gw A) tok' u fl)) s = (None, s2) \<longrightarrow>
      reaches A B s2 target src False (\<lambda>a. a = (202, Some (ForwardJob routePostUnfollow (NewFollowEvent who v)))))"
proof -
  let ?a = "actorID (env_gw A) u" and ?b = "actorID (env_gw B) v"
  have v: "userFromActorURL ?b = v" "v \<noteq> []"
    using userFromActorURL_tail [of "env_gw B" v "[]"] plain_gateway_bytes [OF b(1)] plain_name_no_delims [OF b(4)] b(3,4)
    by (simp_all add: plain_name_def)
  have w: "bridgedUserID ?a = who" using f who bridged_user by (simp add: federates_def)
  have d: "fst (run_state (inbox_dispatch B src False user (fields_of (activity_json fl))) t) =
      (202, Some (AcceptJob v ?a (fields_of (activity_json fl))))" for t user
    using src [of t] dispatch_follow [OF v(1,2), of src t _ _ fl B user] fl by (auto simp: follow_activity_def)
  have e: "translateInbound (env_lib B) (env_gw B) now tk (fields_of (activity_json (undo_follow_activity (env_gw A) tok' u fl)))
      = Some (routePostUnfollow, NewFollowEvent who v)" for now tk
    unfolding fl undo_follow_activity_def follow_activity_def using translate_unfollow [OF v actorID_ne] w by simp
  have x: "act_Actor fl = ?a" "act_Actor (undo_follow_activity (env_gw A) tok' u fl) = ?a"
    "act_Type (undo_follow_activity (env_gw A) tok' u fl) \<noteq> typeFollow"
    "act_Type (undo_follow_activity (env_gw A) tok' u fl) \<noteq> typeDelete"
    by (simp_all add: fl follow_activity_def undo_follow_activity_def)
  show ?thesis
  proof (intro conjI impI)
    assume "run_state (postSigned A u target fl) s = (None, s1)"
    from delivered_reaches [OF f this x(1)] d
    show "reaches A B s1 target src False (\<lambda>a. a = (202, Some (AcceptJob v ?a (fields_of (activity_json fl)))))" by simp
  next
    assume "run_state (postSigned A u target (undo_follow_activity (env_gw A) tok' u fl)) s = (None, s2)"
    from forwarded_at_peer [OF f this x(2) b(2) x(3,4), of _ "\<lambda>_. NewFollowEvent who v"] e
    show "reaches A B s2 target src False (\<lambda>a. a = (202, Some (ForwardJob routePostUnfollow (NewFollowEvent who v))))" by simp
  qed (simp add: node_add_def w)
qed

section \<open>Concrete exchanges\<close>

text \<open>What the peer serves for its user \<open>bob\<close> and his post \<open>7\<close>.\<close>

definition bob_user :: warpnetUser where
  "bob_user = sample_user\<lparr>wu_PreferredUsername := ''bob''\<rparr>"

definition bob_note :: ap_note where
  "bob_note = buildNote sample_lib peer_gateway ''bob'' (zero_tweet\<lparr>t_Id := ''7''\<rparr>)"

definition bob_docs :: "(string \<times> json) list" where
  "bob_docs = [(doc_key (n_ID bob_note), note_json bob_note),
     (doc_key (actorID peer_gateway ''bob''), actor_json (buildActor peer_gateway bob_user))]"

definition bob_status :: string where
  "bob_status = ''https://m.example/users/bob/statuses/7''"

lemma bob_urls:
  "n_ID bob_note = bob_status" "actorID peer_gateway ''bob'' = ''https://m.example/users/bob''"
  "trim_prefix bob_status ''RT:'' = bob_status"
  "checkRemoteURL sample_gateway bob_status = None"
  "checkRemoteURL sample_gateway ''https://m.example/users/bob'' = None"
  "doc_key bob_status \<noteq> doc_key ''https://m.example/users/bob''"
  "n_AttributedTo bob_note = ''https://m.example/users/bob''"
  "baseURL peer_gateway @ pathInbox = ''https://m.example/inbox''"
  by code_simp+

lemma note_of_json [simp]: "note_of (fields_of (note_json n)) = fields_of (note_json n)"
proof -
  have "jget (fields_of (note_json n)) ''object'' = JNull" by (simp add: note_json_def)
  then show ?thesis by (simp add: note_of_def)
qed

lemma inbox_of_built [simp]: "inbox_of_actor (fields_of (actor_json (buildActor g wu))) = Inr (baseURL g @ pathInbox)"
  by (simp add: inbox_of_actor_def buildActor_def endpoints_json_def baseURL_def Let_def)

lemma cached_documents:
  assumes "env_get_cache E = (\<lambda>k w. (Some (200, k), w))" "checkRemoteURL (env_gw E) url = None"
    and "env_unmarshal E (doc_key url) = Some j" "fields_of j \<noteq> None"
  shows "run_state (apGetJSON E url contentTypeAP) (start_state w) = (Inr (fields_of j), start_state w)"
    "run_state (fetchActor E url) (start_state w) = (Inr (fields_of j), start_state w)"
  using assms by (simp_all add: apGetJSON_def fetchActor_def guardedGet_def signedGet_def doc_key_def Let_def start_state_def
      as_document_obj)

lemma bob_author_inbox:
  "run_state (authorInbox (newMastodonBridge (sample_a bob_docs doc) n) bob_status) (start_state w)
    = (Inr (fields_of (note_json bob_note), ''https://m.example/inbox''), start_state w)"
proof -
  have e: "env_unmarshal (sample_a bob_docs doc) (doc_key bob_status) = Some (note_json bob_note)"
    "env_unmarshal (sample_a bob_docs doc) (doc_key ''https://m.example/users/bob'')
      = Some (actor_json (buildActor peer_gateway bob_user))"
    using bob_urls(6) by (auto simp: sample_a_def cached_def sample_env_def bob_docs_def bob_urls(1,2))
  have c: "env_get_cache (sample_a bob_docs doc) = (\<lambda>k w. (Some (200, k), w))" "env_gw (sample_a bob_docs doc) = sample_gateway"
    "lib_retweet_prefix (env_lib (sample_a bob_docs doc)) = ''RT:''"
    by (simp_all add: sample_a_def cached_def sample_env_def sample_lib_def)
  note note_get = cached_documents(1) [OF c(1) _ e(1), unfolded c(2), OF bob_urls(4) fields_of_objects(1)]
  note actor_get = cached_documents(2) [OF c(1) _ e(2), unfolded c(2), OF bob_urls(5) fields_of_objects(3)]
  have i: "inbox_of_actor (fields_of (actor_json (buildActor peer_gateway bob_user))) = Inr ''https://m.example/inbox''"
    unfolding inbox_of_built bob_urls(8) ..
  show ?thesis
    using note_get actor_get bob_urls(3,7) c(3) i
    by (simp add: authorInbox_def gateway_transport_def remoteInbox_def del: inbox_of_built)
qed

lemma bob_posts:
  "\<exists>s'. run_state (postSigned (sample_a docs doc) ''alice'' ''https://m.example/inbox'' doc) (start_state [ok_response []]) = (None, s')"
  using sample_posts [OF refl, of docs doc "[]" "[]"] unfolding start_state_def by blast

definition alice_like :: activity where
  "alice_like = Activity (CtxIRI asContext) (actorID sample_gateway ''alice'' @ ''#like-tok'') typeLike
     (actorID sample_gateway ''alice'') (ObjIRI bob_status) [] []"

lemma peer_node: "gw_has_node (env_gw (sample_b doc))" "plain_gateway (env_gw (sample_b doc))"
  "id_segment ''bob''" "id_segment ''7''"
  using sample_plains(3,4) by (simp_all add: peer_gateway_def sample_gateway_def id_segment_def)

lemma alice_reacts:
  "\<exists>s' c. run_state (react (newMastodonBridge (sample_a bob_docs alice_like) ''n'') ''alice'' bob_status ''heart'' False)
      (start_state [ok_response []]) = (Inr c, s')"
proof -
  have t: "env_token (sample_a bob_docs alice_like) = (\<lambda>w. (''tok'', w))" "env_lib (sample_a bob_docs alice_like) = sample_lib"
    by (simp_all add: sample_a_def cached_def sample_env_def)
  have l: "Activity (CtxIRI asContext) (actorID sample_gateway ''alice'' @ ''#like-'' @ ''tok'') typeLike
     (actorID sample_gateway ''alice'') (ObjIRI bob_status) [] [] = alice_like"
    by (simp add: alice_like_def)
  have s: "(start_state w)\<lparr>st_world := w\<rparr> = start_state w" for w by (simp add: start_state_def)
  have w: "st_world (start_state w) = w" for w by (simp add: start_state_def)
  obtain s' where "run_state (postSigned (sample_a bob_docs alice_like) ''alice'' ''https://m.example/inbox'' alice_like)
      (start_state [ok_response []]) = (None, s')" using bob_posts by blast
  then show ?thesis
    using bob_author_inbox [of alice_like "''n''" "[ok_response []]"] t l
    by (simp add: react_def wrap_undo_def undoIf_def Let_def s w sample_plains(2) bob_urls(1) sample_lib_def)
qed

lemma reactions_reach_peer_witness:
  "\<exists>s' c. run_state (react (newMastodonBridge (sample_a bob_docs alice_like) ''n'') ''alice'' bob_status ''heart'' False)
      (start_state [ok_response []]) = (Inr c, s') \<and>
    reaches (sample_a bob_docs alice_like) (sample_b alice_like) s' ''https://m.example/inbox'' sample_source False
      (\<lambda>a. a = (202, Some (ForwardJob routePostReact (ReactionEvent ''7'' ''bob'' ''alice@gw.example'' ''heart''))))"
proof -
  obtain s' c where r: "run_state (react (newMastodonBridge (sample_a bob_docs alice_like) ''n'') ''alice'' bob_status ''heart'' False)
      (start_state [ok_response []]) = (Inr c, s')" using alice_reacts by blast
  have e: "lib_default_reaction (env_lib (sample_a docs doc)) = ''heart''" "lib_default_reaction (env_lib (sample_b doc)) = ''heart''"
    for docs doc by (simp_all add: sample_a_def sample_b_def cached_def sample_env_def sample_lib_def)
  have n: "asString (jget (fields_of (note_json bob_note)) ''id'') =
      n_ID (buildNote sample_lib (env_gw (sample_b alice_like)) ''bob'' (zero_tweet\<lparr>t_Id := ''7''\<rparr>))"
    by (simp add: bob_note_def sample_plains(3))
  have i: "id_segment (t_Id (zero_tweet\<lparr>t_Id := ''7''\<rparr>))" using peer_node by simp
  have g: "''alice@gw.example'' = ''alice'' @ ''@'' @ gw_host (env_gw (sample_a bob_docs alice_like))"
    by (simp add: sample_plains(2) sample_gateway_def)
  have "run_state (react (newMastodonBridge (sample_a bob_docs alice_like) ''n'') ''alice'' bob_status ''heart'' False)
      (start_state [ok_response []]) = (Inr c, s') \<and> (False \<or> ''heart'' = lib_default_reaction (env_lib (sample_a bob_docs alice_like))) \<longrightarrow>
    reaches (sample_a bob_docs alice_like) (sample_b alice_like) s' ''https://m.example/inbox'' sample_source False
      (\<lambda>a. a = (202, Some (if False then ForwardJob routePostUnreact (ReactionEvent (t_Id (zero_tweet\<lparr>t_Id := ''7''\<rparr>)) ''bob'' ''alice@gw.example'' [])
         else ForwardJob routePostReact (ReactionEvent (t_Id (zero_tweet\<lparr>t_Id := ''7''\<rparr>)) ''bob'' ''alice@gw.example''
           (lib_default_reaction (env_lib (sample_b alice_like)))))))"
    by (rule reactions_reach_peer [OF sample_federates peer_node(2,1,3) i bob_author_inbox n g, THEN conjunct1])
  with r e show ?thesis by auto
qed

definition alice_reply :: tweet where
  "alice_reply = zero_tweet\<lparr>t_Id := ''42'', t_UserId := ''alice'', t_Text := ''hello'', t_RootId := bob_status\<rparr>"

definition alice_reply_doc :: activity where
  "alice_reply_doc = reply_activity sample_lib (actorID sample_gateway ''alice'') 0 []
     ''https://m.example/users/bob'' alice_reply"

lemma alice_replies:
  "\<exists>s'. run_state (reply (newMastodonBridge (sample_a bob_docs alice_reply_doc) ''n'') alice_reply)
      (start_state [ok_response []]) = (None, s')"
proof -
  have t: "env_now (sample_a bob_docs alice_reply_doc) = (\<lambda>w. (0, w))" "env_lib (sample_a bob_docs alice_reply_doc) = sample_lib"
    by (simp_all add: sample_a_def cached_def sample_env_def)
  have p: "reply_parent alice_reply = bob_status" "t_Id alice_reply \<noteq> []" "t_UserId alice_reply = ''alice''"
    by (simp_all add: reply_parent_def alice_reply_def zero_tweet_def)
  have s: "(start_state w)\<lparr>st_world := w\<rparr> = start_state w" "st_world (start_state w) = w" for w
    by (simp_all add: start_state_def)
  obtain s' where "run_state (postSigned (sample_a bob_docs alice_reply_doc) ''alice'' ''https://m.example/inbox'' alice_reply_doc)
      (start_state [ok_response []]) = (None, s')" using bob_posts by blast
  then show ?thesis
    using bob_author_inbox [of alice_reply_doc "''n''" "[ok_response []]"] t p
    by (simp add: reply_def s sample_plains(2) bob_urls(7) flip: alice_reply_doc_def)
qed

lemma reply_reaches_peer_witness:
  "\<exists>s'. run_state (reply (newMastodonBridge (sample_a bob_docs alice_reply_doc) ''n'') alice_reply)
      (start_state [ok_response []]) = (None, s') \<and>
    reaches (sample_a bob_docs alice_reply_doc) (sample_b alice_reply_doc) s' ''https://m.example/inbox'' sample_source False
      (\<lambda>a. \<exists>t. a = (202, Some (ForwardJob routePostTweet (TweetPayload t))) \<and> t_ParentId t = Some ''7'' \<and> t_Text t = ''hello'')"
proof -
  obtain s' where r: "run_state (reply (newMastodonBridge (sample_a bob_docs alice_reply_doc) ''n'') alice_reply)
      (start_state [ok_response []]) = (None, s')" using alice_replies by blast
  have p: "reply_parent alice_reply = bob_status" "t_Id alice_reply \<noteq> []" "t_UserId alice_reply = ''alice''"
    by (simp_all add: reply_parent_def alice_reply_def zero_tweet_def)
  have n: "reply_parent alice_reply =
      n_ID (buildNote sample_lib (env_gw (sample_b alice_reply_doc)) ''bob'' (zero_tweet\<lparr>t_Id := ''7''\<rparr>))"
    using bob_urls(1) p(1) by (simp add: bob_note_def sample_plains(3))
  have i: "id_segment (t_Id (zero_tweet\<lparr>t_Id := ''7''\<rparr>))" using peer_node by simp
  have f: "federates (sample_a bob_docs alice_reply_doc) (sample_b alice_reply_doc) (t_UserId alice_reply) ''PEM''"
    using sample_federates p(3) by simp
  have x: "htmlToText (env_lib (sample_b alice_reply_doc)) (t_Text alice_reply) = ''hello''"
    by (simp add: sample_b_def cached_def sample_env_def alice_reply_def) code_simp
  show ?thesis
    using reply_reaches_peer [OF f peer_node(2,1,3) i _ n r p(2), where src = sample_source] bob_author_inbox p(1) x r
    unfolding reaches_def by (fastforce simp: zero_tweet_def)
qed

lemma follows_balance_across_gateways_witness:
  "\<exists>s' :: http_response list gw_state. reaches
      (sample_a [] (follow_activity sample_gateway ''tok'' ''alice'' ''https://m.example/users/alice''))
      (sample_b (follow_activity sample_gateway ''tok'' ''alice'' ''https://m.example/users/alice''))
      s' ''https://m.example/inbox'' sample_source False (\<lambda>a. fst a = 202 \<and> snd a \<noteq> None)"
proof -
  let ?fl = "follow_activity sample_gateway ''tok'' ''alice'' ''https://m.example/users/alice''"
  have a: "actorID peer_gateway ''alice'' = ''https://m.example/users/alice''" by code_simp
  obtain s1 where r: "run_state (postSigned (sample_a [] ?fl) ''alice'' ''https://m.example/inbox'' ?fl)
      (start_state [ok_response []]) = (None, s1)" using bob_posts by blast
  have src: "\<exists>wu t'. run_state (sample_source ''alice'') t = (Some wu, t')" for t :: "http_response list gw_state"
    by (simp add: sample_source_def staticSource_GetUser_def)
  have h: "gw_host (env_gw (sample_b ?fl)) \<noteq> ''users''" by (simp add: sample_plains(3) peer_gateway_def)
  have eq: "?fl = follow_activity (env_gw (sample_a [] ?fl)) ''tok'' ''alice'' (actorID (env_gw (sample_b ?fl)) ''alice'')"
    by (simp add: sample_plains(2,3) a)
  have "run_state (postSigned (sample_a [] ?fl) ''alice'' ''https://m.example/inbox'' ?fl) (start_state [ok_response []]) = (None, s1) \<longrightarrow>
      reaches (sample_a [] ?fl) (sample_b ?fl) s1 ''https://m.example/inbox'' sample_source False
      (\<lambda>a. a = (202, Some (AcceptJob ''alice'' (actorID (env_gw (sample_a [] ?fl)) ''alice'') (fields_of (activity_json ?fl)))))"
    by (rule follows_balance_across_gateways [where src = sample_source and v = "''alice''",
        OF sample_federates peer_node(2,1) h sample_plain(2) src refl eq, THEN conjunct1])
  with r have "reaches (sample_a [] ?fl) (sample_b ?fl) s1 ''https://m.example/inbox'' sample_source False
      (\<lambda>a. a = (202, Some (AcceptJob ''alice'' (actorID (env_gw (sample_a [] ?fl)) ''alice'') (fields_of (activity_json ?fl)))))"
    by blast
  then show ?thesis unfolding reaches_def by (intro exI [of _ s1]) fastforce
qed

end
