(* ===== verification/Peer_View.thy ===== *)
theory Peer_View
  imports Interop
begin

text \<open>
  How another gateway sees this one: it resolves the handles of our users, and it reads back the notes
  and actors we render as the posts and users they came from.
\<close>

section \<open>Resolving our users\<close>

lemma query_get_plain:
  assumes "\<forall>c\<in>set v. query_byte c \<and> c \<noteq> CHR ''%'' \<and> c \<noteq> CHR ''+'' \<and> c \<noteq> CHR ''&''"
  shows "query_get (''resource='' @ v) ''resource'' = v"
proof -
  have "CHR ''&'' \<notin> set (''resource='' @ v)" using assms by auto
  then have s: "split_on CHR ''&'' (''resource='' @ v) = [''resource='' @ v]" by (rule split_on_absent)
  have "\<not> query_byte CHR '';''" by code_simp
  then have "CHR '';'' \<notin> set (''resource='' @ v)" using assms by auto
  then have n: "\<not> contains (''resource='' @ v) '';''" by (simp add: contains_byte_iff)
  have "CHR ''='' \<notin> set ''resource''" by simp
  from cut_byte_append [OF this, of v] have c: "cut (''resource='' @ v) ''='' = (''resource'', v, True)" by simp
  have u: "query_unescape ''resource'' = Some ''resource''" "query_unescape v = Some v"
    using assms by (auto simp: query_unescape_def intro!: unescape_id)
  show ?thesis unfolding query_get_def s using n c u by (simp del: append.simps)
qed

lemma plain_query_byte: "is_unreserved c \<Longrightarrow>
    query_byte c \<and> c \<noteq> CHR ''%'' \<and> c \<noteq> CHR ''+'' \<and> c \<noteq> CHR ''&''"
  by (auto simp: query_byte_def dest: is_unreserved_plain)

text \<open>The WebFinger URL a peer asks, as our server sees it.\<close>

lemma webfinger_request:
  assumes "plain_gateway g" "plain_name u"
  shows "\<exists>r. url_parse (webfinger_url u (gw_host g)) = Some r \<and> u_host r = gw_host g \<and>
    u_path r = ''/.well-known/webfinger'' \<and> query_get (u_rawquery r) ''resource'' = ''acct:'' @ u @ ''@'' @ gw_host g"
proof -
  let ?acct = "''acct:'' @ u @ ''@'' @ gw_host g"
  have lit: "\<forall>c\<in>set ''acct:@''. query_byte c \<and> c \<noteq> CHR ''%'' \<and> c \<noteq> CHR ''+'' \<and> c \<noteq> CHR ''&''" by code_simp
  have bytes: "\<forall>c\<in>set ?acct. query_byte c \<and> c \<noteq> CHR ''%'' \<and> c \<noteq> CHR ''+'' \<and> c \<noteq> CHR ''&''"
  proof
    fix c assume "c \<in> set ?acct"
    then have "c \<in> set ''acct:@'' \<or> is_unreserved c"
      using assms by (auto simp: plain_gateway_def plain_host_def plain_name_def)
    then show "query_byte c \<and> c \<noteq> CHR ''%'' \<and> c \<noteq> CHR ''+'' \<and> c \<noteq> CHR ''&''"
      using lit plain_query_byte by blast
  qed
  have q: "\<forall>c\<in>set (''resource='' @ ?acct). query_byte c"
  proof -
    have "\<forall>c\<in>set ''resource=''. query_byte c" by code_simp
    moreover have "\<forall>c\<in>set ?acct. query_byte c" using bytes by blast
    ultimately show ?thesis by (simp only: set_append ball_Un)
  qed
  have "plain_path ''/.well-known/webfinger''" by code_simp
  then have "url_parse (''https://'' @ gw_host g @ ''/.well-known/webfinger'' @ ''?'' @ ''resource='' @ ?acct)
      = Some \<lparr>u_scheme = ''https'', u_opaque = [], u_host = gw_host g, u_path = ''/.well-known/webfinger'',
          u_rawquery = ''resource='' @ ?acct\<rparr>"
    by (intro parse_https_query q) (use assms in \<open>simp_all add: plain_gateway_def\<close>)
  moreover have "webfinger_url u (gw_host g)
      = ''https://'' @ gw_host g @ ''/.well-known/webfinger'' @ ''?'' @ ''resource='' @ ?acct"
    by (simp add: webfinger_url_def)
  ultimately show ?thesis using query_get_plain [OF bytes] by simp
qed

lemma self_link_jrd: "href \<noteq> [] \<Longrightarrow>
    self_link (asSlice (jget (fields_of (document_json (self_jrd g u href))) ''links'')) = Some href"
  by (simp add: self_jrd_def document_json_def jrd_json_def link_json_def contentTypeAP_def opt_str_def)

lemma handle_split:
  assumes "plain_gateway g" "plain_name u"
  shows "split_handle (u @ ''@'' @ gw_host g) = Some (u, gw_host g)"
    "decodeActorID (u @ ''@'' @ gw_host g) = Inl ErrNotAPFollower"
proof -
  have at: "CHR ''@'' \<notin> set u" using plain_name_no_delims [OF assms(2)] by simp
  have "u \<noteq> []" "gw_host g \<noteq> []" using assms by (auto simp: plain_name_def plain_gateway_def)
  moreover from this(1) at have "trim_prefix (u @ ''@'' @ gw_host g) ''@'' = u @ ''@'' @ gw_host g"
    by (cases u) (auto simp: trim_prefix_def)
  ultimately show "split_handle (u @ ''@'' @ gw_host g) = Some (u, gw_host g)"
    using cut_byte_append [OF at, of "gw_host g"] by (simp add: split_handle_def)
  have "CHR '':'' \<notin> set (u @ ''@'' @ gw_host g)"
    using assms is_unreserved_not_delim by (auto simp: plain_name_def plain_gateway_def plain_host_def)
  moreover have "CHR '':'' \<in> set s" if "prefix ''ap:'' s" for s using that by (auto simp: prefix_def)
  ultimately have "\<not> prefix ''ap:'' (u @ ''@'' @ gw_host g)" by blast
  then show "decodeActorID (u @ ''@'' @ gw_host g) = Inl ErrNotAPFollower"
    by (simp add: decodeActorID_def cut_prefix_def apFollowerPrefix_def)
qed

text \<open>
  C22: a peer resolves our users.  The WebFinger URL that another gateway derives from the handle
  \<open>name@host\<close> of one of our users is answered by this server, and the answer, fetched as JSON, makes the
  other gateway resolve the handle to the user's actor URL.
\<close>

theorem peers_resolve_our_users:
  assumes g: "plain_gateway (sv_gw S)" and u: "plain_name u" "u \<noteq> instanceActorName" and m: "all_marshal S"
    and src: "\<And>s. \<exists>wu s'. run_state (sv_source S u) s = (Some wu, s')"
    and b: "\<not> isSelfHost (env_gw B) (gw_host (sv_gw S))"
    and miss: "fst (env_get_actor B (u @ ''@'' @ gw_host (sv_gw S)) (st_world t)) = None"
  shows "\<exists>r d. url_parse (webfinger_url u (gw_host (sv_gw S))) = Some r \<and> u_host r = gw_host (sv_gw S) \<and>
    (\<forall>rq s. ir_path rq = u_path r \<and> ir_query rq = u_rawquery r \<longrightarrow>
       fst (run_state (routes S rq) s) = (served contentTypeJRD d, None)) \<and>
    ((\<forall>s. \<exists>s'. run_state (apGetJSON B (webfinger_url u (gw_host (sv_gw S))) contentTypeJRD) s
        = (Inr (fields_of (document_json d)), s')) \<longrightarrow>
      fst (run_state (resolveActorID B (u @ ''@'' @ gw_host (sv_gw S))) t) = Inr (actorID (sv_gw S) u))"
proof -
  let ?h = "gw_host (sv_gw S)" and ?d = "self_jrd (sv_gw S) u (actorID (sv_gw S) u)"
  obtain r where r: "url_parse (webfinger_url u ?h) = Some r" "u_host r = ?h" "u_path r = ''/.well-known/webfinger''"
    "query_get (u_rawquery r) ''resource'' = ''acct:'' @ u @ ''@'' @ ?h"
    using webfinger_request [OF g u(1)] by blast
  have w: "fst (run_state (routes S rq) s) = (served contentTypeJRD ?d, None)"
    if "ir_path rq = u_path r \<and> ir_query rq = u_rawquery r" for rq s
  proof -
    obtain wu s' where s': "run_state (sv_source S u) s = (Some wu, s')" using src by blast
    have q: "query_get (ir_query rq) ''resource'' = ''acct:'' @ u @ ''@'' @ ?h" using that r(4) by simp
    show ?thesis using webfinger_user [OF g u(2) m q s'] that r(3)
      by (simp add: routes_def endpoint_of_def plain_reply_def)
  qed
  have "fst (run_state (resolveActorID B (u @ ''@'' @ ?h)) t) = Inr (actorID (sv_gw S) u)"
    if get: "\<forall>s. \<exists>s'. run_state (apGetJSON B (webfinger_url u ?h) contentTypeJRD) s = (Inr (fields_of (document_json ?d)), s')"
  proof -
    obtain s' where "run_state (apGetJSON B (webfinger_url u ?h) contentTypeJRD)
        (t\<lparr>st_world := snd (env_get_actor B (u @ ''@'' @ ?h) (st_world t))\<rparr>) = (Inr (fields_of (document_json ?d)), s')"
      using get by blast
    with handle_split [OF g u(1)] b miss self_link_jrd [OF actorID_ne, of "sv_gw S" u "sv_gw S" u] show ?thesis
      by (simp add: resolveActorID_def)
  qed
  with r(1,2) w show ?thesis by blast
qed

lemma peers_resolve_our_users_witness:
  "\<exists>r d. url_parse (webfinger_url ''alice'' ''gw.example'') = Some r \<and> u_host r = ''gw.example'' \<and>
    fst (run_state (routes sample_server (sample_get (u_path r) (u_rawquery r))) (start_state []))
      = (served contentTypeJRD d, None)"
proof -
  have g: "plain_gateway (sv_gw sample_server)" "gw_host (sv_gw sample_server) = ''gw.example''"
    using sample_plain by (simp_all add: sample_server_simps sample_gateway_def)
  have ne: "''alice'' \<noteq> instanceActorName" by (simp add: instanceActorName_def)
  have src: "\<exists>wu s'. run_state (sv_source sample_server ''alice'') s = (Some wu, s')" for s
    using sample_server_simps(4) [of s] by blast
  have b: "\<not> isSelfHost (env_gw (sample_b alice_like)) (gw_host (sv_gw sample_server))"
    unfolding sample_plains(3) g(2) by code_simp
  have miss: "fst (env_get_actor (sample_b alice_like) h w) = None" for h w
    by (simp add: sample_b_def cached_def sample_env_def)
  from peers_resolve_our_users [OF g(1) sample_plain(2) ne sample_server_simps(2) src b miss [of _ "st_world (start_state [])"]]
  show ?thesis unfolding g(2) by (auto simp: sample_get_def)
qed

section \<open>Reading our notes back\<close>











lemma quoted_none [simp]: "quotedNoteURL (fields_of (note_json n)) = []"
  by (simp add: quotedNoteURL_def)

lemma note_images_none [simp]: "note_images (map attachment_json as) = []"
  by (induction as) (simp_all add: attachment_json_def)


lemma setQuoted_keeps [simp]:
  "t_Id (setQuoted t q) = t_Id t" "t_UserId (setQuoted t q) = t_UserId t" "t_CreatedAt (setQuoted t q) = t_CreatedAt t"
  "t_ParentId (setQuoted t q) = t_ParentId t" "t_QuotedTweetId (setQuoted t q) = Some q"
  by (simp_all add: setQuoted_def Let_def)

lemma apply_quote_keeps [simp]:
  "t_Id (apply_quote m t) = t_Id t" "t_UserId (apply_quote m t) = t_UserId t" "t_CreatedAt (apply_quote m t) = t_CreatedAt t"
  by (auto simp: apply_quote_def Let_def split: option.split prod.split)






section \<open>Our replies in a peer's thread\<close>

lemma rest_reply_fields:
  assumes "asString (jget (Some s) ''uri'') = uri" "uri \<noteq> []" "asString (jget (Some s) ''in_reply_to_id'') = i" "i \<noteq> []"
  shows "\<exists>t. restReplyToTweet L now host (Some s) noteURL [i \<mapsto> noteURL] = Some t \<and> t_Id t = uri \<and>
    t_RootId t = noteURL \<and> t_ParentId t = Some noteURL"
  using assms by (auto simp: restReplyToTweet_def restBaseTweet_def Let_def)

lemma nativize_own:
  assumes "t_ParentId t = Some p" "ownStatusRef isSelf (t_Id t) = Some (u, k)"
  shows "t_Id (nativizeOwnStatus isSelf t acc) = k" "t_UserId (nativizeOwnStatus isSelf t acc) = u"
    "t_Network (nativizeOwnStatus isSelf t acc) = []" "t_RootId (nativizeOwnStatus isSelf t acc) = t_RootId t"
    "t_ParentId (nativizeOwnStatus isSelf t acc) =
      Some (case ownStatusRef isSelf p of Some (_, pid) \<Rightarrow> pid | None \<Rightarrow> p)"
  using assms by (auto simp: nativizeOwnStatus_def Let_def split: option.split)

text \<open>The items of a context document that reply to the status itself.\<close>

definition direct_replies :: "string \<Rightarrow> json list \<Rightarrow> json list" where
  "direct_replies i its = [it \<leftarrow> its. asMap it \<noteq> None \<and> asString (jget (asMap it) ''in_reply_to_id'') = i]"

lemma context_items_reach:
  assumes "length (direct_replies i pre) < room" "asString (jget (Some r) ''in_reply_to_id'') = i"
    and "restReplyToTweet (br_lib B) now host (Some r) noteURL [i \<mapsto> noteURL] = Some t"
  shows "nativizeOwnStatus (ap_isSelfHost (br_ap B)) t (asMap (jget (Some r) ''account''))
    \<in> set (context_items B now host i noteURL room (pre @ JObj r # post))"
  using assms(1)
proof (induction pre arbitrary: room)
  case Nil
  then show ?case using assms(2,3) by simp
next
  case (Cons it pre)
  show ?case
  proof (cases "asMap it \<noteq> None \<and> asString (jget (asMap it) ''in_reply_to_id'') = i")
    case True
    then have "length (direct_replies i pre) < room - 1" "length (direct_replies i pre) < room"
      using Cons.prems by (auto simp: direct_replies_def)
    then show ?thesis using Cons.IH [of "room - 1"] Cons.IH [of room] True by (auto split: option.splits)
  next
    case False
    then have "length (direct_replies i pre) < room" using Cons.prems by (auto simp: direct_replies_def)
    then show ?thesis using Cons.IH [of room] False by (auto split: option.splits)
  qed
qed

lemma slice_present: "asSlice (jget m k) \<noteq> [] \<Longrightarrow> jhas m k"
  by (auto simp: jhas_def jget_def split: option.splits)

text \<open>
  C32: our replies come home.  When a Mastodon instance lists, in the context of a status, a reply to it that
  one of our users sent, under the id it was federated with, then the thread that the bridge returns for
  that status contains it in its native form: the tweet's own id, its author, no foreign network, and as
  parent the note, by its tweet id if the note is ours too.  The thread is cut after fifty replies, so
  fewer than fifty direct replies may come before it.
\<close>

theorem own_replies_come_home:
  assumes g: "plain_gateway g" "plain_name u" "plain_name k" and B: "ap_isSelfHost (br_ap B) = isSelfHost g"
    and at: "noteURL = trim_prefix url (lib_retweet_prefix (br_lib B))" "restStatusRef noteURL = Some (host, i)" "i \<noteq> []"
    and ctx: "run_state (ap_getJSON (br_ap B) (status_api host i @ ''/context'') ''application/json'') s = (Inr m, s1)"
    and it: "asSlice (jget m ''descendants'') = pre @ JObj r # post" "length (direct_replies i pre) < 50"
      "asString (jget (Some r) ''in_reply_to_id'') = i" "asString (jget (Some r) ''uri'') = replyURL (actorID g u) k p"
  shows "\<exists>ts s'. run_state (getReplies B url) s = (Inr ts, s') \<and> (\<exists>t\<in>set ts.
    t_Id t = k \<and> t_UserId t = u \<and> t_Network t = [] \<and> t_RootId t = noteURL \<and>
    t_ParentId t = Some (case ownStatusRef (isSelfHost g) noteURL of Some (_, pid) \<Rightarrow> pid | None \<Rightarrow> noteURL))"
proof -
  obtain now w where n: "br_now B (st_world s1) = (now, w)" by fastforce
  have "replyURL (actorID g u) k p \<noteq> []" by (simp add: replyURL_def)
  from rest_reply_fields [OF it(4) this it(3) at(3), of "br_lib B" now host noteURL] obtain t where
    t: "restReplyToTweet (br_lib B) now host (Some r) noteURL [i \<mapsto> noteURL] = Some t"
    "t_Id t = replyURL (actorID g u) k p" "t_RootId t = noteURL" "t_ParentId t = Some noteURL" by blast
  let ?ts = "context_items B now host i noteURL maxReplies (asSlice (jget m ''descendants''))"
  let ?n = "nativizeOwnStatus (isSelfHost g) t (asMap (jget (Some r) ''account''))"
  have "jhas m ''descendants''" using it(1) by (intro slice_present) simp
  then have run: "\<exists>s'. run_state (getReplies B url) s = (Inr ?ts, s')"
    using at ctx n by (simp add: getReplies_def contextReplies_def Let_def)
  have "?n \<in> set ?ts"
    using context_items_reach [OF _ it(3) t(1), of pre maxReplies post] it(1,2) B by (simp add: maxReplies_def)
  moreover have "ownStatusRef (isSelfHost g) (t_Id t) = Some (u, k)" using own_reply_url [OF g] t(2) by simp
  from nativize_own [OF t(4) this] have "t_Id ?n = k \<and> t_UserId ?n = u \<and> t_Network ?n = [] \<and> t_RootId ?n = noteURL \<and>
    t_ParentId ?n = Some (case ownStatusRef (isSelfHost g) noteURL of Some (_, pid) \<Rightarrow> pid | None \<Rightarrow> noteURL)"
    using t(3) by simp
  ultimately show ?thesis using run by blast
qed

text \<open>Bob's status with a foreign reply, a reply to that, and alice's.\<close>

definition home_reply :: "(string \<times> json) list" where
  "home_reply = [(''in_reply_to_id'', JStr ''9''),
     (''uri'', JStr (replyURL (actorID sample_gateway ''alice'') ''42'' ''https://m.example/@bob/9''))]"

definition home_docs :: "(string \<times> json) list" where
  "home_docs = [(''https://m.example/api/v1/statuses/9/context'',
     JObj [(''descendants'', JArr [sample_status ''11'' ''9'', sample_status ''13'' ''11'', JObj home_reply])])]"

lemma own_replies_come_home_witness:
  "\<exists>ts s'. run_state (getReplies (sample_bridge home_docs) ''https://m.example/@bob/9'') unit_state = (Inr ts, s') \<and>
     (\<exists>t\<in>set ts. t_Id t = ''42'' \<and> t_UserId t = ''alice'')"
proof -
  let ?u = "''https://m.example/@bob/9''" and ?B = "sample_bridge home_docs"
  have f: "?u = trim_prefix ?u (lib_retweet_prefix (br_lib ?B))" "restStatusRef ?u = Some (''m.example'', ''9'')" "''9'' \<noteq> []"
    "asSlice (jget (Some [(''descendants'', JArr [sample_status ''11'' ''9'', sample_status ''13'' ''11'', JObj home_reply])]) ''descendants'')
      = [sample_status ''11'' ''9'', sample_status ''13'' ''11''] @ JObj home_reply # []"
    "length (direct_replies ''9'' [sample_status ''11'' ''9'', sample_status ''13'' ''11'']) < 50"
    "asString (jget (Some home_reply) ''in_reply_to_id'') = ''9''"
    "asString (jget (Some home_reply) ''uri'') = replyURL (actorID sample_gateway ''alice'') ''42'' ?u"
    by code_simp+
  have B: "ap_isSelfHost (br_ap ?B) = isSelfHost sample_gateway" by (simp add: sample_bridge_def table_transport_def)
  have ctx: "run_state (ap_getJSON (br_ap ?B) (status_api ''m.example'' ''9'' @ ''/context'') ''application/json'') unit_state =
      (Inr (Some [(''descendants'', JArr [sample_status ''11'' ''9'', sample_status ''13'' ''11'', JObj home_reply])]), unit_state)"
    by (simp add: sample_bridge_def table_transport_def table_get_def home_docs_def status_api_def as_document_def)
  from own_replies_come_home [OF sample_plain B f(1-3) ctx f(4-7)] show ?thesis by blast
qed

end
