(* ===== verification/Scanner.thy ===== *)
theory Scanner
  imports Outbound
begin

text \<open>
  The scanner over time (\<open>runScanner\<close> of \<open>outbound.go\<close>): scan after scan, with Follows accepted in
  between, and the automaton that each user's federation follows.
\<close>

section \<open>The loop\<close>

text \<open>
  \<open>runScanner\<close> until the context is done, one list element per round: the users for whom a Follow was
  accepted (\<open>start\<close>) since the round before.
\<close>

fun runScanner ::
  "'w nodeRequester \<Rightarrow> node_codec \<Rightarrow> 'w followerStore \<Rightarrow> string \<Rightarrow> string list list \<Rightarrow> fed \<Rightarrow> ('w, fed) gw" where
  "runScanner R C F scanUser [] f = ret f"
| "runScanner R C F scanUser (accepted # rounds) f = do {
     f' \<leftarrow> scan R C F scanUser (fold fed_start accepted f);
     runScanner R C F scanUser rounds f'
   }"

section \<open>The history of a run\<close>

datatype fed_event = Accepted string | Listed string "gw_error + string list"

fun fed_apply :: "fed_event \<Rightarrow> fed \<Rightarrow> fed" where
  "fed_apply (Accepted u) f = fed_start u f"
| "fed_apply (Listed u r) f = scan_read u r f"

text \<open>A read is of a user that the node listed on some page, is not bridged, and came from the store.\<close>

fun listed_read :: "node_codec \<Rightarrow> 'w followerStore \<Rightarrow> fed_event \<Rightarrow> bool" where
  "listed_read C F (Accepted u) \<longleftrightarrow> False"
| "listed_read C F (Listed u r) \<longleftrightarrow> (\<exists>bt us cur x. dc_users C bt = Some (us, cur) \<and> x \<in> set us \<and> usr_Id x = u \<and>
     usr_Network x \<noteq> mastodonNetwork \<and> (\<exists>t t'. run_state (fs_List F u) t = (r, t')))"

text \<open>
  The history of a run, read off the node and the store without any scanner: in each round the accepted
  Follows, then, page by page, the read of every user on the page that is not bridged from Mastodon.
\<close>

definition page_reads :: "'w followerStore \<Rightarrow> user list \<Rightarrow> ('w, fed_event list) gw" where
  "page_reads F us = map_gw (\<lambda>u. do { r \<leftarrow> fs_List F (usr_Id u); ret (Listed (usr_Id u) r) })
     [u \<leftarrow> us. usr_Network u \<noteq> mastodonNetwork]"

fun listing_reads ::
  "nat \<Rightarrow> 'w nodeRequester \<Rightarrow> node_codec \<Rightarrow> 'w followerStore \<Rightarrow> string \<Rightarrow> string \<Rightarrow> ('w, fed_event list) gw" where
  "listing_reads 0 R C F scanUser cursor = ret []"
| "listing_reads (Suc n) R C F scanUser cursor = do {
     page \<leftarrow> nr_request R routeGetUsers (GetAllUsersEvent scanUser (Some federationScanPageSize)
            (if cursor \<noteq> [] then Some cursor else None));
     (case (case page of Inl e \<Rightarrow> None | Inr bt \<Rightarrow> dc_users C bt) of
        None \<Rightarrow> ret []
      | Some (us, cursor') \<Rightarrow> do {
          es \<leftarrow> page_reads F us;
          rest \<leftarrow> (if us = [] \<or> cursor' = [] \<or> cursor' = cursor then ret [] else listing_reads n R C F scanUser cursor');
          ret (es @ rest)
        })
   }"

fun graph_history ::
  "'w nodeRequester \<Rightarrow> node_codec \<Rightarrow> 'w followerStore \<Rightarrow> string \<Rightarrow> string list list \<Rightarrow> ('w, fed_event list) gw" where
  "graph_history R C F scanUser [] = ret []"
| "graph_history R C F scanUser (accepted # rounds) = do {
     es \<leftarrow> listing_reads 100 R C F scanUser [];
     rest \<leftarrow> graph_history R C F scanUser rounds;
     ret (map Accepted accepted @ es @ rest)
   }"

lemma scan_users_history:
  "run_state (scan_users F us f) s =
     (fold fed_apply (fst (run_state (page_reads F us) s)) f, snd (run_state (page_reads F us) s))"
proof (induction us arbitrary: f s)
  case (Cons u us)
  show ?case
  proof (cases "usr_Network u = mastodonNetwork")
    case False
    obtain r s1 where r: "run_state (fs_List F (usr_Id u)) s = (r, s1)" by fastforce
    obtain es s2 where "run_state (page_reads F us) s1 = (es, s2)" by fastforce
    with r False Cons [of "scan_read (usr_Id u) r f" s1] show ?thesis by (simp add: page_reads_def)
  qed (use Cons in \<open>simp add: page_reads_def\<close>)
qed (simp add: page_reads_def)

lemma scan_pages_history:
  "run_state (scan_pages n R C F scanUser cursor f) s =
     (fold fed_apply (fst (run_state (listing_reads n R C F scanUser cursor) s)) f,
      snd (run_state (listing_reads n R C F scanUser cursor) s))"
proof (induction n arbitrary: cursor f s)
  case (Suc n)
  obtain page s1 where p: "run_state (nr_request R routeGetUsers (GetAllUsersEvent scanUser (Some federationScanPageSize)
      (if cursor \<noteq> [] then Some cursor else None))) s = (page, s1)" by fastforce
  show ?case
  proof (cases "\<exists>bt us cursor'. page = Inr bt \<and> dc_users C bt = Some (us, cursor')")
    case True
    then obtain bt us cursor' where d: "page = Inr bt" "dc_users C bt = Some (us, cursor')" by blast
    obtain es s2 where u: "run_state (page_reads F us) s1 = (es, s2)" by fastforce
    have f: "run_state (scan_users F us f) s1 = (fold fed_apply es f, s2)" by (simp add: scan_users_history u)
    obtain rest s3 where t: "run_state (listing_reads n R C F scanUser cursor') s2 = (rest, s3)" by fastforce
    show ?thesis using p d u f t Suc [of cursor' "fold fed_apply es f" s2] by simp
  next
    case False
    with p show ?thesis by (auto split: sum.splits option.splits)
  qed
qed simp

lemma fold_accepted: "fold fed_start us f = fold fed_apply (map Accepted us) f"
  by (induction us arbitrary: f) simp_all

text \<open>The scanner is the fold of its steps over that history, from every state of the world.\<close>

lemma run_history:
  "run_state (runScanner R C F scanUser rounds f) s =
     (fold fed_apply (fst (run_state (graph_history R C F scanUser rounds) s)) f,
      snd (run_state (graph_history R C F scanUser rounds) s))"
proof (induction rounds arbitrary: f s)
  case (Cons us rounds)
  obtain es s1 where l: "run_state (listing_reads federationScanMaxPages R C F scanUser []) s = (es, s1)" by fastforce
  obtain rest s2 where "run_state (graph_history R C F scanUser rounds) s1 = (rest, s2)" by fastforce
  then show ?case using l Cons
    by (simp add: scan_def scan_pages_history fold_accepted federationScanMaxPages_def)
qed simp

lemma map_gw_all:
  "run_state (map_gw f xs) s = (ys, s') \<Longrightarrow> y \<in> set ys \<Longrightarrow> \<exists>x\<in>set xs. \<exists>t t'. run_state (f x) t = (y, t')"
proof (induction xs arbitrary: s s' ys)
  case (Cons x xs)
  obtain z s1 where z: "run_state (f x) s = (z, s1)" by fastforce
  obtain zs s2 where zs: "run_state (map_gw f xs) s1 = (zs, s2)" by fastforce
  with Cons.prems z have "y = z \<or> y \<in> set zs" by auto
  with z Cons.IH [OF zs] show ?case by auto
qed simp

lemma page_reads_listed:
  assumes "run_state (page_reads F us) s = (es, s')" "dc_users C bt = Some (us, cur)" "e \<in> set es"
  shows "listed_read C F e"
proof -
  from map_gw_all [OF assms(1) [unfolded page_reads_def] assms(3)] obtain u t t' where
    u: "u \<in> set us" "usr_Network u \<noteq> mastodonNetwork"
      "run_state (do { r \<leftarrow> fs_List F (usr_Id u); ret (Listed (usr_Id u) r) }) t = (e, t')" by auto
  obtain r t1 where "run_state (fs_List F (usr_Id u)) t = (r, t1)" by fastforce
  with u(3) have e: "e = Listed (usr_Id u) r" "run_state (fs_List F (usr_Id u)) t = (r, t')" by simp_all
  show ?thesis unfolding e(1) listed_read.simps using assms(2) u(1,2) e(2) by blast
qed

lemma listing_reads_listed:
  "run_state (listing_reads n R C F scanUser cursor) s = (es, s') \<Longrightarrow> e \<in> set es \<Longrightarrow> listed_read C F e"
proof (induction n arbitrary: cursor s es)
  case (Suc n)
  then show ?case
    by (auto split: prod.splits sum.splits option.splits if_splits dest: page_reads_listed)
qed simp

lemma history_events:
  "run_state (graph_history R C F scanUser rounds) s = (h, s') \<Longrightarrow>
     [v. Accepted v \<leftarrow> h] = concat rounds \<and> (\<forall>u r. Listed u r \<in> set h \<longrightarrow> listed_read C F (Listed u r))"
proof (induction rounds arbitrary: s s' h)
  case (Cons us rounds)
  obtain es s1 where l: "run_state (listing_reads 100 R C F scanUser []) s = (es, s1)" by fastforce
  obtain rest s2 where g: "run_state (graph_history R C F scanUser rounds) s1 = (rest, s2)" by fastforce
  have h: "h = map Accepted us @ es @ rest" using Cons.prems l g by simp
  have listed: "\<forall>e\<in>set es. listed_read C F e" using listing_reads_listed [OF l] by blast
  then have "[v. Accepted v \<leftarrow> es] = []" by (auto split: fed_event.splits)
  moreover have "[v. Accepted v \<leftarrow> map Accepted us] = us" by (induction us) simp_all
  ultimately show ?case using Cons.IH [OF g] listed h by auto
qed simp

section \<open>The automaton of one user\<close>

text \<open>Whether the user is federated, and how many empty reads in a row the scanner has counted.\<close>

definition user_state :: "fed \<Rightarrow> string \<Rightarrow> bool \<times> nat" where
  "user_state f u = (federating f u, fd_empty f u)"

fun user_step :: "fed_event \<Rightarrow> bool \<times> nat \<Rightarrow> bool \<times> nat" where
  "user_step (Accepted _) (on, n) = (True, n)"
| "user_step (Listed _ (Inl _)) (on, n) = (on, n)"
| "user_step (Listed _ (Inr urls)) (on, n) = (if urls \<noteq> [] then (True, 0) else (on \<and> Suc n < 2, Suc n))"

fun event_user :: "fed_event \<Rightarrow> string" where
  "event_user (Accepted u) = u"
| "event_user (Listed u r) = u"

lemma apply_own: "u \<noteq> [] \<Longrightarrow> event_user e = u \<Longrightarrow> user_state (fed_apply e f) u = user_step e (user_state f u)"
proof (cases e)
  case (Listed v r)
  then show "u \<noteq> [] \<Longrightarrow> event_user e = u \<Longrightarrow> ?thesis"
    by (cases r) (auto simp: user_state_def scan_read_federating scan_read_empty trailing_step_def)
qed (auto simp: user_state_def fed_start_def federating_def)

lemma scan_read_empty_other: "v \<noteq> u \<Longrightarrow> fd_empty (scan_read u r f) v = fd_empty f v"
  by (auto simp: scan_read_def fed_start_def fed_stop_def Let_def split: sum.split)

lemma apply_other: "event_user e \<noteq> u \<Longrightarrow> user_state (fed_apply e f) u = user_state f u"
proof (cases e)
  case (Listed v r)
  then show "event_user e \<noteq> u \<Longrightarrow> ?thesis"
    by (simp add: user_state_def scan_read_other scan_read_empty_other)
qed (auto simp: user_state_def fed_start_def federating_def)

lemma user_history: "u \<noteq> [] \<Longrightarrow>
    user_state (fold fed_apply h f) u = fold user_step [e \<leftarrow> h. event_user e = u] (user_state f u)"
  by (induction h arbitrary: f) (auto simp: apply_own apply_other)

text \<open>
  C15: the scanner follows the follow graph.  Whatever the node lists and the stores answer, over any
  number of scans with Follows accepted in between, the run reads exactly what \<open>graph_history\<close> reads: in
  each round, on up to a hundred pages, the followers of every listed user that is not itself bridged
  from Mastodon.  And each user's federation is that user's own automaton run over those reads and the
  accepted Follows, in their order: a read that finds a follower and an accepted Follow start it, the
  second empty read in a row stops it, a failed read changes nothing.  The accepted Follows of the history
  are those of the rounds; and a user that is neither followed nor listed is never federated.
\<close>

theorem scanner_follows_the_graph:
  assumes run: "run_state (runScanner R C F scanUser rounds new_fed) s = (f', s')"
    and hist: "run_state (graph_history R C F scanUser rounds) s = (h, t)"
  shows "t = s' \<and>
    (\<forall>u. u \<noteq> [] \<longrightarrow> user_state f' u = fold user_step [e \<leftarrow> h. event_user e = u] (False, 0)) \<and>
    [v. Accepted v \<leftarrow> h] = concat rounds \<and>
    (\<forall>u r. Listed u r \<in> set h \<longrightarrow> listed_read C F (Listed u r)) \<and>
    (\<forall>u. u \<noteq> [] \<and> (\<forall>e\<in>set h. event_user e \<noteq> u) \<longrightarrow> \<not> federating f' u)"
proof -
  have n: "user_state new_fed u = (False, 0)" for u by (simp add: user_state_def new_fed_def federating_def)
  have f: "f' = fold fed_apply h new_fed" "t = s'" using run hist run_history [of R C F scanUser rounds new_fed s] by simp_all
  have st: "user_state f' u = fold user_step [e \<leftarrow> h. event_user e = u] (False, 0)" if "u \<noteq> []" for u
    using user_history [OF that, of h new_fed] by (simp add: f(1) n)
  have off: "\<not> federating f' u" if u: "u \<noteq> []" and e: "\<forall>e\<in>set h. event_user e \<noteq> u" for u
  proof -
    have "[e \<leftarrow> h. event_user e = u] = []" using e by simp
    with st [OF u] show ?thesis by (simp add: user_state_def)
  qed
  show ?thesis using f(2) st off history_events [OF hist] by blast
qed

definition sample_listing :: node_codec where
  "sample_listing = (nc_codec sample_node_env)\<lparr>dc_users := (\<lambda>_. Some ([\<lparr>usr_Id = ''bob'', usr_Username = [], usr_Bio = [],
     usr_NodeId = [], usr_Network = [], usr_AvatarKey = [], usr_BackgroundImageKey = [], usr_CreatedAt = 0,
     usr_Website = None, usr_FollowersCount = 0, usr_FollowingsCount = 0, usr_TweetsCount = 0\<rparr>], []))\<rparr>"

text \<open>A store in which nobody has a follower: bob, listed and accepted first, is stopped; carol stays.\<close>

definition sample_store :: "'w followerStore" where
  "sample_store = \<lparr>fs_Add = (\<lambda>_ _. ret None), fs_List = (\<lambda>_. ret (Inr []))\<rparr>"

lemma sample_listing_reads:
  "run_state (listing_reads (Suc n) sample_requester sample_listing sample_store ''me'' []) s = ([Listed ''bob'' (Inr [])], s)"
  by (simp add: page_reads_def sample_requester_def sample_listing_def sample_store_def mastodonNetwork_def)

lemma sample_history:
  "fst (run_state (graph_history sample_requester sample_listing sample_store ''me'' [[''bob''], [''carol'']]) s) =
     [Accepted ''bob'', Listed ''bob'' (Inr []), Accepted ''carol'', Listed ''bob'' (Inr [])]"
  using sample_listing_reads [of 99] by simp

lemma scanner_follows_the_graph_witness:
  "\<exists>f' s'. run_state (runScanner sample_requester sample_listing sample_store ''me'' [[''bob''], [''carol'']] new_fed) (start_state {}) = (f', s') \<and>
    \<not> federating f' ''bob'' \<and> federating f' ''carol'' \<and> \<not> federating f' ''dave''"
proof -
  let ?s = "start_state {}" and ?R = sample_requester and ?C = sample_listing and ?F = sample_store and ?r = "[[''bob''], [''carol'']]"
  obtain f' s' where run: "run_state (runScanner ?R ?C ?F ''me'' ?r new_fed) ?s = (f', s')" by fastforce
  obtain h t where hist: "run_state (graph_history ?R ?C ?F ''me'' ?r) ?s = (h, t)" by fastforce
  then have h: "h = [Accepted ''bob'', Listed ''bob'' (Inr []), Accepted ''carol'', Listed ''bob'' (Inr [])]"
    using sample_history [of ?s] by simp
  from scanner_follows_the_graph [OF run hist] have
    st: "\<forall>u. u \<noteq> [] \<longrightarrow> user_state f' u = fold user_step [e \<leftarrow> h. event_user e = u] (False, 0)" by blast
  have "user_state f' ''bob'' = (False, 2)" "user_state f' ''carol'' = (True, 0)" "user_state f' ''dave'' = (False, 0)"
    using st by (simp_all add: h)
  with run show ?thesis by (simp add: user_state_def)
qed

end
