(* ===== verification/Seen_Cache.thy ===== *)
theory Seen_Cache
  imports Federation
begin

text \<open>
  What the tweet poller's seen set forgets (\<open>tweetpoller.go\<close>): it is an expirable cache of bounded size,
  so that a tweet can be published again once the cache has dropped it.  The cache is third-party code;
  its documented behaviour, that an entry stays until its time to live has passed since it was last
  added or as many other entries have been added since as the cache holds, is a hypothesis.
\<close>

definition tweetSeenSize :: nat where "tweetSeenSize = 8192"
definition tweetSeenTTL :: int where "tweetSeenTTL = 24 * 3600 * 1000000000"

section \<open>The contract of the cache\<close>

text \<open>
  \<open>hist\<close> observes what was added when, the last addition first, and \<open>clock\<close> the time.  An entry is kept
  as long as it is recent.
\<close>

definition recent :: "nat \<Rightarrow> int \<Rightarrow> (string \<times> gotime) list \<Rightarrow> gotime \<Rightarrow> string \<Rightarrow> bool" where
  "recent cap ttl hs t i \<longleftrightarrow>
     (\<exists>xs ta ys. hs = xs @ (i, ta) # ys \<and> t - ta < ttl \<and> card (fst ` set xs) < cap)"

definition expiring :: "'w seen_cache \<Rightarrow> ('w \<Rightarrow> gotime) \<Rightarrow> ('w \<Rightarrow> (string \<times> gotime) list) \<Rightarrow> nat \<Rightarrow> int \<Rightarrow> bool" where
  "expiring S clock hist cap ttl \<longleftrightarrow>
     (\<forall>i w. hist (sn_add S i w) = (i, clock w) # hist w \<and> clock w \<le> clock (sn_add S i w)) \<and>
     (\<forall>i w. recent cap ttl (hist w) (clock w) i \<longrightarrow> sn_has S i w)"

text \<open>Everything else the poller does takes time and leaves the cache alone.\<close>

definition apart :: "('w \<Rightarrow> gotime) \<Rightarrow> ('w \<Rightarrow> (string \<times> gotime) list) \<Rightarrow> ('w, 'a) gw \<Rightarrow> bool" where
  "apart clock hist m \<longleftrightarrow> (\<forall>s. hist (st_world (snd (run_state m s))) = hist (st_world s) \<and>
     clock (st_world s) \<le> clock (st_world (snd (run_state m s))))"

definition seen_contract ::
  "'w seen_cache \<Rightarrow> 'w nodeRequester \<Rightarrow> (tweet \<Rightarrow> ('w, unit) gw) \<Rightarrow> ('w \<Rightarrow> gotime) \<Rightarrow> ('w \<Rightarrow> (string \<times> gotime) list) \<Rightarrow> bool" where
  "seen_contract S R publish clock hist \<longleftrightarrow> expiring S clock hist tweetSeenSize tweetSeenTTL \<and>
     (\<forall>u r p. apart clock hist (nr_requestUser R u r p)) \<and> (\<forall>t. apart clock hist (publish t))"

section \<open>One round\<close>

text \<open>\<open>grew clock hist w w' zs\<close>: from \<open>w\<close> to \<open>w'\<close> the entries \<open>zs\<close> were added, in between.\<close>

definition grew ::
  "('w \<Rightarrow> gotime) \<Rightarrow> ('w \<Rightarrow> (string \<times> gotime) list) \<Rightarrow> 'w \<Rightarrow> 'w \<Rightarrow> (string \<times> gotime) list \<Rightarrow> bool" where
  "grew clock hist w w' zs \<longleftrightarrow> hist w' = zs @ hist w \<and> clock w \<le> clock w' \<and> (\<forall>z\<in>set zs. clock w \<le> snd z)"

lemma grew_trans: "grew clock hist w w1 xs \<Longrightarrow> grew clock hist w1 w2 ys \<Longrightarrow> grew clock hist w w2 (ys @ xs)"
  by (force simp: grew_def)

lemma grew_apart: "apart clock hist m \<Longrightarrow> run_state m s = (a, s') \<Longrightarrow> grew clock hist (st_world s) (st_world s') []"
  by (metis apart_def append_Nil grew_def list.set(1) empty_iff snd_conv)

lemma grew_add: "expiring S clock hist n d \<Longrightarrow> grew clock hist w (sn_add S i w) [(i, clock w)]"
  by (simp add: expiring_def grew_def)

lemma grew_fetch:
  assumes "seen_contract S R publish clock hist" "run_state (tweets_fetch R C owner) s = (ts, s1)"
  shows "grew clock hist (st_world s) (st_world s1) []"
proof -
  obtain r where "run_state (nr_requestUser R owner routeGetTweets (GetAllTweetsEvent owner [] [] None None)) s = (r, s1)"
    using assms(2) by (auto simp: tweets_fetch_def split: prod.splits)
  with assms(1) grew_apart show ?thesis unfolding seen_contract_def by metis
qed

lemma grew_seed:
  assumes "expiring S clock hist n d" "run_state (seed_seen S ts) s = ((), s')"
  shows "\<exists>zs. grew clock hist (st_world s) (st_world s') zs \<and> map fst zs = rev (map t_Id ts)"
  using assms(2)
proof (induction ts arbitrary: s)
  case (Cons t ts)
  let ?s1 = "s\<lparr>st_world := sn_add S (t_Id t) (st_world s)\<rparr>"
  have "run_state (seed_seen S ts) ?s1 = ((), s')" using Cons.prems by simp
  from Cons.IH [OF this] obtain zs where
    "grew clock hist (st_world ?s1) (st_world s') zs" "map fst zs = rev (map t_Id ts)" by blast
  moreover have "grew clock hist (st_world s) (st_world ?s1) [(t_Id t, clock (st_world s))]"
    using grew_add [OF assms(1)] by simp
  ultimately show ?case
    by (intro exI [of _ "zs @ [(t_Id t, clock (st_world s))]"] conjI) (blast intro: grew_trans, simp)
qed (auto simp: grew_def)

text \<open>A published tweet was not in the cache when its turn came.\<close>

lemma poll_seen_log:
  assumes ok: "seen_contract S R publish clock hist" and run: "run_state (poll_seen S owner publish ts) s = (ps, s')"
  shows "(\<exists>zs. grew clock hist (st_world s) (st_world s') zs \<and> map fst zs = rev (map t_Id ts)) \<and>
    (\<forall>t\<in>set ps. t \<in> set ts \<and> publishableTweet t owner \<and>
      (\<exists>w zs. grew clock hist (st_world s) w zs \<and> length zs < length ts \<and> clock w \<le> clock (st_world s') \<and> \<not> sn_has S (t_Id t) w))"
  using run
proof (induction ts arbitrary: s ps)
  case (Cons t ts)
  have e: "expiring S clock hist tweetSeenSize tweetSeenTTL" and pub: "\<forall>t. apart clock hist (publish t)"
    using ok by (simp_all add: seen_contract_def)
  let ?w = "st_world s" and ?s1 = "s\<lparr>st_world := sn_add S (t_Id t) (st_world s)\<rparr>"
  have add: "grew clock hist ?w (st_world ?s1) [(t_Id t, clock ?w)]" using grew_add [OF e] by simp
  obtain s2 qs where s2: "grew clock hist (st_world ?s1) (st_world s2) []"
    "run_state (poll_seen S owner publish ts) s2 = (qs, s')"
    "ps = (if sn_has S (t_Id t) ?w \<or> \<not> publishableTweet t owner then qs else t # qs)"
  proof (cases "sn_has S (t_Id t) ?w \<or> \<not> publishableTweet t owner")
    case True
    with Cons.prems show ?thesis by (intro that [of ?s1 ps]) (auto simp: grew_def)
  next
    case False
    obtain s2 where p: "run_state (publish t) ?s1 = ((), s2)" by (metis old.unit.exhaust surj_pair)
    obtain qs where "run_state (poll_seen S owner publish ts) s2 = (qs, s')" "ps = t # qs"
      using Cons.prems False p by (auto split: prod.splits)
    with False grew_apart [OF _ p] pub show ?thesis by (intro that [of s2 qs]) auto
  qed
  from grew_trans [OF add s2(1)] have to: "grew clock hist ?w (st_world s2) [(t_Id t, clock ?w)]" by simp
  from Cons.IH [OF s2(2)] obtain zs where zs: "grew clock hist (st_world s2) (st_world s') zs" "map fst zs = rev (map t_Id ts)"
    and IH: "\<forall>t\<in>set qs. t \<in> set ts \<and> publishableTweet t owner \<and>
      (\<exists>w zs. grew clock hist (st_world s2) w zs \<and> length zs < length ts \<and> clock w \<le> clock (st_world s') \<and> \<not> sn_has S (t_Id t) w)"
    by blast
  from grew_trans [OF to zs(1)] zs(2) have all: "\<exists>zs. grew clock hist ?w (st_world s') zs \<and> map fst zs = rev (map t_Id (t # ts))"
    by (intro exI [of _ "zs @ [(t_Id t, clock ?w)]"]) simp
  have end_: "clock ?w \<le> clock (st_world s')" using all by (auto simp: grew_def)
  have "x \<in> set (t # ts) \<and> publishableTweet x owner \<and>
      (\<exists>w zs. grew clock hist ?w w zs \<and> length zs < length (t # ts) \<and> clock w \<le> clock (st_world s') \<and> \<not> sn_has S (t_Id x) w)"
    if x: "x \<in> set ps" for x
  proof (cases "x \<in> set qs")
    case True
    with IH obtain w zs where w: "grew clock hist (st_world s2) w zs" "length zs < length ts" "clock w \<le> clock (st_world s')"
      "\<not> sn_has S (t_Id x) w" and m: "x \<in> set ts" "publishableTweet x owner" by blast
    from grew_trans [OF to w(1)] w(2-4) m show ?thesis
      by (intro conjI exI [of _ w] exI [of _ "zs @ [(t_Id t, clock ?w)]"]) auto
  next
    case False
    with x s2(3) have "x = t" "\<not> sn_has S (t_Id t) ?w" "publishableTweet t owner" by (auto split: if_splits)
    moreover have "grew clock hist ?w ?w []" by (simp add: grew_def)
    ultimately show ?thesis using end_ by (intro conjI exI [of _ ?w] exI [of _ "[]"]) auto
  qed
  with all show ?case by blast
qed (auto simp: grew_def)

section \<open>All rounds\<close>

text \<open>
  The state before a poller's \<open>k\<close>-th fetch, the one at the start being number zero, and the page that
  this fetch yields: none when the read fails.
\<close>

definition before_fetch ::
  "nat \<Rightarrow> 'w nodeRequester \<Rightarrow> node_codec \<Rightarrow> 'w seen_cache \<Rightarrow> string \<Rightarrow> (tweet \<Rightarrow> ('w, unit) gw) \<Rightarrow> 'w gw_state \<Rightarrow> 'w gw_state" where
  "before_fetch k R C S owner publish s = (case k of
     0 \<Rightarrow> s | Suc n \<Rightarrow> snd (run_state (tweet_run n R C S owner publish) s))"

definition fetched_page ::
  "nat \<Rightarrow> 'w nodeRequester \<Rightarrow> node_codec \<Rightarrow> 'w seen_cache \<Rightarrow> string \<Rightarrow> (tweet \<Rightarrow> ('w, unit) gw) \<Rightarrow> 'w gw_state \<Rightarrow> tweet list" where
  "fetched_page k R C S owner publish s = fst (run_state (tweets_fetch R C owner) (before_fetch k R C S owner publish s))"

lemma rounds_snoc:
  assumes "run_state (poll_rounds n R C S owner publish) s = (ps, s1)" "run_state (poll R C S owner publish) s1 = (p, s2)"
  shows "run_state (poll_rounds (Suc n) R C S owner publish) s = (ps @ [p], s2)"
  using assms(1)
proof (induction n arbitrary: s ps)
  case (Suc n)
  obtain q t qs where q: "run_state (poll R C S owner publish) s = (q, t)"
    "run_state (poll_rounds n R C S owner publish) t = (qs, s1)" "ps = q # qs"
    using Suc.prems by (auto split: prod.splits)
  from Suc.IH [OF q(2)] have "run_state (poll_rounds (Suc n) R C S owner publish) t = (qs @ [p], s2)" .
  with q show ?case unfolding poll_rounds.simps(2) [of "Suc n"] by (simp del: poll_rounds.simps)
qed (use assms(2) in simp)

lemma run_snoc:
  assumes "run_state (tweet_run n R C S owner publish) s = (ps, s1)" "run_state (poll R C S owner publish) s1 = (p, s2)"
  shows "run_state (tweet_run (Suc n) R C S owner publish) s = (ps @ [p], s2)"
proof -
  obtain t where t: "run_state (poll_start R C S owner) s = ((), t)" by (metis old.unit.exhaust surj_pair)
  with assms(1) have "run_state (poll_rounds n R C S owner publish) t = (ps, s1)" by (simp add: tweet_run_def)
  from rounds_snoc [OF this assms(2)] t show ?thesis by (simp add: tweet_run_def del: poll_rounds.simps)
qed

text \<open>The \<open>k\<close>-th round polls in the state before fetch \<open>Suc k\<close> and leaves the one before the next.\<close>

lemma run_round:
  assumes "run_state (tweet_run n R C S owner publish) s = (rounds, s')"
  shows "length rounds = n \<and> (\<forall>k<n. run_state (poll R C S owner publish) (before_fetch (Suc k) R C S owner publish s) =
    (rounds ! k, before_fetch (Suc (Suc k)) R C S owner publish s))"
  using assms
proof (induction n arbitrary: rounds s')
  case 0
  then show ?case by (auto simp: tweet_run_def split: prod.splits)
next
  case (Suc n)
  obtain ps s1 where r1: "run_state (tweet_run n R C S owner publish) s = (ps, s1)" by fastforce
  obtain p s2 where "run_state (poll R C S owner publish) s1 = (p, s2)" by fastforce
  with Suc.prems run_snoc [OF r1 this] have r: "run_state (tweet_run n R C S owner publish) s = (ps, s1)"
    "run_state (poll R C S owner publish) s1 = (p, s')" "rounds = ps @ [p]" using r1 by simp_all
  have b: "before_fetch (Suc n) R C S owner publish s = s1" "before_fetch (Suc (Suc n)) R C S owner publish s = s'"
    using r(1) Suc.prems by (simp_all add: before_fetch_def)
  note IH = Suc.IH [OF r(1)]
  then show ?case using r b by (auto simp: nth_append less_Suc_eq)
qed

lemma fetch_adds:
  assumes ok: "seen_contract S R publish clock hist"
  shows "\<exists>zs. grew clock hist (st_world (before_fetch k R C S owner publish s))
      (st_world (before_fetch (Suc k) R C S owner publish s)) zs \<and>
    map fst zs = rev (map t_Id (fetched_page k R C S owner publish s))"
proof -
  let ?b = "before_fetch k R C S owner publish s" and ?b' = "before_fetch (Suc k) R C S owner publish s"
  have e: "expiring S clock hist tweetSeenSize tweetSeenTTL" using ok by (simp add: seen_contract_def)
  obtain ts s1 where f: "run_state (tweets_fetch R C owner) ?b = (ts, s1)" by fastforce
  have pg: "fetched_page k R C S owner publish s = ts" using f by (simp add: fetched_page_def)
  have "\<exists>zs. grew clock hist (st_world s1) (st_world ?b') zs \<and> map fst zs = rev (map t_Id ts)"
  proof (cases k)
    case 0
    obtain s2 where d: "run_state (seed_seen S ts) s1 = ((), s2)" by (metis old.unit.exhaust surj_pair)
    have "?b' = s2" using f d 0 by (simp add: before_fetch_def tweet_run_def poll_start_def)
    with grew_seed [OF e d] show ?thesis by simp
  next
    case (Suc n)
    obtain rounds s' where r: "run_state (tweet_run (Suc n) R C S owner publish) s = (rounds, s')" by fastforce
    from run_round [OF r] have "run_state (poll R C S owner publish) ?b = (rounds ! n, ?b')" using Suc by simp
    then obtain ps where "run_state (poll_seen S owner publish ts) s1 = (ps, ?b')"
      using f by (auto simp: poll_def split: prod.splits)
    from poll_seen_log [OF ok this] show ?thesis by blast
  qed
  then obtain zs where zs: "grew clock hist (st_world s1) (st_world ?b') zs" "map fst zs = rev (map t_Id ts)" by blast
  from grew_trans [OF grew_fetch [OF ok f] zs(1)] zs(2) pg show ?thesis by auto
qed

text \<open>What was on a page stays in the history, behind at most what the pages since have added.\<close>

lemma page_remembered:
  assumes ok: "seen_contract S R publish clock hist" and i: "i \<in> t_Id ` set (fetched_page m R C S owner publish s)"
  shows "\<exists>xs ta ys. hist (st_world (before_fetch (Suc (m + d)) R C S owner publish s)) = xs @ (i, ta) # ys \<and>
    clock (st_world (before_fetch m R C S owner publish s)) \<le> ta \<and>
    length xs < (\<Sum>j=m..m+d. length (fetched_page j R C S owner publish s))"
proof (induction d)
  case 0
  from fetch_adds [OF ok] obtain zs where z: "grew clock hist (st_world (before_fetch m R C S owner publish s))
      (st_world (before_fetch (Suc m) R C S owner publish s)) zs"
    "map fst zs = rev (map t_Id (fetched_page m R C S owner publish s))" by blast
  have "i \<in> set (map fst zs)" using i unfolding z(2) by simp
  then obtain ta where "(i, ta) \<in> set zs" by auto
  then obtain xs ys where xs: "zs = xs @ (i, ta) # ys" by (meson split_list)
  have "length zs = length (fetched_page m R C S owner publish s)" using z(2) by (metis length_map length_rev)
  with z(1) xs show ?case
    by (intro exI [of _ xs] exI [of _ ta] exI [of _ "ys @ hist (st_world (before_fetch m R C S owner publish s))"])
      (auto simp: grew_def)
next
  case (Suc d)
  then obtain xs ta ys where xs: "hist (st_world (before_fetch (Suc (m + d)) R C S owner publish s)) = xs @ (i, ta) # ys"
    "clock (st_world (before_fetch m R C S owner publish s)) \<le> ta"
    "length xs < (\<Sum>j=m..m+d. length (fetched_page j R C S owner publish s))" by blast
  from fetch_adds [OF ok, of "Suc (m + d)"] obtain zs where z:
    "grew clock hist (st_world (before_fetch (Suc (m + d)) R C S owner publish s))
      (st_world (before_fetch (Suc (Suc (m + d))) R C S owner publish s)) zs"
    "map fst zs = rev (map t_Id (fetched_page (Suc (m + d)) R C S owner publish s))" by blast
  have "length zs = length (fetched_page (Suc (m + d)) R C S owner publish s)" using z(2) by (metis length_map length_rev)
  with xs z(1) show ?case
    by (intro exI [of _ "zs @ xs"] exI [of _ ta] exI [of _ ys]) (auto simp: grew_def)
qed

text \<open>
  C17: a tweet is published again only if the seen set has forgotten it.  A tweet that a poller publishes
  is an original top-level tweet of its owner on the page it just fetched; and if it was on an earlier
  page too, the one read at the start included, then it is because the cache's time to live has passed
  since that page was fetched, or because the pages from that one on have had more tweets than
  the cache holds.  So a tweet that stays on the page is published once, and a failed read, which is
  an empty page, does no harm until the reads have failed for the whole time to live.
\<close>

theorem republished_only_when_forgotten:
  assumes ok: "seen_contract S R publish clock hist" and run: "run_state (tweet_run n R C S owner publish) s = (rounds, s')"
    and page: "\<And>k. page k = fetched_page k R C S owner publish s"
    and time: "\<And>k. time k = clock (st_world (before_fetch k R C S owner publish s))"
  shows "length rounds = n \<and> (\<forall>k<n. \<forall>t\<in>set (rounds ! k). t \<in> set (page (Suc k)) \<and>
    t_UserId t = owner \<and> t_RetweetedBy t = None \<and> (t_ParentId t = None \<or> t_ParentId t = Some []) \<and>
    (\<forall>m\<le>k. t_Id t \<in> t_Id ` set (page m) \<longrightarrow>
      tweetSeenTTL \<le> time (Suc (Suc k)) - time m \<or> tweetSeenSize < (\<Sum>j=m..Suc k. length (page j))))"
proof (intro conjI allI impI ballI)
  note r = run_round [OF run]
  from r show "length rounds = n" by blast
  fix k t assume k: "k < n" and t: "t \<in> set (rounds ! k)"
  let ?b = "\<lambda>k. before_fetch k R C S owner publish s"
  obtain s1 where f: "run_state (tweets_fetch R C owner) (?b (Suc k)) = (page (Suc k), s1)"
    using page by (metis fetched_page_def prod.collapse)
  with r k have "run_state (poll_seen S owner publish (page (Suc k))) s1 = (rounds ! k, ?b (Suc (Suc k)))"
    by (auto simp: poll_def split: prod.splits)
  from poll_seen_log [OF ok this, THEN conjunct2] t obtain w zs where
    w: "grew clock hist (st_world s1) w zs" "length zs < length (page (Suc k))" "clock w \<le> time (Suc (Suc k))"
      "\<not> sn_has S (t_Id t) w" and tp: "t \<in> set (page (Suc k))" "publishableTweet t owner" unfolding time by blast
  show "t \<in> set (page (Suc k))" by (rule tp(1))
  show "t_UserId t = owner" "t_RetweetedBy t = None" "t_ParentId t = None \<or> t_ParentId t = Some []"
    using tp(2) by (simp_all add: publishableTweet_def)
  fix m assume m: "m \<le> k" "t_Id t \<in> t_Id ` set (page m)"
  from page_remembered [OF ok m(2) [unfolded page], of "k - m"] m(1) obtain xs ta ys where
    xs: "hist (st_world (?b (Suc k))) = xs @ (t_Id t, ta) # ys" "time m \<le> ta" "length xs < (\<Sum>j=m..k. length (page j))"
    unfolding page [symmetric] time by auto
  from grew_trans [OF grew_fetch [OF ok f] w(1)] have h: "hist w = (zs @ xs) @ (t_Id t, ta) # ys"
    using xs(1) by (simp add: grew_def)
  have "expiring S clock hist tweetSeenSize tweetSeenTTL" using ok by (simp add: seen_contract_def)
  with w(4) have "\<not> recent tweetSeenSize tweetSeenTTL (hist w) (clock w) (t_Id t)" unfolding expiring_def by blast
  with h have "tweetSeenTTL \<le> clock w - ta \<or> tweetSeenSize \<le> card (fst ` set (zs @ xs))"
    unfolding recent_def by (metis linorder_not_le)
  moreover have "card (fst ` set (zs @ xs)) \<le> length (zs @ xs)"
    by (metis card_length length_map list.set_map)
  moreover have "length (zs @ xs) < (\<Sum>j=m..Suc k. length (page j))" using w(2) xs(3) m(1) by simp
  ultimately show "tweetSeenTTL \<le> time (Suc (Suc k)) - time m \<or> tweetSeenSize < (\<Sum>j=m..Suc k. length (page j))"
    using w(3) xs(2) by linarith
qed

section \<open>An outage\<close>

text \<open>
  A world with a clock and the history of the cache, in which each read takes thirteen hours and the
  second one fails: the tweet read at the start is published by the second round.
\<close>

definition hours :: "int \<Rightarrow> gotime" where "hours n = n * 3600 * 1000000000"

definition outage_cache :: "(gotime \<times> (string \<times> gotime) list) seen_cache" where
  "outage_cache = \<lparr>sn_has = (\<lambda>i (t, h). list_ex (\<lambda>(j, ta). j = i \<and> t - ta < tweetSeenTTL) h),
     sn_add = (\<lambda>i (t, h). (t, (i, t) # h))\<rparr>"

definition outage_requester :: "(gotime \<times> (string \<times> gotime) list) nodeRequester" where
  "outage_requester = \<lparr>nr_request = (\<lambda>_ _. ret (Inr ''b'')), nr_requestUser = (\<lambda>_ _ _.
     world (\<lambda>(t, h). (if t = hours 13 then Inl ErrNetwork else Inr ''b'', (t + hours 13, h))))\<rparr>"

lemma outage_contract: "seen_contract outage_cache outage_requester (\<lambda>_. ret ()) fst snd"
proof -
  have "sn_has outage_cache i w" if "recent tweetSeenSize tweetSeenTTL (snd w) (fst w) i" for i w
    using that by (cases w) (auto simp: recent_def outage_cache_def list_ex_iff)
  moreover have "hours 13 \<ge> 0" by (simp add: hours_def)
  ultimately show ?thesis
    by (auto simp: seen_contract_def expiring_def apart_def outage_requester_def outage_cache_def split: prod.split)
qed

definition outage_tweet :: tweet where
  "outage_tweet = zero_tweet\<lparr>t_Id := ''1'', t_UserId := ''alice''\<rparr>"

definition outage_codec :: node_codec where
  "outage_codec = (nc_codec sample_node_env)\<lparr>dc_tweets := (\<lambda>_. Some ([outage_tweet], []))\<rparr>"

lemma outage_run:
  "run_state (tweet_run 2 outage_requester outage_codec outage_cache ''alice'' (\<lambda>_. ret ())) (start_state (0, []))
    = ([[], [outage_tweet]], start_state (hours 39, [(''1'', hours 39), (''1'', hours 13)]))"
  by (simp add: tweet_run_def poll_start_def poll_def tweets_fetch_def outage_requester_def outage_codec_def outage_cache_def
      outage_tweet_def publishableTweet_def zero_tweet_def numeral_2_eq_2 start_state_def hours_def tweetSeenTTL_def)

lemma republished_only_when_forgotten_witness:
  "outage_tweet \<in> set (fst (run_state (tweet_run 2 outage_requester outage_codec outage_cache ''alice'' (\<lambda>_. ret ()))
      (start_state (0, []))) ! 1) \<and>
   outage_tweet \<in> set (fetched_page 0 outage_requester outage_codec outage_cache ''alice'' (\<lambda>_. ret ()) (start_state (0, []))) \<and>
   (tweetSeenTTL \<le> fst (st_world (before_fetch 3 outage_requester outage_codec outage_cache ''alice'' (\<lambda>_. ret ()) (start_state (0, [])))) -
      fst (st_world (before_fetch 0 outage_requester outage_codec outage_cache ''alice'' (\<lambda>_. ret ()) (start_state (0, [])))) \<or>
    tweetSeenSize < (\<Sum>j=0..2. length (fetched_page j outage_requester outage_codec outage_cache ''alice'' (\<lambda>_. ret ()) (start_state (0, [])))))"
proof -
  let ?page = "\<lambda>k. fetched_page k outage_requester outage_codec outage_cache ''alice'' (\<lambda>_. ret ()) (start_state (0, []))"
  let ?time = "\<lambda>k. fst (st_world (before_fetch k outage_requester outage_codec outage_cache ''alice'' (\<lambda>_. ret ()) (start_state (0, []))))"
  have p: "outage_tweet \<in> set (?page 0)"
    by (simp add: fetched_page_def before_fetch_def tweets_fetch_def outage_requester_def outage_codec_def start_state_def hours_def)
  have r: "outage_tweet \<in> set ([[], [outage_tweet]] ! 1)" by simp
  have i: "t_Id outage_tweet \<in> t_Id ` set (?page 0)" using p by (rule imageI)
  note T = republished_only_when_forgotten [OF outage_contract outage_run, of ?page ?time, OF refl refl,
      THEN conjunct2, rule_format, of 1 outage_tweet]
  have "1 < (2::nat)" "0 \<le> (1::nat)" "Suc (Suc 1) = 3" "Suc 1 = (2::nat)" by simp_all
  with T r i have "tweetSeenTTL \<le> ?time 3 - ?time 0 \<or> tweetSeenSize < (\<Sum>j=0..2. length (?page j))" by metis
  with p show ?thesis unfolding outage_run by simp
qed

end
