(* ===== verification/Traces.thy ===== *)
theory Traces
  imports Notes "HOL-Library.Multiset"
begin

text \<open>
  Random tokens (\<open>randomToken\<close> of \<open>server.go\<close>) and request traces (\<open>trace.go\<close>): the numbering of the
  fetches that one libp2p request fans out to, as its goroutines interleave.
\<close>

section \<open>Random tokens\<close>

definition hex_digit :: "nat \<Rightarrow> char" where
  "hex_digit n = ''0123456789abcdef'' ! n"

definition hex_byte :: "char \<Rightarrow> string" where
  "hex_byte c = [hex_digit (of_char c div 16), hex_digit (of_char c mod 16)]"

text \<open>\<open>hex.EncodeToString\<close>.\<close>

definition hex_encode :: "string \<Rightarrow> string" where
  "hex_encode s = concat (map hex_byte s)"

text \<open>The token made of the eight bytes the system's random source fills the buffer with.\<close>

definition randomToken :: "('w \<Rightarrow> string \<times> 'w) \<Rightarrow> 'w \<Rightarrow> string \<times> 'w" where
  "randomToken rand w = (case rand w of (b, w') \<Rightarrow> (hex_encode b, w'))"

lemma hex_digit_mem: "n < 16 \<Longrightarrow> hex_digit n \<in> set ''0123456789abcdef''"
  unfolding hex_digit_def by (rule nth_mem) simp

lemma hex_digit_inj: "m < 16 \<Longrightarrow> n < 16 \<Longrightarrow> hex_digit m = hex_digit n \<longleftrightarrow> m = n"
proof -
  have "distinct ''0123456789abcdef''" by simp
  then show "m < 16 \<Longrightarrow> n < 16 \<Longrightarrow> ?thesis" by (simp add: hex_digit_def nth_eq_iff_index_eq)
qed

lemma nibbles: "(of_char c :: nat) div 16 < 16" "(of_char c :: nat) mod 16 < 16"
proof -
  have "(of_char c :: nat) < 256" by simp
  then show "(of_char c :: nat) div 16 < 16" by (intro less_mult_imp_div_less) simp
qed simp

lemma length_hex: "length (hex_encode s) = 2 * length s"
  by (induction s) (simp_all add: hex_encode_def hex_byte_def)

lemma hex_encode_bytes: "c \<in> set (hex_encode s) \<Longrightarrow> c \<in> set ''0123456789abcdef''"
proof -
  assume "c \<in> set (hex_encode s)"
  then obtain x where "c = hex_digit (of_char x div 16) \<or> c = hex_digit (of_char x mod 16)"
    by (auto simp: hex_encode_def hex_byte_def)
  then show "c \<in> set ''0123456789abcdef''" using nibbles [of x] hex_digit_mem by blast
qed

lemma hex_byte_inj: "hex_byte c = hex_byte d \<longleftrightarrow> c = d"
proof
  assume "hex_byte c = hex_byte d"
  then have "(of_char c :: nat) div 16 = of_char d div 16" "(of_char c :: nat) mod 16 = of_char d mod 16"
    using nibbles by (auto simp: hex_byte_def hex_digit_inj)
  then have "(of_char c :: nat) = of_char d" by (metis div_mult_mod_eq)
  then show "c = d" by simp
qed simp

lemma hex_encode_inj: "hex_encode s = hex_encode t \<longleftrightarrow> s = t"
proof (induction s arbitrary: t)
  case Nil
  then show ?case by (cases t) (auto simp: hex_encode_def hex_byte_def)
next
  case (Cons c s)
  show ?case
  proof (cases t)
    case Nil
    then show ?thesis by (simp add: hex_encode_def hex_byte_def)
  next
    case t: (Cons d t')
    have "length (hex_byte c) = length (hex_byte d)" by (simp add: hex_byte_def)
    with Cons.IH [of t'] t show ?thesis by (simp add: hex_encode_def hex_byte_inj)
  qed
qed

lemma hex_plain: "s \<noteq> [] \<Longrightarrow> plain_name (hex_encode s)"
proof -
  assume s: "s \<noteq> []"
  have u: "\<forall>c\<in>set ''0123456789abcdef''. is_unreserved c" by code_simp
  have "hex_encode s \<noteq> []" using length_hex [of s] s by auto
  moreover have "hex_encode s \<noteq> ''.''" using length_hex [of s] by (metis One_nat_def length_Cons list.size(3) odd_one even_mult_iff even_numeral)
  ultimately show ?thesis using u hex_encode_bytes unfolding plain_name_def by blast
qed

text \<open>
  A generated id is a valid one.  A token has sixteen hexadecimal digits, so that a trace id is
  always eight of them; distinct random bytes give distinct tokens; and a reply that arrives without an
  id is federated under a URL that leads back to its author and the token.
\<close>

theorem random_tokens_are_ids:
  assumes "rand w = (b, w')" "length b = 8"
  shows "\<exists>tok. randomToken rand w = (tok, w') \<and> length tok = 16 \<and> length (take 8 tok) = 8 \<and>
    (\<forall>b'. length b' = 8 \<and> hex_encode b' = tok \<longrightarrow> b' = b) \<and>
    (plain_gateway g \<and> plain_name u \<longrightarrow>
       parseLocalStatus g (replyURL (actorID g u) tok parent) = Some (u, tok) \<and>
       ownStatusRef (isSelfHost g) (replyURL (actorID g u) tok parent) = Some (u, tok))"
proof -
  have p: "plain_name (hex_encode b)" using assms(2) by (intro hex_plain) auto
  show ?thesis
    using assms length_hex [of b] hex_encode_inj id_segment_plain p own_reply_url [of g u] parse_reply_url [of g u]
    by (intro exI [of _ "hex_encode b"]) (auto simp: randomToken_def)
qed

lemma random_tokens_are_ids_witness:
  "\<exists>tok. randomToken (\<lambda>w :: unit. (''abcdefgh'', w)) () = (tok, ()) \<and>
    parseLocalStatus sample_gateway (replyURL (actorID sample_gateway ''alice'') tok ''https://m.example/1'') = Some (''alice'', tok)"
proof -
  have r: "(\<lambda>w :: unit. (''abcdefgh'', w)) () = (''abcdefgh'', ())" by simp
  show ?thesis using random_tokens_are_ids [of "\<lambda>w :: unit. (''abcdefgh'', w)", OF r, of sample_gateway "''alice''" "''https://m.example/1''"]
      sample_plain by auto
qed

section \<open>Traces\<close>

record reqTrace =
  rt_id :: string
  rt_calls :: "32 word"

definition startTrace :: "string \<Rightarrow> reqTrace" where
  "startTrace token = \<lparr>rt_id = take 8 token, rt_calls = 0\<rparr>"

text \<open>What a fetch reports, and the line written for it: the trace's id, the number and the fetch.\<close>

record fetch =
  fe_method :: string
  fe_url :: string
  fe_status :: nat
  fe_cached :: bool

record trace_line =
  ln_id :: string
  ln_no :: "32 word"
  ln_fetch :: fetch

text \<open>
  \<open>logFetch\<close> takes its number atomically and writes its line later; without a trace in the context it
  does nothing.  The state of a request: its trace, the numbers taken whose line is still to be written,
  and the lines.
\<close>

record trace_state =
  tr_trace :: reqTrace
  tr_pending :: "(32 word \<times> fetch) list"
  tr_lines :: "trace_line list"

definition take_number :: "fetch \<Rightarrow> trace_state \<Rightarrow> trace_state" where
  "take_number f s =
     (let n = rt_calls (tr_trace s) + 1 in
      s\<lparr>tr_trace := (tr_trace s)\<lparr>rt_calls := n\<rparr>, tr_pending := (n, f) # tr_pending s\<rparr>)"

definition write_line :: "32 word \<times> fetch \<Rightarrow> trace_state \<Rightarrow> trace_state" where
  "write_line p s = s\<lparr>tr_pending := remove1 p (tr_pending s),
     tr_lines := tr_lines s @ [\<lparr>ln_id = rt_id (tr_trace s), ln_no = fst p, ln_fetch = snd p\<rparr>]\<rparr>"

inductive trace_step :: "trace_state \<Rightarrow> trace_state \<Rightarrow> bool" where
  tr_take: "trace_step s (take_number f s)"
| tr_write: "p \<in> set (tr_pending s) \<Longrightarrow> trace_step s (write_line p s)"

inductive trace_reach :: "string \<Rightarrow> trace_state \<Rightarrow> bool" for token where
  tr_start: "trace_reach token \<lparr>tr_trace = startTrace token, tr_pending = [], tr_lines = []\<rparr>"
| tr_more: "trace_reach token s \<Longrightarrow> trace_step s s' \<Longrightarrow> trace_reach token s'"

definition fetches :: "trace_state \<Rightarrow> nat" where
  "fetches s = length (tr_pending s) + length (tr_lines s)"

definition numbers :: "trace_state \<Rightarrow> 32 word multiset" where
  "numbers s = mset (map fst (tr_pending s)) + mset (map ln_no (tr_lines s))"

lemma numbers_take: "numbers (take_number f s) = numbers s + {# rt_calls (tr_trace s) + 1 #}"
  by (simp add: numbers_def take_number_def Let_def)

lemma numbers_write: "p \<in> set (tr_pending s) \<Longrightarrow> numbers (write_line p s) = numbers s"
proof -
  assume "p \<in> set (tr_pending s)"
  then have "mset (tr_pending s) = add_mset p (mset (remove1 p (tr_pending s)))" by simp
  then have "mset (map fst (tr_pending s)) = add_mset (fst p) (mset (map fst (remove1 p (tr_pending s))))"
    by (metis image_mset_add_mset mset_map)
  then show ?thesis by (simp add: numbers_def write_line_def)
qed

lemma fetches_step:
  "fetches (take_number f s) = Suc (fetches s)" "p \<in> set (tr_pending s) \<Longrightarrow> fetches (write_line p s) = fetches s"
  by (auto simp: fetches_def take_number_def write_line_def length_remove1 Let_def dest: length_pos_if_in_set)

lemma trace_inv:
  assumes "trace_reach token s"
  shows "rt_calls (tr_trace s) = of_nat (fetches s) \<and> numbers s = mset (map of_nat [1..<Suc (fetches s)]) \<and>
    rt_id (tr_trace s) = take 8 token \<and> (\<forall>l\<in>set (tr_lines s). ln_id l = take 8 token)"
  using assms
proof induction
  case tr_start
  then show ?case by (simp add: startTrace_def fetches_def numbers_def)
next
  case (tr_more s s')
  from tr_more(2) show ?case
  proof cases
    case (tr_take f)
    have "[1..<Suc (Suc (fetches s))] = [1..<Suc (fetches s)] @ [Suc (fetches s)]" by simp
    then have "mset (map of_nat [1..<Suc (Suc (fetches s))]) = mset (map of_nat [1..<Suc (fetches s)]) + {# of_nat (Suc (fetches s)) :: 32 word #}"
      by simp
    with tr_more(3) tr_take show ?thesis
      by (simp add: numbers_take fetches_step) (simp add: take_number_def Let_def)
  next
    case (tr_write p)
    with tr_more(3) show ?thesis
      by (simp add: numbers_write fetches_step) (simp add: write_line_def)
  qed
qed

text \<open>
  A request's fetches are numbered without gaps.  However the goroutines interleave, as long as there
  are fewer than two to the thirty-first fetches: no two lines of a trace have the same number; and once
  every line has been written, the lines are numbered from one to their count, which is the count the
  summary line reports, and all carry the trace's id.
\<close>

theorem trace_numbers_exact:
  assumes "trace_reach token s" "fetches s < 2 ^ 31"
  shows "distinct (map ln_no (tr_lines s)) \<and> (\<forall>l\<in>set (tr_lines s). ln_id l = take 8 token) \<and>
    (tr_pending s = [] \<longrightarrow>
       sint (rt_calls (tr_trace s)) = int (length (tr_lines s)) \<and>
       sort (map (\<lambda>l. unat (ln_no l)) (tr_lines s)) = [1..<Suc (length (tr_lines s))])"
proof -
  note inv = trace_inv [OF assms(1)]
  have u: "unat (of_nat i :: 32 word) = i" if "i \<le> fetches s" for i
    using that assms(2) by (simp add: unat_of_nat take_bit_nat_eq_self)
  have all: "image_mset unat (numbers s) = mset [1..<Suc (fetches s)]"
  proof -
    have "map (\<lambda>i. unat (of_nat i :: 32 word)) [1..<Suc (fetches s)] = [1..<Suc (fetches s)]"
      by (rule map_idI) (use u in auto)
    then show ?thesis using inv by (simp only: mset_map [symmetric] map_map comp_def)
  qed
  have "distinct (map (\<lambda>l. unat (ln_no l)) (tr_lines s))"
  proof -
    have "mset (map unat (map fst (tr_pending s)) @ map (\<lambda>l. unat (ln_no l)) (tr_lines s)) = mset [1..<Suc (fetches s)]"
      using all by (simp add: numbers_def comp_def image_mset.compositionality)
    from mset_eq_imp_distinct_iff [OF this] show ?thesis unfolding distinct_append by (simp only: distinct_upt) simp
  qed
  then have d: "distinct (map ln_no (tr_lines s))" by (simp add: distinct_map inj_on_def)
  moreover have "sint (rt_calls (tr_trace s)) = int (length (tr_lines s)) \<and>
      sort (map (\<lambda>l. unat (ln_no l)) (tr_lines s)) = [1..<Suc (length (tr_lines s))]" if p: "tr_pending s = []"
  proof -
    have n: "fetches s = length (tr_lines s)" using p by (simp add: fetches_def)
    have "mset (map (\<lambda>l. unat (ln_no l)) (tr_lines s)) = mset [1..<Suc (length (tr_lines s))]"
      using all p n by (simp add: numbers_def comp_def image_mset.compositionality)
    then have "sort (map (\<lambda>l. unat (ln_no l)) (tr_lines s)) = [1..<Suc (length (tr_lines s))]"
      using properties_for_sort [OF _ sorted_upt] by metis
    moreover have "sint (of_nat (fetches s) :: 32 word) = int (fetches s)"
      using assms(2) by (simp add: signed_of_nat signed_take_bit_int_eq_self)
    ultimately show ?thesis using inv n by simp
  qed
  ultimately show ?thesis using inv by blast
qed

definition sample_fetch_line :: fetch where
  "sample_fetch_line = \<lparr>fe_method = ''GET'', fe_url = ''https://m.example/users/bob'', fe_status = 200, fe_cached = False\<rparr>"

lemma trace_numbers_exact_witness:
  "\<exists>s. trace_reach ''0123456789abcdef'' s \<and> length (tr_lines s) = 2 \<and> distinct (map ln_no (tr_lines s))"
proof -
  let ?f = sample_fetch_line and ?t = "''0123456789abcdef''"
  let ?s0 = "\<lparr>tr_trace = startTrace ?t, tr_pending = [], tr_lines = []\<rparr>"
  let ?s2 = "take_number ?f (take_number ?f ?s0)"
  have r2: "trace_reach ?t ?s2" by (intro tr_more [OF tr_more [OF tr_start tr_take] tr_take])
  have p: "(1, ?f) \<in> set (tr_pending ?s2)" by (simp add: take_number_def startTrace_def)
  have q: "(2, ?f) \<in> set (tr_pending (write_line (1, ?f) ?s2))" by (simp add: take_number_def startTrace_def write_line_def)
  have r: "trace_reach ?t (write_line (2, ?f) (write_line (1, ?f) ?s2))"
    by (intro tr_more [OF tr_more [OF r2 tr_write [OF p]] tr_write [OF q]])
  have n: "length (tr_lines (write_line (2, ?f) (write_line (1, ?f) ?s2))) = 2"
    "fetches (write_line (2, ?f) (write_line (1, ?f) ?s2)) < 2 ^ 31"
    by (simp_all add: take_number_def startTrace_def write_line_def fetches_def)
  with r trace_numbers_exact [OF r n(2)] show ?thesis by blast
qed

end
