(* ===== verification/Rate_Watch.thy ===== *)
theory Rate_Watch
  imports Rate_Limit
begin

text \<open>
  Facts about the throttle of \<open>rate-limit.go\<close>: what the middleware lets through, and when the watchdog
  replaces a limiter.  The watchdog is specified by a small state machine on observations of one
  limiter, which \<open>resetGlobalIfStuck\<close> and \<open>resetStuckClients\<close> implement.
\<close>

section \<open>The watchdog's specification\<close>

text \<open>
  One observation: whether the limiter is locked, and when.  The state is the time at which the limiter
  was first seen locked, 0 when it was not locked last time; the second result is the decision to
  replace the limiter.
\<close>

definition watch_step :: "int \<Rightarrow> gotime \<Rightarrow> bool \<times> gotime \<Rightarrow> gotime \<times> bool" where
  "watch_step window since ob =
     (case ob of (locked, now) \<Rightarrow>
        if \<not> locked then (0, False)
        else if since = 0 then (now, False)
        else if now - since \<ge> window then (0, True)
        else (since, False))"

text \<open>The state before the \<open>k\<close>-th observation, and the decision at it.\<close>

primrec watch_since :: "int \<Rightarrow> (nat \<Rightarrow> bool \<times> gotime) \<Rightarrow> nat \<Rightarrow> gotime" where
  "watch_since window obs 0 = 0"
| "watch_since window obs (Suc k) = fst (watch_step window (watch_since window obs k) (obs k))"

definition replaced :: "int \<Rightarrow> (nat \<Rightarrow> bool \<times> gotime) \<Rightarrow> nat \<Rightarrow> bool" where
  "replaced window obs k \<longleftrightarrow> snd (watch_step window (watch_since window obs k) (obs k))"

text \<open>Whenever a time is remembered, the limiter has been locked, and not replaced, ever since.\<close>

lemma watch_since_locked:
  "watch_since window obs k \<noteq> 0 \<Longrightarrow>
    \<exists>j<k. watch_since window obs k = snd (obs j) \<and> (\<forall>i. j \<le> i \<and> i < k \<longrightarrow> fst (obs i) \<and> \<not> replaced window obs i)"
proof (induction k)
  case (Suc k)
  obtain l t where o: "obs k = (l, t)" by fastforce
  show ?case
  proof (cases "watch_since window obs k = 0")
    case True
    with Suc.prems o have "l" "watch_since window obs (Suc k) = t" "\<not> replaced window obs k"
      by (auto simp: watch_step_def replaced_def split: if_splits)
    with o show ?thesis by (intro exI [of _ k]) (auto simp: less_Suc_eq_le dest: le_antisym)
  next
    case False
    with Suc.prems o have k: "l" "watch_since window obs (Suc k) = watch_since window obs k" "\<not> replaced window obs k"
      by (auto simp: watch_step_def replaced_def split: if_splits)
    from Suc.IH [OF False] obtain j where "j < k" "watch_since window obs k = snd (obs j)"
      "\<forall>i. j \<le> i \<and> i < k \<longrightarrow> fst (obs i) \<and> \<not> replaced window obs i" by blast
    with k o show ?thesis by (intro exI [of _ j]) (auto simp: less_Suc_eq)
  qed
qed simp

lemma replaced_only_stuck:
  assumes "replaced window obs k"
  shows "\<exists>j<k. snd (obs k) - snd (obs j) \<ge> window \<and> (\<forall>i. j \<le> i \<and> i \<le> k \<longrightarrow> fst (obs i))"
proof -
  from assms have s: "watch_since window obs k \<noteq> 0" "fst (obs k)"
    "snd (obs k) - watch_since window obs k \<ge> window"
    by (auto simp: replaced_def watch_step_def split: prod.splits if_splits)
  from watch_since_locked [OF s(1)] s(2,3) show ?thesis by (metis le_neq_implies_less)
qed

lemma watch_since_le:
  assumes "\<forall>i. j \<le> i \<and> i < k \<longrightarrow> fst (obs i) \<and> \<not> replaced window obs i" "j < k"
    and times: "\<forall>i i'. i \<le> i' \<longrightarrow> 0 < snd (obs i) \<and> snd (obs i) \<le> snd (obs i')"
  shows "watch_since window obs k \<noteq> 0 \<and> watch_since window obs k \<le> snd (obs j)"
  using \<open>j < k\<close> assms(1)
proof (induction k)
  case (Suc k)
  obtain l t where o: "obs k = (l, t)" by fastforce
  have "fst (obs k) \<and> \<not> replaced window obs k" using Suc.prems by simp
  with o have k: "l" "\<not> replaced window obs k" by simp_all
  show ?case
  proof (cases "j < k")
    case True
    with Suc have "watch_since window obs k \<noteq> 0 \<and> watch_since window obs k \<le> snd (obs j)" by auto
    with k o show ?thesis by (auto simp: watch_step_def replaced_def)
  next
    case False
    with Suc.prems have j: "j = k" by simp
    have "watch_since window obs k \<noteq> 0 \<Longrightarrow> watch_since window obs k \<le> t"
      using watch_since_locked [of window obs k] times o by (metis less_imp_le snd_conv)
    moreover have "0 < t" using times o by (metis order_refl snd_conv)
    ultimately show ?thesis using k o j by (auto simp: watch_step_def replaced_def split: if_splits)
  qed
qed simp

lemma stuck_is_replaced:
  assumes "0 < window" and times: "\<forall>i i'. i \<le> i' \<longrightarrow> 0 < snd (obs i) \<and> snd (obs i) \<le> snd (obs i')"
    and "j \<le> k" "\<forall>i. j \<le> i \<and> i \<le> k \<longrightarrow> fst (obs i)" "snd (obs k) - snd (obs j) \<ge> window"
  shows "\<exists>i. j \<le> i \<and> i \<le> k \<and> replaced window obs i"
proof (rule ccontr)
  assume none: "\<not> ?thesis"
  with assms have "j < k" by (metis diff_self le_neq_implies_less not_less)
  with watch_since_le [of j k obs window] assms none
  have s: "watch_since window obs k \<noteq> 0" "watch_since window obs k \<le> snd (obs j)" by auto
  have "replaced window obs k"
    using s assms(3-5) by (auto simp: replaced_def watch_step_def split: prod.splits)
  with none \<open>j \<le> k\<close> show False by blast
qed

section \<open>The code implements it\<close>

lemma global_implements:
  "run_state (resetGlobalIfStuck B since now) (rl, w) =
     (let (locked, w1) = lim_locked B (rl_global rl) w;
          (since', replace) = watch_step (rl_window rl) since (locked, now) in
      if replace then (since', (let (l, w2) = lim_new B (rl_globalBudget rl) (rl_window rl) w1 in (rl\<lparr>rl_global := l\<rparr>, w2)))
      else (since', (rl, w1)))"
  by (auto simp: resetGlobalIfStuck_def watch_step_def Let_def split: prod.split)

text \<open>For a client in the cache, with 0 for a client that is not in the map.\<close>

definition since_of :: "(string \<rightharpoonup> gotime) \<Rightarrow> string \<Rightarrow> gotime" where
  "since_of m ip = (case m ip of None \<Rightarrow> 0 | Some t \<Rightarrow> t)"

lemma client_implements:
  assumes "cl_peek B ip w = (Some l, w1)" "lim_locked B l w1 = (locked, w2)" "0 \<notin> ran m" "now \<noteq> 0"
  shows "run_state (reset_client B m now ip) (rl, w) =
     (let (since', replace) = watch_step (rl_window rl) (since_of m ip) (locked, now) in
      ((if locked then m(ip := (if since' = 0 then None else Some since')) else m, locked),
       (rl, if replace then (let (l', w3) = lim_new B (rl_clientBudget rl) (rl_window rl) w2 in cl_add B ip l' w3) else w2)))"
proof -
  have "m ip \<noteq> Some 0" using assms(3) by (auto simp: ran_def)
  then show ?thesis using assms(1,2,4)
    by (auto simp: reset_client_def watch_step_def since_of_def Let_def split: prod.split option.split)
qed

text \<open>
  The watchdog frees exactly the limiters that are stuck.  The code's step on the global limiter is
  the specified one.  A limiter is replaced only if it was seen locked at every tick over at least one
  full window; and if it is seen locked over a full window, it is replaced within it, for times that
  increase from tick to tick.
\<close>

theorem watchdog_frees_stuck_limiters:
  assumes "0 < window" "\<forall>i i'. i \<le> i' \<longrightarrow> 0 < snd (obs i) \<and> snd (obs i) \<le> snd (obs i')"
  shows "(\<forall>B rl w locked w1 since now. lim_locked B (rl_global rl) w = (locked, w1) \<longrightarrow>
       fst (run_state (resetGlobalIfStuck B since now) (rl, w)) = fst (watch_step (rl_window rl) since (locked, now)) \<and>
       (\<not> snd (watch_step (rl_window rl) since (locked, now)) \<longrightarrow>
          fst (snd (run_state (resetGlobalIfStuck B since now) (rl, w))) = rl) \<and>
       (snd (watch_step (rl_window rl) since (locked, now)) \<longrightarrow>
          rl_global (fst (snd (run_state (resetGlobalIfStuck B since now) (rl, w))))
            = fst (lim_new B (rl_globalBudget rl) (rl_window rl) w1)))
    \<and> (replaced window obs k \<longrightarrow>
        (\<exists>j<k. snd (obs k) - snd (obs j) \<ge> window \<and> (\<forall>i. j \<le> i \<and> i \<le> k \<longrightarrow> fst (obs i))))
    \<and> (j \<le> k \<and> (\<forall>i. j \<le> i \<and> i \<le> k \<longrightarrow> fst (obs i)) \<and> snd (obs k) - snd (obs j) \<ge> window \<longrightarrow>
        (\<exists>i. j \<le> i \<and> i \<le> k \<and> replaced window obs i))"
proof (intro conjI impI allI)
  assume "replaced window obs k"
  from replaced_only_stuck [OF this]
  show "\<exists>j<k. snd (obs k) - snd (obs j) \<ge> window \<and> (\<forall>i. j \<le> i \<and> i \<le> k \<longrightarrow> fst (obs i))" .
next
  assume "j \<le> k \<and> (\<forall>i. j \<le> i \<and> i \<le> k \<longrightarrow> fst (obs i)) \<and> snd (obs k) - snd (obs j) \<ge> window"
  then show "\<exists>i. j \<le> i \<and> i \<le> k \<and> replaced window obs i"
    using stuck_is_replaced [OF assms] by blast
qed (auto simp: global_implements Let_def split: prod.splits)

lemma watchdog_frees_stuck_limiters_witness:
  "\<exists>i. 1 \<le> i \<and> i \<le> 4 \<and> replaced 3 (\<lambda>i. (0 < i, int i + 1)) i"
proof -
  have times: "\<forall>i i'. i \<le> i' \<longrightarrow> 0 < snd ((\<lambda>i. (0 < i, int i + 1)) i) \<and>
      snd ((\<lambda>i. (0 < i, int i + 1)) i) \<le> snd ((\<lambda>i. (0 < i, int i + 1)) i')" by simp
  from watchdog_frees_stuck_limiters [of 3, OF zero_less_numeral times, of 4 1, THEN conjunct2, THEN conjunct2]
  show ?thesis by simp
qed

section \<open>The middleware\<close>

lemma client_keeps_rl: "run_state (client B ip) (rl, w) = (l, (rl', w')) \<Longrightarrow> rl' = rl"
  by (auto simp: client_def split: option.splits)

lemma client_ignores_global:
  "run_state (client B ip) (rl\<lparr>rl_global := g\<rparr>, w) =
     (fst (run_state (client B ip) (rl, w)), (rl\<lparr>rl_global := g\<rparr>, snd (snd (run_state (client B ip) (rl, w)))))"
  by (auto simp: client_def split: option.splits)

text \<open>
  Traffic elsewhere cannot lock the federation endpoints out.  For a control-plane path the outcome
  and the effect of the middleware do not depend on the global limiter at all; for every path, a client
  whose own limiter is locked is refused with the window as \<open>Retry-After\<close> and nothing is spent, and a
  data-plane request is also refused, spending nothing, when the global limiter is locked.
\<close>

theorem control_plane_never_starved:
  "(isControlPlane p \<longrightarrow>
      (let (r, (rl1, w1)) = run_state (middleware B ip p) (rl, w) in
       run_state (middleware B ip p) (rl\<lparr>rl_global := g\<rparr>, w) = (r, (rl1\<lparr>rl_global := g\<rparr>, w1)))) \<and>
   (\<forall>lm w1 w2. run_state (client B ip) (rl, w) = (lm, (rl, w1)) \<and> lim_locked B lm w1 = (True, w2) \<longrightarrow>
      run_state (middleware B ip p) (rl, w) = (Inl (rl_window rl div 1000000000), (rl, w2))) \<and>
   (\<forall>lm w1 w2 w3. \<not> isControlPlane p \<and> run_state (client B ip) (rl, w) = (lm, (rl, w1)) \<and>
      lim_locked B lm w1 = (False, w2) \<and> lim_locked B (rl_global rl) w2 = (True, w3) \<longrightarrow>
      run_state (middleware B ip p) (rl, w) = (Inl (rl_window rl div 1000000000), (rl, w3)))"
proof -
  obtain lm rl' w' where c: "run_state (client B ip) (rl, w) = (lm, (rl', w'))"
    by (cases "run_state (client B ip) (rl, w)") auto
  from client_keeps_rl [OF this] have [simp]: "rl' = rl" .
  show ?thesis
    using client_ignores_global [of B ip g rl w] c
    by (auto simp: middleware_def split: prod.split)
qed

lemma control_plane_never_starved_witness:
  "\<exists>B :: (nat, nat) limiter_lib. run_state (middleware B ''203.0.113.7'' ''/users/alice'')
      (\<lparr>rl_window = rateWindow, rl_clientBudget = 1200, rl_globalBudget = 6000, rl_global = (0 :: nat)\<rparr>, 7)
    = (Inl 60, (\<lparr>rl_window = rateWindow, rl_clientBudget = 1200, rl_globalBudget = 6000, rl_global = (0 :: nat)\<rparr>, 7))"
proof -
  let ?B = "\<lparr>lim_new = (\<lambda>_ _ w. (1, w)), lim_locked = (\<lambda>l w. (l = 1, w)), lim_spend = (\<lambda>_ _ w. w + 1),
    cl_get = (\<lambda>_ w. (Some 1, w)), cl_peek = (\<lambda>_ w. (Some 1, w)), cl_add = (\<lambda>_ _ w. w), cl_keys = (\<lambda>w. ([], w))\<rparr>
      :: (nat, nat) limiter_lib"
  let ?rl = "\<lparr>rl_window = rateWindow, rl_clientBudget = 1200, rl_globalBudget = 6000, rl_global = (0 :: nat)\<rparr>"
  have "run_state (client ?B ''203.0.113.7'') (?rl, 7) = (1, (?rl, 7))" "lim_locked ?B 1 7 = (True, 7)"
    by (simp_all add: client_def)
  with control_plane_never_starved [of "''/users/alice''" ?B "''203.0.113.7''" ?rl 7 0, THEN conjunct2, THEN conjunct1]
  have "run_state (middleware ?B ''203.0.113.7'' ''/users/alice'') (?rl, 7) = (Inl (rl_window ?rl div 1000000000), (?rl, 7))"
    by blast
  then show ?thesis by (intro exI [of _ ?B]) (simp add: rateWindow_def)
qed

end
