(* ===== verification/Drain.thy ===== *)
theory Drain
  imports Rate_Watch
begin

text \<open>
  The watchdog at work: the loop of \<open>drain\<close> (\<open>rate-limit.go\<close>) with requests served between its ticks.
  A run is logged as what the watchdog saw of the global limiter at each tick and the limiter before
  and after; the log obeys the specification of \<open>Rate_Watch\<close> over the whole run.
\<close>

section \<open>The loop\<close>

text \<open>The requests of one interval, each a client and a path; their answers do not matter here.\<close>

fun serve_all :: "('w, 'l) limiter_lib \<Rightarrow> (string \<times> string) list \<Rightarrow> ('w, 'l, unit) rl" where
  "serve_all B [] = State_Monad.return ()"
| "serve_all B ((ip, p) # rs) = do { _ \<leftarrow> middleware B ip p; serve_all B rs }"

text \<open>One entry of the log: whether the limiter was locked, the time, and the limiter before and after.\<close>

record 'l tick =
  tk_seen :: "bool \<times> gotime"
  tk_before :: 'l
  tk_after :: 'l

fun drain ::
  "('w, 'l) limiter_lib \<Rightarrow> ((string \<times> string) list \<times> gotime) list \<Rightarrow> gotime \<times> (string \<rightharpoonup> gotime) \<Rightarrow> ('w, 'l, 'l tick list) rl" where
  "drain B [] st = State_Monad.return []"
| "drain B ((rs, now) # ticks) st = do {
     _ \<leftarrow> serve_all B rs;
     before \<leftarrow> rl_read rl_global;
     seen \<leftarrow> State (\<lambda>(rl, w). (fst (lim_locked B (rl_global rl) w), (rl, w)));
     st' \<leftarrow> drain_tick B st now;
     after \<leftarrow> rl_read rl_global;
     rest \<leftarrow> drain B ticks st';
     State_Monad.return (\<lparr>tk_seen = (seen, now), tk_before = before, tk_after = after\<rparr> # rest)
   }"

section \<open>The run obeys the specification\<close>

lemma middleware_keeps:
  "run_state (middleware B ip p) (rl, w) = (a, (rl', w')) \<Longrightarrow> rl' = rl"
proof -
  assume r: "run_state (middleware B ip p) (rl, w) = (a, (rl', w'))"
  obtain lm rl1 w1 where c: "run_state (client B ip) (rl, w) = (lm, (rl1, w1))"
    by (cases "run_state (client B ip) (rl, w)") auto
  from client_keeps_rl [OF this] have "rl1 = rl" .
  with r c show ?thesis by (auto simp: middleware_def split: if_splits)
qed

lemma serve_all_keeps: "run_state (serve_all B rs) (rl, w) = (a, (rl', w')) \<Longrightarrow> rl' = rl"
proof (induction rs arbitrary: rl w)
  case (Cons r rs)
  obtain ip p where r: "r = (ip, p)" by fastforce
  obtain x rl1 w1 where m: "run_state (middleware B ip p) (rl, w) = (x, (rl1, w1))"
    by (cases "run_state (middleware B ip p) (rl, w)") auto
  from middleware_keeps [OF m] m Cons r show ?case by simp
qed simp

lemma reset_client_keeps:
  "run_state (reset_client B m now ip) (rl, w) = (a, (rl', w')) \<Longrightarrow> rl' = rl"
  by (auto simp: reset_client_def split: option.splits if_splits)

lemma reset_clients_keeps:
  "run_state (reset_clients B now ips m present) (rl, w) = (a, (rl', w')) \<Longrightarrow> rl' = rl"
proof (induction ips arbitrary: m present rl w)
  case (Cons ip ips)
  obtain x rl1 w1 where m: "run_state (reset_client B m now ip) (rl, w) = (x, (rl1, w1))"
    by (cases "run_state (reset_client B m now ip) (rl, w)") auto
  from reset_client_keeps [OF m] m Cons show ?case by (auto split: prod.splits)
qed simp

lemma reset_stuck_keeps:
  "run_state (resetStuckClients B m now) (rl, w) = (a, (rl', w')) \<Longrightarrow> rl' = rl"
  by (auto simp: resetStuckClients_def split: prod.splits dest: reset_clients_keeps)

text \<open>A tick applies one step of the specification to the global limiter.\<close>

lemma drain_tick_global:
  assumes "run_state (drain_tick B (since, m) now) (rl, w) = ((since', m'), (rl', w'))"
  shows "since' = fst (watch_step (rl_window rl) since (fst (lim_locked B (rl_global rl) w), now))"
    "rl' = (if snd (watch_step (rl_window rl) since (fst (lim_locked B (rl_global rl) w), now))
      then rl\<lparr>rl_global := fst (lim_new B (rl_globalBudget rl) (rl_window rl) (snd (lim_locked B (rl_global rl) w)))\<rparr> else rl)"
proof -
  obtain x rl1 w1 where g: "run_state (resetGlobalIfStuck B since now) (rl, w) = (x, (rl1, w1))"
    by (cases "run_state (resetGlobalIfStuck B since now) (rl, w)") auto
  obtain y rl2 w2 where c: "run_state (resetStuckClients B m now) (rl1, w1) = (y, (rl2, w2))"
    by (cases "run_state (resetStuckClients B m now) (rl1, w1)") auto
  have e: "since' = x" "rl' = rl1"
    using assms g c reset_stuck_keeps [OF c] by (simp_all add: drain_tick_def)
  show "since' = fst (watch_step (rl_window rl) since (fst (lim_locked B (rl_global rl) w), now))"
    "rl' = (if snd (watch_step (rl_window rl) since (fst (lim_locked B (rl_global rl) w), now))
      then rl\<lparr>rl_global := fst (lim_new B (rl_globalBudget rl) (rl_window rl) (snd (lim_locked B (rl_global rl) w)))\<rparr> else rl)"
    unfolding e using g by (auto simp: global_implements Let_def split: prod.splits if_splits)
qed

text \<open>The specification started in state \<open>since\<close>.\<close>

primrec watch_from :: "int \<Rightarrow> gotime \<Rightarrow> (nat \<Rightarrow> bool \<times> gotime) \<Rightarrow> nat \<Rightarrow> gotime" where
  "watch_from window since obs 0 = since"
| "watch_from window since obs (Suc k) = fst (watch_step window (watch_from window since obs k) (obs k))"

lemma watch_from_zero: "watch_from window 0 obs k = watch_since window obs k"
  by (induction k) simp_all

lemma watch_from_shift:
  "watch_from window since obs (Suc k) = watch_from window (fst (watch_step window since (obs 0))) (\<lambda>i. obs (Suc i)) k"
  by (induction k) simp_all

definition replaces :: "int \<Rightarrow> gotime \<Rightarrow> (nat \<Rightarrow> bool \<times> gotime) \<Rightarrow> nat \<Rightarrow> bool" where
  "replaces window since obs k \<longleftrightarrow> snd (watch_step window (watch_from window since obs k) (obs k))"

text \<open>
  The log of a run: the limiter changes at a tick only if the specification says so, it is then a new
  one with the global budget, and nothing else, neither requests nor the clients' watchdog, changes it.
\<close>

definition log_ok ::
  "('w, 'l) limiter_lib \<Rightarrow> 'l rateLimiters \<Rightarrow> gotime \<Rightarrow> 'l tick list \<Rightarrow> bool" where
  "log_ok B rl since es \<longleftrightarrow>
     (let obs = (\<lambda>i. tk_seen (es ! i)) in
      (\<forall>k<length es. tk_before (es ! k) = (if k = 0 then rl_global rl else tk_after (es ! (k - 1))) \<and>
         (if replaces (rl_window rl) since obs k
          then \<exists>v. tk_after (es ! k) = fst (lim_new B (rl_globalBudget rl) (rl_window rl) v)
          else tk_after (es ! k) = tk_before (es ! k))))"

lemma log_ok_Cons:
  assumes e: "tk_before e = rl_global rl"
    "if snd (watch_step (rl_window rl) since (tk_seen e))
       then \<exists>v. tk_after e = fst (lim_new B (rl_globalBudget rl) (rl_window rl) v) else tk_after e = tk_before e"
    and rest: "log_ok B (rl\<lparr>rl_global := tk_after e\<rparr>) (fst (watch_step (rl_window rl) since (tk_seen e))) es"
  shows "log_ok B rl since (e # es)"
proof -
  have "tk_before ((e # es) ! k) = (if k = 0 then rl_global rl else tk_after ((e # es) ! (k - 1))) \<and>
      (if replaces (rl_window rl) since (\<lambda>i. tk_seen ((e # es) ! i)) k
       then \<exists>v. tk_after ((e # es) ! k) = fst (lim_new B (rl_globalBudget rl) (rl_window rl) v)
       else tk_after ((e # es) ! k) = tk_before ((e # es) ! k))" if k: "k < length (e # es)" for k
  proof (cases k)
    case 0
    with e show ?thesis by (simp add: replaces_def)
  next
    case (Suc j)
    then have j: "j < length es" using k by simp
    have "replaces (rl_window rl) since (\<lambda>i. tk_seen ((e # es) ! i)) (Suc j) \<longleftrightarrow>
        replaces (rl_window rl) (fst (watch_step (rl_window rl) since (tk_seen e))) (\<lambda>i. tk_seen (es ! i)) j"
      unfolding replaces_def watch_from_shift by simp
    with rest j Suc show ?thesis by (auto simp: log_ok_def Let_def nth_Cons' split: if_splits)
  qed
  then show ?thesis unfolding log_ok_def Let_def by blast
qed

lemma drain_log: "run_state (drain B ticks (since, m)) (rl, w) = (es, s') \<Longrightarrow> log_ok B rl since es"
proof (induction ticks arbitrary: since m rl w es)
  case (Cons t ticks)
  obtain rs now where t: "t = (rs, now)" by fastforce
  obtain x rl1 w1 where s: "run_state (serve_all B rs) (rl, w) = (x, (rl1, w1))"
    by (cases "run_state (serve_all B rs) (rl, w)") auto
  from serve_all_keeps [OF this] have [simp]: "rl1 = rl" .
  obtain since' m' rl2 w2 where d: "run_state (drain_tick B (since, m) now) (rl, w1) = ((since', m'), (rl2, w2))"
    by (cases "run_state (drain_tick B (since, m) now) (rl, w1)") (metis surj_pair)
  obtain es' where r: "run_state (drain B ticks (since', m')) (rl2, w2) = (es', s')"
    and es: "es = \<lparr>tk_seen = (fst (lim_locked B (rl_global rl) w1), now), tk_before = rl_global rl, tk_after = rl_global rl2\<rparr> # es'"
    using Cons.prems t s d by (auto split: prod.splits)
  note g = drain_tick_global [OF d]
  have rl2: "rl2 = rl\<lparr>rl_global := rl_global rl2\<rparr>" using g(2) by (auto split: if_splits)
  from Cons.IH [OF r] have "log_ok B (rl\<lparr>rl_global := rl_global rl2\<rparr>)
      (fst (watch_step (rl_window rl) since (fst (lim_locked B (rl_global rl) w1), now))) es'"
    using rl2 g(1) by simp
  then show ?case unfolding es
    by (intro log_ok_Cons) (use g(2) in auto)
qed (simp add: log_ok_def)

section \<open>When the watchdog acts\<close>

lemma watch_from_cong: "(\<And>i. i < k \<Longrightarrow> obs i = obs' i) \<Longrightarrow> watch_from window since obs k = watch_from window since obs' k"
  by (induction k) simp_all

text \<open>The log as an endless sequence of observations, the last of which repeats.\<close>

definition seen_at :: "'l tick list \<Rightarrow> nat \<Rightarrow> bool \<times> gotime" where
  "seen_at es i = tk_seen (es ! min i (length es - 1))"

lemma seen_at_index: "i < length es \<Longrightarrow> seen_at es i = tk_seen (es ! i)"
proof -
  assume "i < length es"
  then have "min i (length es - 1) = i" by simp
  then show ?thesis by (simp add: seen_at_def)
qed

lemma log_replaced:
  assumes "log_ok B rl 0 es" "k < length es"
  shows "if replaced (rl_window rl) (seen_at es) k
    then \<exists>v. tk_after (es ! k) = fst (lim_new B (rl_globalBudget rl) (rl_window rl) v)
    else tk_after (es ! k) = tk_before (es ! k)"
proof -
  have "seen_at es i = tk_seen (es ! i)" if "i \<le> k" for i using that assms(2) by (simp add: seen_at_index)
  then have "replaces (rl_window rl) 0 (\<lambda>i. tk_seen (es ! i)) k \<longleftrightarrow> replaced (rl_window rl) (seen_at es) k"
    using watch_from_cong [of k "seen_at es" "\<lambda>i. tk_seen (es ! i)" "rl_window rl" 0]
    by (simp add: replaces_def replaced_def watch_from_zero)
  with assms show ?thesis unfolding log_ok_def Let_def by auto
qed

text \<open>
  C26: the global limiter is freed when it is stuck and only then.  In any run of the watchdog, with any
  requests served between its ticks, the limiter stays the same from one tick to the next; it changes
  at a tick only if it was seen locked at every tick over at least one full window; and if it is seen
  locked over a full window, it has been replaced within that window by a new one with the global
  budget.
\<close>

theorem drain_frees_the_global_limiter:
  assumes run: "run_state (drain B ticks (0, m)) (rl, w) = (es, s')" and window: "0 < rl_window rl"
    and times: "\<forall>i i'. i \<le> i' \<and> i' < length es \<longrightarrow> 0 < snd (tk_seen (es ! i)) \<and> snd (tk_seen (es ! i)) \<le> snd (tk_seen (es ! i'))"
  shows "(\<forall>k<length es. tk_before (es ! k) = (if k = 0 then rl_global rl else tk_after (es ! (k - 1)))) \<and>
    (\<forall>k<length es. tk_after (es ! k) \<noteq> tk_before (es ! k) \<longrightarrow>
      (\<exists>j<k. snd (tk_seen (es ! k)) - snd (tk_seen (es ! j)) \<ge> rl_window rl \<and>
        (\<forall>i. j \<le> i \<and> i \<le> k \<longrightarrow> fst (tk_seen (es ! i))))) \<and>
    (\<forall>j k. j \<le> k \<and> k < length es \<and> (\<forall>i. j \<le> i \<and> i \<le> k \<longrightarrow> fst (tk_seen (es ! i))) \<and>
        snd (tk_seen (es ! k)) - snd (tk_seen (es ! j)) \<ge> rl_window rl \<longrightarrow>
      (\<exists>i v. j \<le> i \<and> i \<le> k \<and> tk_after (es ! i) = fst (lim_new B (rl_globalBudget rl) (rl_window rl) v)))"
proof (intro conjI allI impI)
  note log = drain_log [OF run]
  note at = seen_at_index [of _ es]
  fix k assume k: "k < length es"
  from log k show "tk_before (es ! k) = (if k = 0 then rl_global rl else tk_after (es ! (k - 1)))"
    unfolding log_ok_def Let_def by blast
  assume "tk_after (es ! k) \<noteq> tk_before (es ! k)"
  with log_replaced [OF log k] have "replaced (rl_window rl) (seen_at es) k" by (auto split: if_splits)
  from replaced_only_stuck [OF this] obtain j where j: "j < k"
    "snd (seen_at es k) - snd (seen_at es j) \<ge> rl_window rl" "\<forall>i. j \<le> i \<and> i \<le> k \<longrightarrow> fst (seen_at es i)" by blast
  with at k show "\<exists>j<k. snd (tk_seen (es ! k)) - snd (tk_seen (es ! j)) \<ge> rl_window rl \<and>
      (\<forall>i. j \<le> i \<and> i \<le> k \<longrightarrow> fst (tk_seen (es ! i)))"
    by (intro exI [of _ j]) auto
next
  note log = drain_log [OF run]
  note at = seen_at_index [of _ es]
  fix j k
  assume jk: "j \<le> k \<and> k < length es \<and> (\<forall>i. j \<le> i \<and> i \<le> k \<longrightarrow> fst (tk_seen (es ! i))) \<and>
      snd (tk_seen (es ! k)) - snd (tk_seen (es ! j)) \<ge> rl_window rl"
  have mono: "\<forall>i i'. i \<le> i' \<longrightarrow> 0 < snd (seen_at es i) \<and> snd (seen_at es i) \<le> snd (seen_at es i')"
  proof (intro allI impI)
    fix i i' :: nat assume "i \<le> i'"
    then have "min i (length es - 1) \<le> min i' (length es - 1) \<and> min i' (length es - 1) < length es" using jk by auto
    with times show "0 < snd (seen_at es i) \<and> snd (seen_at es i) \<le> snd (seen_at es i')" unfolding seen_at_def by blast
  qed
  from stuck_is_replaced [OF window mono, of j k] jk at obtain i where
    i: "j \<le> i" "i \<le> k" "replaced (rl_window rl) (seen_at es) i" by auto
  with log_replaced [OF log, of i] jk
  show "\<exists>i v. j \<le> i \<and> i \<le> k \<and> tk_after (es ! i) = fst (lim_new B (rl_globalBudget rl) (rl_window rl) v)" by auto
qed

text \<open>A limiter library whose first limiter is always locked, and whose later ones never are.\<close>

definition stuck_lib :: "(nat, nat) limiter_lib" where
  "stuck_lib = \<lparr>lim_new = (\<lambda>_ _ w. (1, w)), lim_locked = (\<lambda>l w. (l = 0, w)), lim_spend = (\<lambda>_ _ w. w),
     cl_get = (\<lambda>_ w. (Some 1, w)), cl_peek = (\<lambda>_ w. (None, w)), cl_add = (\<lambda>_ _ w. w), cl_keys = (\<lambda>w. ([], w))\<rparr>"

definition stuck_limiters :: "nat rateLimiters" where
  "stuck_limiters = \<lparr>rl_window = 3, rl_clientBudget = 1200, rl_globalBudget = 6000, rl_global = 0\<rparr>"

lemma stuck_run:
  "fst (run_state (drain stuck_lib [([(''ip'', ''/'')], 1), ([], 2), ([], 4)] (0, Map.empty)) (stuck_limiters, 0)) =
    [\<lparr>tk_seen = (True, 1), tk_before = 0, tk_after = 0\<rparr>, \<lparr>tk_seen = (True, 2), tk_before = 0, tk_after = 0\<rparr>,
     \<lparr>tk_seen = (True, 4), tk_before = 0, tk_after = 1\<rparr>]"
  by (simp add: drain_tick_def resetGlobalIfStuck_def resetStuckClients_def middleware_def client_def isControlPlane_def
      stuck_lib_def stuck_limiters_def)

lemma drain_frees_the_global_limiter_witness:
  "\<exists>i v. i \<le> 2 \<and> tk_after (fst (run_state (drain stuck_lib [([(''ip'', ''/'')], 1), ([], 2), ([], 4)] (0, Map.empty)) (stuck_limiters, 0)) ! i)
     = fst (lim_new stuck_lib 6000 3 v)"
proof -
  let ?es = "[\<lparr>tk_seen = (True, 1), tk_before = 0, tk_after = 0\<rparr>, \<lparr>tk_seen = (True, 2), tk_before = 0, tk_after = 0\<rparr>,
     \<lparr>tk_seen = (True, 4), tk_before = 0, tk_after = 1\<rparr>] :: nat tick list"
  obtain s' where run: "run_state (drain stuck_lib [([(''ip'', ''/'')], 1), ([], 2), ([], 4)] (0, Map.empty)) (stuck_limiters, 0) = (?es, s')"
    using stuck_run by (metis prod.collapse)
  have window: "0 < rl_window stuck_limiters" by (simp add: stuck_limiters_def)
  have times: "\<forall>i i'. i \<le> i' \<and> i' < length ?es \<longrightarrow> 0 < snd (tk_seen (?es ! i)) \<and> snd (tk_seen (?es ! i)) \<le> snd (tk_seen (?es ! i'))"
    by (auto simp: nth_Cons' less_Suc_eq)
  from drain_frees_the_global_limiter [OF run window times, THEN conjunct2, THEN conjunct2, rule_format, of 0 2]
  show ?thesis unfolding stuck_run by (auto simp: nth_Cons' stuck_limiters_def)
qed

end
