(* ===== verification/Keys.thy ===== *)
theory Keys
  imports Notes "HOL-Library.State_Monad" "HOL-Library.Monad_Syntax"
begin

text \<open>
  The gateway's signing key (\<open>keys.go\<close>), its publication in the actor documents, and how a peer reads
  a published key (\<open>parseRSAPublicKeyPEM\<close> of \<open>httpsig.go\<close>).  The file system, the random source, and the
  PEM, PKCS and PKIX coders of Go's library are the operations of \<open>key_lib\<close>.
\<close>

datatype io_error = NotExist | OtherIO

datatype key_error =
    KeyRead | KeyNotPEM | KeyParse | KeyGenerate | KeyWrite | KeyMarshalPublic | KeyNotRSA | KeyBadPublic

text \<open>
  \<open>kl_parse_pkix\<close> yields a key of any algorithm: \<^const>\<open>None\<close> inside when it is not an RSA key.
\<close>

record ('w, 's, 'k) key_lib =
  kl_read :: "string \<Rightarrow> 'w \<Rightarrow> io_error + string"
  kl_write :: "string \<Rightarrow> string \<Rightarrow> 'w \<Rightarrow> bool \<times> 'w"
  kl_generate :: "'w \<Rightarrow> 's option \<times> 'w"
  kl_pem_decode :: "string \<Rightarrow> (string \<times> string) option"
  kl_pem_encode :: "string \<Rightarrow> string \<Rightarrow> string"
  kl_parse_pkcs1 :: "string \<Rightarrow> 's option"
  kl_marshal_pkcs1 :: "'s \<Rightarrow> string"
  kl_public :: "'s \<Rightarrow> 'k"
  kl_marshal_pkix :: "'k \<Rightarrow> string option"
  kl_parse_pkix :: "string \<Rightarrow> 'k option option"
  kl_parse_pkcs1_public :: "string \<Rightarrow> 'k option"

definition loadOrCreateKey :: "('w, 's, 'k) key_lib \<Rightarrow> string \<Rightarrow> ('w, key_error + 's) state" where
  "loadOrCreateKey K path = do {
     w \<leftarrow> State_Monad.get;
     (case kl_read K path w of
        Inr bt \<Rightarrow> State_Monad.return (case kl_pem_decode K bt of
            None \<Rightarrow> Inl KeyNotPEM
          | Some (_, bytes) \<Rightarrow> (case kl_parse_pkcs1 K bytes of None \<Rightarrow> Inl KeyParse | Some key \<Rightarrow> Inr key))
      | Inl OtherIO \<Rightarrow> State_Monad.return (Inl KeyRead)
      | Inl NotExist \<Rightarrow> do {
          g \<leftarrow> State (kl_generate K);
          (case g of
             None \<Rightarrow> State_Monad.return (Inl KeyGenerate)
           | Some key \<Rightarrow> do {
               ok \<leftarrow> State (kl_write K path (kl_pem_encode K ''RSA PRIVATE KEY'' (kl_marshal_pkcs1 K key)));
               State_Monad.return (if ok then Inr key else Inl KeyWrite)
             })
        })
   }"

definition publicKeyPEM :: "('w, 's, 'k) key_lib \<Rightarrow> 's \<Rightarrow> key_error + string" where
  "publicKeyPEM K key = (case kl_marshal_pkix K (kl_public K key) of
     None \<Rightarrow> Inl KeyMarshalPublic
   | Some der \<Rightarrow> Inr (kl_pem_encode K ''PUBLIC KEY'' der))"

definition parseRSAPublicKeyPEM :: "('w, 's, 'k) key_lib \<Rightarrow> string \<Rightarrow> key_error + 'k" where
  "parseRSAPublicKeyPEM K pemStr = (case kl_pem_decode K pemStr of
     None \<Rightarrow> Inl KeyBadPublic
   | Some (_, bytes) \<Rightarrow>
       (case kl_parse_pkix K bytes of
          Some None \<Rightarrow> Inl KeyNotRSA
        | Some (Some k) \<Rightarrow> Inr k
        | None \<Rightarrow> (case kl_parse_pkcs1_public K bytes of Some k \<Rightarrow> Inr k | None \<Rightarrow> Inl KeyBadPublic)))"

text \<open>The two fatal steps of \<open>main\<close>: the key and the text that the actor documents publish.\<close>

definition signing_identity :: "('w, 's, 'k) key_lib \<Rightarrow> string \<Rightarrow> ('w, key_error + 's \<times> string) state" where
  "signing_identity K path = do {
     r \<leftarrow> loadOrCreateKey K path;
     State_Monad.return (case r of
       Inl e \<Rightarrow> Inl e
     | Inr key \<Rightarrow> (case publicKeyPEM K key of Inl e \<Rightarrow> Inl e | Inr pem \<Rightarrow> Inr (key, pem)))
   }"

section \<open>The identity is stable\<close>

text \<open>
  What is relied on of the coders and of the file system: PEM and PKCS 1 coding read back what they
  wrote, so does PKIX coding of an RSA key, and a file that was written reads back as written, whatever
  generating keys does to the world.
\<close>

definition coders_ok :: "('w, 's, 'k) key_lib \<Rightarrow> bool" where
  "coders_ok K \<longleftrightarrow>
     (\<forall>ty\<in>{''RSA PRIVATE KEY'', ''PUBLIC KEY''}. \<forall>b. kl_pem_decode K (kl_pem_encode K ty b) = Some (ty, b)) \<and>
     (\<forall>s. kl_parse_pkcs1 K (kl_marshal_pkcs1 K s) = Some s) \<and>
     (\<forall>k b. kl_marshal_pkix K k = Some b \<longrightarrow> kl_parse_pkix K b = Some (Some k))"

definition files_ok :: "('w, 's, 'k) key_lib \<Rightarrow> bool" where
  "files_ok K \<longleftrightarrow> (\<forall>path data w. fst (kl_write K path data w) \<longrightarrow>
     kl_read K path (snd (kl_write K path data w)) = Inr data)"

lemma load_existing:
  "kl_read K path w = Inr bt \<Longrightarrow> run_state (loadOrCreateKey K path) w =
    (case kl_pem_decode K bt of
       None \<Rightarrow> Inl KeyNotPEM
     | Some (_, bytes) \<Rightarrow> (case kl_parse_pkcs1 K bytes of None \<Rightarrow> Inl KeyParse | Some key \<Rightarrow> Inr key), w)"
  by (simp add: loadOrCreateKey_def)

lemma load_failing:
  "kl_read K path w = Inl e \<Longrightarrow> e \<noteq> NotExist \<Longrightarrow> run_state (loadOrCreateKey K path) w = (Inl KeyRead, w)"
  by (cases e) (simp_all add: loadOrCreateKey_def)

lemma load_new:
  assumes "kl_read K path w = Inl NotExist" "run_state (loadOrCreateKey K path) w = (Inr key, w')"
  obtains w1 where "kl_write K path (kl_pem_encode K ''RSA PRIVATE KEY'' (kl_marshal_pkcs1 K key)) w1 = (True, w')"
  using assms by (auto simp: loadOrCreateKey_def split: prod.splits option.splits if_splits)

lemma loaded_key_loads:
  assumes "coders_ok K" "files_ok K" "run_state (loadOrCreateKey K path) w = (Inr key, w')"
    and "kl_read K path v = kl_read K path w'"
  shows "run_state (loadOrCreateKey K path) v = (Inr key, v)"
proof (cases "kl_read K path w")
  case (Inr bt)
  with assms(3,4) show ?thesis by (simp add: load_existing)
next
  case (Inl e)
  with assms(3) have "e = NotExist" by (cases e) (auto simp: load_failing)
  with Inl assms(3) obtain w1 where
    "kl_write K path (kl_pem_encode K ''RSA PRIVATE KEY'' (kl_marshal_pkcs1 K key)) w1 = (True, w')"
    by (blast elim: load_new)
  with assms(2,4) have "kl_read K path v = Inr (kl_pem_encode K ''RSA PRIVATE KEY'' (kl_marshal_pkcs1 K key))"
    unfolding files_ok_def by (metis fst_conv snd_conv)
  with assms(1) show ?thesis by (simp add: load_existing coders_ok_def)
qed

lemma published_key_parses:
  "coders_ok K \<Longrightarrow> publicKeyPEM K key = Inr pem \<Longrightarrow> parseRSAPublicKeyPEM K pem = Inr (kl_public K key)"
  by (auto simp: publicKeyPEM_def parseRSAPublicKeyPEM_def coders_ok_def split: option.splits)

lemma run_identity:
  "run_state (signing_identity K path) w = (Inr (key, pem), w') \<longleftrightarrow>
    run_state (loadOrCreateKey K path) w = (Inr key, w') \<and> publicKeyPEM K key = Inr pem"
  by (cases "run_state (loadOrCreateKey K path) w") (auto simp: signing_identity_def split: sum.splits)

text \<open>
  C34: the gateway keeps its identity.  Once a start has obtained a key, every later start that finds the
  key file as it was left obtains the same key and the same published text and writes nothing; a file
  that can be read, or that fails to be read for another reason than not existing, is never
  overwritten; and a peer that parses the key in the actor document of any user, as the gateway itself
  parses a peer's, gets the public half of the key that signs.
\<close>

theorem identity_survives_restart:
  assumes "coders_ok K" "files_ok K"
  shows "(run_state (signing_identity K path) w = (Inr (key, pem), w') \<longrightarrow>
      (\<forall>v. kl_read K path v = kl_read K path w' \<longrightarrow> run_state (signing_identity K path) v = (Inr (key, pem), v)) \<and>
      (\<forall>g wu. gw_keyPubPEM g = pem \<longrightarrow>
         parseRSAPublicKeyPEM K (pk_PublicKeyPEM (ac_PublicKey (buildActor g wu))) = Inr (kl_public K key))) \<and>
    (kl_read K path w \<noteq> Inl NotExist \<longrightarrow> snd (run_state (signing_identity K path) w) = w)"
proof (rule conjI; rule impI)
  assume r: "run_state (signing_identity K path) w = (Inr (key, pem), w')"
  then have l: "run_state (loadOrCreateKey K path) w = (Inr key, w')" and p: "publicKeyPEM K key = Inr pem"
    by (simp_all add: run_identity)
  show "(\<forall>v. kl_read K path v = kl_read K path w' \<longrightarrow> run_state (signing_identity K path) v = (Inr (key, pem), v)) \<and>
      (\<forall>g wu. gw_keyPubPEM g = pem \<longrightarrow>
         parseRSAPublicKeyPEM K (pk_PublicKeyPEM (ac_PublicKey (buildActor g wu))) = Inr (kl_public K key))"
    using loaded_key_loads [OF assms l] published_key_parses [OF assms(1) p] p
    by (simp add: run_identity buildActor_def Let_def)
next
  assume "kl_read K path w \<noteq> Inl NotExist"
  then have "snd (run_state (loadOrCreateKey K path) w) = w"
    by (cases "kl_read K path w") (auto simp: load_existing load_failing)
  then show "snd (run_state (signing_identity K path) w) = w"
    by (cases "run_state (loadOrCreateKey K path) w") (simp add: signing_identity_def)
qed

text \<open>A disk that holds at most the key file, with keys that are texts.\<close>

definition sample_key_lib :: "(string option, string, string) key_lib" where
  "sample_key_lib = \<lparr>kl_read = (\<lambda>_ w. case w of None \<Rightarrow> Inl NotExist | Some d \<Rightarrow> Inr d),
     kl_write = (\<lambda>_ d w. (True, Some d)), kl_generate = (\<lambda>w. (Some ''k1'', w)),
     kl_pem_decode = (\<lambda>d. case d of [] \<Rightarrow> None | c # b \<Rightarrow> Some (if c = CHR ''P'' then ''PUBLIC KEY'' else ''RSA PRIVATE KEY'', b)),
     kl_pem_encode = (\<lambda>ty b. (if ty = ''PUBLIC KEY'' then CHR ''P'' else CHR ''R'') # b),
     kl_parse_pkcs1 = Some, kl_marshal_pkcs1 = (\<lambda>s. s), kl_public = rev, kl_marshal_pkix = Some,
     kl_parse_pkix = (\<lambda>b. Some (Some b)), kl_parse_pkcs1_public = (\<lambda>_. None)\<rparr>"

lemma identity_survives_restart_witness:
  "run_state (signing_identity sample_key_lib ''gateway.pem'') (Some ''Rk1'') = (Inr (''k1'', ''P1k''), Some ''Rk1'')"
proof -
  have ok: "coders_ok sample_key_lib" "files_ok sample_key_lib"
    by (simp_all add: coders_ok_def files_ok_def sample_key_lib_def)
  have "run_state (signing_identity sample_key_lib ''gateway.pem'') None = (Inr (''k1'', ''P1k''), Some ''Rk1'')"
    by (simp add: signing_identity_def loadOrCreateKey_def publicKeyPEM_def sample_key_lib_def)
  with identity_survives_restart [OF ok] show ?thesis by blast
qed

end
