(* ===== verification/Start_Up.thy ===== *)
theory Start_Up
  imports Keys Server_Facts Node_Server
begin

text \<open>
  Start-up (\<open>main.go\<close>, \<open>connectNetwork\<close> and \<open>close\<close> of \<open>nodeclient.go\<close>): joining Warpnet through the
  entry peers, and the wiring of the components.  The libp2p host, the DHT and the parsing of peer
  addresses are the operations of \<open>net_lib\<close>; the other steps are written out.
\<close>

section \<open>Configuration\<close>

definition envOr :: "(string \<Rightarrow> string) \<Rightarrow> string \<Rightarrow> string \<Rightarrow> string" where
  "envOr getenv key def = (let v = getenv key in if v \<noteq> [] then v else def)"

definition defaultWarpnetNetwork :: string where "defaultWarpnetNetwork = ''warpnet''"
definition defaultGatewaySeed :: string where "defaultGatewaySeed = ''warpnet-activitypub-gateway''"
definition defaultP2PListen :: string where "defaultP2PListen = ''/ip4/0.0.0.0/tcp/4040''"
definition defaultOwnerHandle :: string where "defaultOwnerHandle = ''warpnet@mastodon.social''"

definition bootstrapByNetwork :: "string \<Rightarrow> string list" where
  "bootstrapByNetwork network =
     (if network = defaultWarpnetNetwork then
        [''/ip4/207.154.221.44/tcp/4001/p2p/12D3KooWMKZFrp1BDKg9amtkv5zWnLhuUXN32nhqMvbtMdV2hz7j'',
         ''/ip4/207.154.221.44/tcp/4002/p2p/12D3KooWSjbYrsVoXzJcEtmgJLMVCbPXMzJmNN1JkEZB9LJ2rnmU'',
         ''/ip4/207.154.221.44/tcp/4003/p2p/12D3KooWNXSGyfTuYc3JznW48jay73BtQgHszWfPpyF581EWcpGJ'',
         ''/ip4/130.94.88.38/tcp/4011/p2p/12D3KooWNW7nbLpbsEVJ86JN6c1zXRDKGCbqmLfhitFCPccRv2YW'']
      else if network = ''testnet'' then
        [''/ip4/207.154.221.44/tcp/4011/p2p/12D3KooWMKZFrp1BDKg9amtkv5zWnLhuUXN32nhqMvbtMdV2hz7j'',
         ''/ip4/207.154.221.44/tcp/4022/p2p/12D3KooWSjbYrsVoXzJcEtmgJLMVCbPXMzJmNN1JkEZB9LJ2rnmU'',
         ''/ip4/207.154.221.44/tcp/4033/p2p/12D3KooWNXSGyfTuYc3JznW48jay73BtQgHszWfPpyF581EWcpGJ'']
      else [])"

section \<open>Joining the network\<close>

record addr_info =
  ai_ID :: string
  ai_Addrs :: "string list"

datatype net_error =
    NoEntryPeers | NoEntryReachable | NetIdentity | NetKey | NetVersion | NetPSK | NetResources | NetHost | NetDHT

text \<open>The options of the host that \<open>connectNetwork\<close> chooses.\<close>

record host_options =
  ho_identity :: string
  ho_psk :: string
  ho_listen :: string
  ho_private :: bool
  ho_static_relays :: "addr_info list"

record 'w net_lib =
  nt_parse :: "string \<Rightarrow> addr_info option"
  nt_seed_key :: "string \<Rightarrow> string option"
  nt_p2p_key :: "string \<Rightarrow> string option"
  nt_version :: "string \<Rightarrow> string option"
  nt_psk :: "string \<Rightarrow> string \<Rightarrow> string option"
  nt_resources :: "'w \<Rightarrow> bool \<times> 'w"
  nt_host :: "host_options \<Rightarrow> 'w \<Rightarrow> string option \<times> 'w"
  nt_dht :: "string \<Rightarrow> addr_info list \<Rightarrow> 'w \<Rightarrow> bool \<times> 'w"
  nt_connect :: "addr_info \<Rightarrow> 'w \<Rightarrow> bool \<times> 'w"
  nt_bootstrap :: "'w \<Rightarrow> 'w"

text \<open>What is opened and closed, and which entry peers were connected to, is logged.\<close>

datatype net_event = OpenHost | OpenDHT | CloseDHT | CloseHost | Connected string

type_synonym ('w, 'a) net = "('w \<times> net_event list, 'a) state"

definition net_op :: "('w \<Rightarrow> 'a \<times> 'w) \<Rightarrow> ('w, 'a) net" where
  "net_op f = State (\<lambda>(w, log). let (a, w') = f w in (a, (w', log)))"

definition net_log :: "net_event \<Rightarrow> ('w, unit) net" where
  "net_log e = State (\<lambda>(w, log). ((), (w, log @ [e])))"

definition networkEntries :: "'w net_lib \<Rightarrow> string \<Rightarrow> net_error + addr_info list" where
  "networkEntries T network =
     (let entries = List.map_filter (nt_parse T) (bootstrapByNetwork network) in
      if entries = [] then Inl NoEntryPeers else Inr entries)"

text \<open>The entry peers are tried in order; the result is the number of those connected.\<close>

fun connect_entries :: "'w net_lib \<Rightarrow> addr_info list \<Rightarrow> ('w, nat) net" where
  "connect_entries T [] = ret 0"
| "connect_entries T (e # es) = do {
     ok \<leftarrow> net_op (nt_connect T e);
     (if ok then net_log (Connected (ai_ID e)) else ret ());
     n \<leftarrow> connect_entries T es;
     ret (if ok then Suc n else n)
   }"

record client =
  cl_self :: string
  cl_priv :: string
  cl_relays :: "string list"

text \<open>From the host on, when the identity and the key of the private network are there.\<close>

definition join_network :: "'w net_lib \<Rightarrow> string \<Rightarrow> addr_info list \<Rightarrow> string \<Rightarrow> host_options \<Rightarrow> ('w, net_error + client) net" where
  "join_network T network entries priv opts = do {
     h \<leftarrow> net_op (nt_host T opts);
     (case h of
        None \<Rightarrow> ret (Inl NetHost)
      | Some self \<Rightarrow> do {
          net_log OpenHost;
          d \<leftarrow> net_op (nt_dht T (''/'' @ network) entries);
          (if \<not> d then do { net_log CloseHost; ret (Inl NetDHT) }
           else do {
             net_log OpenDHT;
             connected \<leftarrow> connect_entries T entries;
             (if connected = 0 then do { net_log CloseDHT; net_log CloseHost; ret (Inl NoEntryReachable) }
              else do {
                net_op (\<lambda>w. ((), nt_bootstrap T w));
                ret (Inr \<lparr>cl_self = self, cl_priv = priv, cl_relays = map ai_ID entries\<rparr>)
              })
           })
        })
   }"

definition connectNetwork :: "'w net_lib \<Rightarrow> (string \<Rightarrow> string) \<Rightarrow> ('w, net_error + client) net" where
  "connectNetwork T getenv =
     (let network = envOr getenv ''NODE_NETWORK'' defaultWarpnetNetwork in
      case networkEntries T network of Inl e \<Rightarrow> ret (Inl e) | Inr entries \<Rightarrow>
      (case nt_seed_key T defaultGatewaySeed of None \<Rightarrow> ret (Inl NetIdentity) | Some priv \<Rightarrow>
      (case nt_p2p_key T priv of None \<Rightarrow> ret (Inl NetKey) | Some p2p \<Rightarrow>
      (case nt_version T ''0.0.0'' of None \<Rightarrow> ret (Inl NetVersion) | Some ver \<Rightarrow>
      (case nt_psk T network ver of None \<Rightarrow> ret (Inl NetPSK) | Some psk \<Rightarrow> do {
        rm \<leftarrow> net_op (nt_resources T);
        (if \<not> rm then ret (Inl NetResources)
         else join_network T network entries priv \<lparr>ho_identity = p2p, ho_psk = psk, ho_listen = defaultP2PListen,
           ho_private = True, ho_static_relays = entries\<rparr>)
      })))))"

text \<open>\<open>close\<close> of a connected client.\<close>

definition close_client :: "('w, unit) net" where
  "close_client = do { net_log CloseDHT; net_log CloseHost }"

text \<open>The node client's environment, with what joining the network decides.\<close>

definition joined_env :: "client \<Rightarrow> 'w node_env \<Rightarrow> 'w node_env" where
  "joined_env c N = N\<lparr>nc_self := cl_self c, nc_relays := cl_relays c, nc_has_dht := True\<rparr>"

section \<open>Nothing is left open\<close>

text \<open>Whether the host and the DHT are open after a log.\<close>

fun net_open :: "net_event \<Rightarrow> bool \<times> bool \<Rightarrow> bool \<times> bool" where
  "net_open OpenHost (h, d) = (True, d)"
| "net_open OpenDHT (h, d) = (h, True)"
| "net_open CloseHost (h, d) = (False, d)"
| "net_open CloseDHT (h, d) = (h, False)"
| "net_open (Connected p) (h, d) = (h, d)"

lemma run_net_op [simp]: "run_state (net_op f) (w, lg) = (fst (f w), (snd (f w), lg))"
  by (simp add: net_op_def split: prod.split)

lemma run_net_log [simp]: "run_state (net_log e) (w, lg) = ((), (w, lg @ [e]))"
  by (simp add: net_log_def)

lemma entries_connected:
  "run_state (connect_entries T es) (w, lg) = (n, (w', lg')) \<Longrightarrow>
    \<exists>ps. lg' = lg @ map Connected ps \<and> length ps = n \<and> set ps \<subseteq> ai_ID ` set es"
proof (induction es arbitrary: w lg n)
  case (Cons e es)
  obtain n' where r: "run_state (connect_entries T es) (snd (nt_connect T e w),
      lg @ (if fst (nt_connect T e w) then [Connected (ai_ID e)] else [])) = (n', (w', lg'))"
    "n = (if fst (nt_connect T e w) then Suc n' else n')"
    using Cons.prems by (cases "fst (nt_connect T e w)") (auto split: prod.splits)
  from Cons.IH [OF r(1)] obtain ps where ps: "lg' = (lg @ (if fst (nt_connect T e w) then [Connected (ai_ID e)] else [])) @ map Connected ps"
    "length ps = n'" "set ps \<subseteq> ai_ID ` set es" by blast
  show ?case
    using ps r(2) by (intro exI [of _ "(if fst (nt_connect T e w) then [ai_ID e] else []) @ ps"]) auto
qed simp

lemma connecting_opens_nothing: "fold net_open (map Connected ps) st = st"
  by (induction ps arbitrary: st) auto

lemma join_clean:
  assumes "run_state (join_network T network entries priv opts) (w, lg) = (r, (w', lg'))"
  shows "\<exists>es. lg' = lg @ es \<and>
    (case r of
       Inl e \<Rightarrow> fold net_open es (False, False) = (False, False)
     | Inr c \<Rightarrow> fold net_open es (False, False) = (True, True) \<and> cl_relays c = map ai_ID entries \<and>
         (\<exists>a\<in>set entries. Connected (ai_ID a) \<in> set es))"
proof (cases "fst (nt_host T opts w)")
  case None
  with assms show ?thesis by (auto simp: join_network_def)
next
  case (Some self)
  let ?w1 = "snd (nt_host T opts w)"
  let ?d = "nt_dht T (''/'' @ network) entries ?w1"
  show ?thesis
  proof (cases "fst ?d")
    case False
    with assms Some show ?thesis by (auto simp: join_network_def)
  next
    case True
    obtain n w2 lg2 where c: "run_state (connect_entries T entries) (snd ?d, lg @ [OpenHost, OpenDHT]) = (n, (w2, lg2))"
      by (metis prod_cases3)
    from entries_connected [OF c] obtain ps where
      ps: "lg2 = lg @ [OpenHost, OpenDHT] @ map Connected ps" "length ps = n" "set ps \<subseteq> ai_ID ` set entries" by auto
    show ?thesis
    proof (cases "n = 0")
      case True
      with assms Some \<open>fst ?d\<close> c ps show ?thesis by (auto simp: join_network_def)
    next
      case False
      with ps obtain a where "a \<in> set entries" "ai_ID a \<in> set ps" by (cases ps) auto
      with assms Some True False c ps show ?thesis
        by (auto simp: join_network_def connecting_opens_nothing intro!: bexI [of _ a])
    qed
  qed
qed

lemma entries_known: "networkEntries T network = Inr entries \<Longrightarrow> bootstrapByNetwork network \<noteq> []"
  by (auto simp: networkEntries_def Let_def List.map_filter_def)

text \<open>Requests that go to none of the peers \<open>A\<close>.\<close>

fun avoids :: "string set \<Rightarrow> gw_event \<Rightarrow> bool" where
  "avoids A (EvNode q r p) = (q \<notin> A)"
| "avoids A (EvSend hop addr rq) = True"

lemma request_avoids: "emits (avoids (set (nc_relays N))) (request N r p)"
proof (rule emitsI)
  fix s res s' assume "run_state (request N r p) s = (res, s')"
  from request_sends [OF this] obtain qs where "st_trace s' = st_trace s @ map (\<lambda>q. EvNode q r p) qs"
    "\<forall>q\<in>set qs. q \<notin> set (nc_relays N)" by (auto simp: member_list_def)
  then show "extends (avoids (set (nc_relays N))) s s'" by (auto simp: extends_def)
qed

text \<open>A request for a user may go to a relay in one case: when that is the node it resolved for the user.\<close>

lemma requestUser_avoids:
  assumes "run_state (requestUser N u r p) s = (res, s')"
  shows "extends (avoids (set (nc_relays N) - set_option (fst (run_state (ownerNode N u) s)))) s s'"
proof -
  obtain owner s1 where o: "run_state (ownerNode N u) s = (owner, s1)" by fastforce
  let ?P = "avoids (set (nc_relays N) - set_option owner)"
  have weaker: "avoids (set (nc_relays N)) e \<Longrightarrow> ?P e" for e by (cases e) auto
  then have req: "emits ?P (request N r' p')" for r' p'
    using request_avoids emits_mono by blast
  have req': "emits (avoids (set (nc_relays N) - B)) (request N r p)" for B
  proof (rule emits_mono [OF request_avoids])
    show "avoids (set (nc_relays N) - B) e" if "avoids (set (nc_relays N)) e" for e using that by (cases e) auto
  qed
  have "emits ?P (ownerNode N u)"
    unfolding ownerNode_def by (auto intro!: keeps_intros req)
  then have 1: "extends ?P s s1" using o by (rule emitsD)
  have "emits ?P (case owner of None \<Rightarrow> request N r p
      | Some q \<Rightarrow> do {
        emit (EvNode q r p);
        resp \<leftarrow> world (nc_stream N q r p);
        (case resp of
           Some bt \<Rightarrow> do { remember q; ret (Inr bt) }
         | None \<Rightarrow> do { world_do (nc_owner_remove N u); request N r p })
      })"
    by (auto intro!: keeps_intros req' request_avoids split: option.split)
  then have "extends ?P s1 s'" using assms o by (intro emitsD) (simp_all add: requestUser_def)
  from extends_trans [OF 1 this] show ?thesis by (simp add: o)
qed

text \<open>
  C35: joining Warpnet is all or nothing, and the entry peers are not asked.  If \<open>connectNetwork\<close> fails,
  whatever failed, everything it opened has been closed again, and for a network without known entry
  peers nothing is ever opened; if it succeeds, the host and the DHT are open, \<open>close\<close> closes both, and at
  least one of the network's entry peers was connected to.  From then on \<open>request\<close> is never sent to an
  entry peer, and \<open>requestUser\<close> is sent to one only if that is the very node that \<open>ownerNode\<close> answers for
  the user, which takes the node id from the user's profile and does not compare it with the relays.
\<close>

theorem joining_is_all_or_nothing:
  assumes "run_state (connectNetwork T getenv) (w, lg) = (r, (w', lg'))"
  shows "\<exists>es. lg' = lg @ es \<and>
    (bootstrapByNetwork (envOr getenv ''NODE_NETWORK'' defaultWarpnetNetwork) = [] \<longrightarrow> r = Inl NoEntryPeers \<and> es = []) \<and>
    (case r of
       Inl e \<Rightarrow> fold net_open es (False, False) = (False, False)
     | Inr c \<Rightarrow> \<exists>entries. networkEntries T (envOr getenv ''NODE_NETWORK'' defaultWarpnetNetwork) = Inr entries \<and>
         fold net_open es (False, False) = (True, True) \<and>
         fold net_open (es @ snd (snd (run_state close_client (w', [])))) (False, False) = (False, False) \<and>
         (\<exists>a\<in>set entries. Connected (ai_ID a) \<in> set es) \<and>
         (\<forall>(N :: 'n node_env) rt p. emits (avoids (ai_ID ` set entries)) (request (joined_env c N) rt p)) \<and>
         (\<forall>(N :: 'n node_env) u rt p s. extends (avoids (ai_ID ` set entries - set_option (fst (run_state (ownerNode (joined_env c N) u) s))))
            s (snd (run_state (requestUser (joined_env c N) u rt p) s))))"
proof (cases "networkEntries T (envOr getenv ''NODE_NETWORK'' defaultWarpnetNetwork)")
  case (Inl e)
  then show ?thesis using assms by (auto simp: connectNetwork_def networkEntries_def Let_def split: if_splits)
next
  case (Inr entries)
  have known: "bootstrapByNetwork (envOr getenv ''NODE_NETWORK'' defaultWarpnetNetwork) \<noteq> []"
    by (rule entries_known [OF Inr])
  consider e where "r = Inl e" "lg' = lg" | priv opts w1 where
    "run_state (join_network T (envOr getenv ''NODE_NETWORK'' defaultWarpnetNetwork) entries priv opts) (w1, lg) = (r, (w', lg'))"
    using assms Inr by (auto simp: connectNetwork_def Let_def split: option.splits if_splits)
  then show ?thesis
  proof cases
    case 1
    with known show ?thesis by (intro exI [of _ "[]"]) simp
  next
    case (2 priv opts w1)
    from join_clean [OF 2] obtain es where es: "lg' = lg @ es"
      "case r of
         Inl e \<Rightarrow> fold net_open es (False, False) = (False, False)
       | Inr c \<Rightarrow> fold net_open es (False, False) = (True, True) \<and> cl_relays c = map ai_ID entries \<and>
           (\<exists>a\<in>set entries. Connected (ai_ID a) \<in> set es)" by blast
    show ?thesis
    proof (cases r)
      case (Inl e)
      with es known show ?thesis by (intro exI [of _ es]) simp
    next
      case (Inr c)
      with es have c: "fold net_open es (False, False) = (True, True)" "cl_relays c = map ai_ID entries"
        "\<exists>a\<in>set entries. Connected (ai_ID a) \<in> set es" by simp_all
      have rel: "set (nc_relays (joined_env c N)) = ai_ID ` set entries" for N :: "'n node_env"
        by (simp add: joined_env_def c(2))
      have "emits (avoids (ai_ID ` set entries)) (request (joined_env c N) rt p)" for N :: "'n node_env" and rt p
        using request_avoids [of "joined_env c N"] by (simp add: rel)
      moreover have "extends (avoids (ai_ID ` set entries - set_option (fst (run_state (ownerNode (joined_env c N) u) s))))
            s (snd (run_state (requestUser (joined_env c N) u rt p) s))" for N :: "'n node_env" and u rt p s
        using requestUser_avoids [of "joined_env c N" u rt p s] by (simp add: rel prod_eq_iff)
      ultimately show ?thesis
        using c es(1) Inr known \<open>networkEntries T _ = Inr entries\<close>
        by (intro exI [of _ es]) (simp add: close_client_def)
    qed
  qed
qed

text \<open>A network on which the first entry peer can be reached.\<close>

definition sample_net :: "unit net_lib" where
  "sample_net = \<lparr>nt_parse = (\<lambda>a. Some \<lparr>ai_ID = drop 37 a, ai_Addrs = [take 31 a]\<rparr>), nt_seed_key = Some, nt_p2p_key = Some,
     nt_version = Some, nt_psk = (\<lambda>n v. Some (n @ v)), nt_resources = (\<lambda>w. (True, w)), nt_host = (\<lambda>_ w. (Some ''gw'', w)),
     nt_dht = (\<lambda>_ _ w. (True, w)), nt_connect = (\<lambda>a w. (True, w)), nt_bootstrap = (\<lambda>w. w)\<rparr>"

text \<open>The run on the default network: both are opened, the four entry peers are connected to.\<close>

lemma sample_join:
  "map_sum (\<lambda>e. e) cl_self (fst (run_state (connectNetwork sample_net (\<lambda>_. [])) ((), []))) = Inr ''gw''"
  by code_simp

lemma joining_is_all_or_nothing_witness:
  "(\<exists>e es w'. run_state (connectNetwork sample_net (\<lambda>_. ''nowhere'')) ((), []) = (Inl e, (w', es)) \<and> e = NoEntryPeers \<and> es = []) \<and>
   (\<exists>c es w' (entries :: addr_info list). run_state (connectNetwork sample_net (\<lambda>_. [])) ((), []) = (Inr c, (w', es)) \<and>
     fold net_open es (False, False) = (True, True) \<and> (\<exists>a\<in>set entries. Connected (ai_ID a) \<in> set es) \<and>
     emits (avoids (ai_ID ` set entries)) (request (joined_env c sample_idle_node) routeGetUser (GetUserEvent ''alice'')))"
proof
  obtain r w' es where "run_state (connectNetwork sample_net (\<lambda>_. ''nowhere'')) ((), []) = (r, (w', es))"
    by (metis prod_cases3)
  moreover have "bootstrapByNetwork (envOr (\<lambda>_. ''nowhere'') ''NODE_NETWORK'' defaultWarpnetNetwork) = []"
    by (simp add: bootstrapByNetwork_def envOr_def defaultWarpnetNetwork_def)
  ultimately show "\<exists>e es w'. run_state (connectNetwork sample_net (\<lambda>_. ''nowhere'')) ((), []) = (Inl e, (w', es)) \<and>
      e = NoEntryPeers \<and> es = []"
    using joining_is_all_or_nothing by fastforce
  obtain r w1 lg1 where run: "run_state (connectNetwork sample_net (\<lambda>_. [])) ((), []) = (r, (w1, lg1))"
    by (metis prod_cases3)
  then obtain c where c: "r = Inr c" using sample_join by (cases r) auto
  from joining_is_all_or_nothing [where 'n = "http_response list", OF run [unfolded c]] obtain entries :: "addr_info list" where
    "fold net_open lg1 (False, False) = (True, True)" "\<exists>a\<in>set entries. Connected (ai_ID a) \<in> set lg1"
    "\<forall>(N :: http_response list node_env) rt p. emits (avoids (ai_ID ` set entries)) (request (joined_env c N) rt p)"
    by auto
  with run c show "\<exists>c es w' (entries :: addr_info list). run_state (connectNetwork sample_net (\<lambda>_. [])) ((), []) = (Inr c, (w', es)) \<and>
     fold net_open es (False, False) = (True, True) \<and> (\<exists>a\<in>set entries. Connected (ai_ID a) \<in> set es) \<and>
     emits (avoids (ai_ID ` set entries)) (request (joined_env c sample_idle_node) routeGetUser (GetUserEvent ''alice''))"
    by blast
qed

section \<open>Wiring\<close>

text \<open>The public host: the name of the Tailscale node, without its final dot; none is fatal.\<close>

definition main_host :: "string \<Rightarrow> string option" where
  "main_host dns = (if dns = [] then None else Some (trim_suffix dns ''.''))"

definition main_gateway :: "string \<Rightarrow> string \<Rightarrow> client option \<Rightarrow> (string \<Rightarrow> string) \<Rightarrow> gateway" where
  "main_gateway host pem cli getenv = \<lparr>gw_host = host, gw_has_key = True, gw_keyPubPEM = pem, gw_has_node = cli \<noteq> None,
     gw_logsToken = getenv ''GATEWAY_LOGS_TOKEN'', gw_allowPrivateTargets = False\<rparr>"

text \<open>\<open>staticSource\<close>'s zero value is the source when the network cannot be joined.\<close>

definition zero_user :: warpnetUser where
  "zero_user = \<lparr>wu_ID = [], wu_PreferredUsername = [], wu_DisplayName = [], wu_Summary = [], wu_Avatar = [],
     wu_Background = []\<rparr>"

definition main_source :: "'w node_env \<Rightarrow> client option \<Rightarrow> 'w source" where
  "main_source N cli = (case cli of
     None \<Rightarrow> (\<lambda>u. ret (staticSource_GetUser zero_user u))
   | Some c \<Rightarrow> nodeSource_GetUser (node_requester (joined_env c N)) (nc_codec N))"

definition main_followers :: "('w, 'k) gw_env \<Rightarrow> 'w node_env \<Rightarrow> 'w lru_lists \<Rightarrow> client option \<Rightarrow> 'w followerStore" where
  "main_followers E N D cli = (case cli of
     None \<Rightarrow> memFollowerStore D
   | Some c \<Rightarrow> nodeFollowerStore (node_requester (joined_env c N)) (nc_codec N) (resolveActorID E))"

text \<open>The HTTP server that \<open>main\<close> starts; the rest of its record is taken from \<open>S\<close>.\<close>

definition main_server ::
  "('w, 'k) server \<Rightarrow> 'w node_env \<Rightarrow> 'w lru_lists \<Rightarrow> client option \<Rightarrow> string \<Rightarrow> string \<Rightarrow> (string \<Rightarrow> string) \<Rightarrow> ('w, 'k) server" where
  "main_server S N D cli host pem getenv =
     (let E = (sv_env S)\<lparr>env_gw := main_gateway host pem cli getenv\<rparr> in
      S\<lparr>sv_env := E, sv_source := main_source N cli, sv_followers := main_followers E N D cli,
        sv_codec := nc_codec N\<rparr>)"

text \<open>The libp2p server that \<open>main\<close> starts when the network was joined.\<close>

definition main_node_server ::
  "('w, 'k) gw_env \<Rightarrow> 'w node_env \<Rightarrow> client \<Rightarrow> (string \<Rightarrow> string) \<Rightarrow> node_lib \<Rightarrow> ('w \<Rightarrow> bool \<times> 'w) \<Rightarrow> ('w \<Rightarrow> string list \<times> 'w) \<Rightarrow>
    ('w, 'k) node_server" where
  "main_node_server E N c getenv L cancelled addrs =
     \<lparr>ns_env = E, ns_id = cl_self c,
      ns_followers = nodeFollowerStore (node_requester (joined_env c N)) (nc_codec N) (resolveActorID E),
      ns_cancelled = cancelled, ns_lib = L, ns_owner = defaultOwnerHandle, ns_addrs = addrs,
      ns_network = envOr getenv ''NODE_NETWORK'' defaultWarpnetNetwork\<rparr>"

text \<open>
  The handler of \<open>routes\<close>: the rate limiting around the mux; its limiters are a state of their own.  The
  answer to a request that is refused is the one of \<open>middleware\<close>.
\<close>

definition limited_routes ::
  "('v, 'l) limiter_lib \<Rightarrow> ('w, 'k) server \<Rightarrow> string \<Rightarrow> in_request \<Rightarrow> 'l rateLimiters \<times> 'v \<Rightarrow> 'w gw_state \<Rightarrow>
    (response \<times> job option) \<times> ('l rateLimiters \<times> 'v) \<times> 'w gw_state" where
  "limited_routes B S ip r ls s = (case run_state (middleware B ip (ir_path r)) ls of
     (Inl secs, ls') \<Rightarrow> (((http_error ''rate limit exceeded'' 429)\<lparr>rp_header := [(''Retry-After'', show_nat (nat secs))]\<rparr>, None), ls', s)
   | (Inr _, ls') \<Rightarrow> (case run_state (routes S r) s of (a, s') \<Rightarrow> (a, ls', s')))"

lemma offline_source: "run_state (main_source N None u) s = (if u = [] then Some zero_user else None, s)"
  by (simp add: main_source_def staticSource_GetUser_def zero_user_def)

lemma first_part:
  assumes "CHR ''/'' \<notin> set u" "sub = [] \<or> (\<exists>x. sub = CHR ''/'' # x)"
  shows "user_parts (''/users/'' @ u @ sub) ! 0 = u"
  using assms unfolding user_parts_def pathUsers_def trim_prefix_append
  by (auto simp: split_on_absent split_on_append)

text \<open>
  C37: without the network the gateway serves no user.  When \<open>main\<close> could not join Warpnet, every request
  for anything under the path of a named user, its inbox included, is answered \<open>Not Found\<close> without
  any effect, and so is WebFinger for a named user; but the zero value of the static source answers to
  the empty name, so the path of the users themselves is answered with the actor document of a user
  without a name.
\<close>

theorem offline_gateway_serves_no_user:
  assumes "S = main_server S0 N D None host pem getenv" "CHR ''@'' \<notin> set host"
  shows "(\<forall>r u sub. ir_path r = ''/users/'' @ u @ sub \<and> u \<noteq> [] \<and> CHR ''/'' \<notin> set u \<and>
        (sub = [] \<or> (\<exists>x. sub = CHR ''/'' # x)) \<longrightarrow>
      run_state (routes S r) s = ((http_NotFound, None), s)) \<and>
    (\<forall>r u. ir_path r = ''/.well-known/webfinger'' \<and> u \<noteq> [] \<and> u \<noteq> instanceActorName \<and>
        query_get (ir_query r) ''resource'' = ''acct:'' @ u @ ''@'' @ host \<longrightarrow>
      run_state (routes S r) s = ((http_NotFound, None), s)) \<and>
    (\<forall>r. ir_path r = ''/users/'' \<longrightarrow>
      run_state (routes S r) s = ((serveActor S zero_user, None), s))"
proof -
  have src: "sv_source S = main_source N None" and gw: "sv_gw S = main_gateway host pem None getenv"
    using assms(1) by (simp_all add: main_server_def Let_def sv_gw_def)
  have "run_state (routes S r) s = ((http_NotFound, None), s)"
    if "ir_path r = ''/users/'' @ u @ sub" "u \<noteq> []" "CHR ''/'' \<notin> set u" "sub = [] \<or> (\<exists>x. sub = CHR ''/'' # x)" for r u sub
    unfolding routes_users [OF that(1)] handleUsers_def Let_def that(1) first_part [OF that(3,4)] src
    by (simp add: offline_source that(2))
  moreover have "run_state (routes S r) s = ((http_NotFound, None), s)"
    if "ir_path r = ''/.well-known/webfinger''" "u \<noteq> []" "u \<noteq> instanceActorName"
      "query_get (ir_query r) ''resource'' = ''acct:'' @ u @ ''@'' @ host" for r u
  proof -
    have t: "trim_prefix (query_get (ir_query r) ''resource'') ''acct:'' = u @ ''@'' @ host"
      unfolding that(4) trim_prefix_append ..
    have l: "last_index (u @ ''@'' @ host) ''@'' = Some (length u)"
      using last_index_byte [OF assms(2), of u] by simp
    show ?thesis
      unfolding routes_def handleWebFinger_def Let_def t l src
      using that(2,3) by (simp add: endpoint_of_def that(1) plain_reply_def gw main_gateway_def offline_source)
  qed
  moreover have "run_state (routes S r) s = ((serveActor S zero_user, None), s)" if "ir_path r = ''/users/''" for r
  proof -
    from that have p: "ir_path r = ''/users/'' @ [] @ []" by simp
    have "user_parts ''/users/'' = [[]]" by code_simp
    with p show ?thesis
      unfolding routes_users [OF p] handleUsers_def Let_def src by (simp add: offline_source user_target_def)
  qed
  ultimately show ?thesis by blast
qed

lemma offline_gateway_serves_no_user_witness:
  "run_state (routes (main_server sample_server sample_idle_node \<lparr>ll_get = (\<lambda>_ w. ([], w)), ll_add = (\<lambda>_ _ w. w)\<rparr>
      None ''gw.example'' ''pem'' (\<lambda>_. [])) (sample_get ''/users/alice/inbox'' [])) (start_state [])
     = ((http_NotFound, None), start_state [])"
proof -
  have at: "CHR ''@'' \<notin> set ''gw.example''" by simp
  have "ir_path (sample_get ''/users/alice/inbox'' []) = ''/users/'' @ ''alice'' @ ''/inbox''" by (simp add: sample_get_def)
  moreover have "''alice'' \<noteq> [] \<and> CHR ''/'' \<notin> set ''alice'' \<and> (''/inbox'' = [] \<or> (\<exists>x. ''/inbox'' = CHR ''/'' # x))" by simp
  ultimately show ?thesis
    using offline_gateway_serves_no_user [OF refl at, THEN conjunct1] by blast
qed

end
