(* ===== verification/Front_Door.thy ===== *)
theory Front_Door
  imports Drain Start_Up
begin

text \<open>
  The gateway's HTTP handler as a whole: the throttle in front of the router (\<open>routes\<close> of \<open>server.go\<close> with
  the middleware of \<open>rate-limit.go\<close>).
\<close>

lemma federation_control:
  assumes "CHR ''/'' \<notin> set u"
    and "p \<in> {''/.well-known/webfinger'', ''/actor'', ''/inbox'', ''/users/'' @ u, ''/users/'' @ u @ ''/inbox''}"
  shows "isControlPlane p"
proof -
  have fixed: "isControlPlane ''/.well-known/webfinger''" "isControlPlane ''/actor''" "isControlPlane ''/inbox''"
    by code_simp+
  have "index_byte u CHR ''/'' = None" using assms(1) by simp
  then have user: "isControlPlane (''/users/'' @ u)"
    unfolding isControlPlane_def pathUsers_def trim_prefix_append by simp
  have "index_byte (u @ ''/inbox'') CHR ''/'' = Some (length u)"
    using index_byte_append [OF assms(1), of "''inbox''"] by simp
  then have "isControlPlane (''/users/'' @ u @ ''/inbox'')"
    unfolding isControlPlane_def pathUsers_def trim_prefix_append by simp
  with fixed user assms(2) show ?thesis by blast
qed

lemma client_any_global:
  assumes "run_state (client B ip) (rl, w) = (lm, (rl, w1))"
  shows "run_state (client B ip) (rl\<lparr>rl_global := g\<rparr>, w) = (lm, (rl\<lparr>rl_global := g\<rparr>, w1))"
  using client_ignores_global [of B ip g rl w] assms by simp

text \<open>The answer to a request that is refused.\<close>

definition too_many :: "'l rateLimiters \<Rightarrow> response \<times> job option" where
  "too_many rl = ((http_error ''rate limit exceeded'' 429)
     \<lparr>rp_header := [(''Retry-After'', show_nat (nat (rl_window rl div 1000000000)))]\<rparr>, None)"

text \<open>
  C27: the federation endpoints stay open under load.  However the shared budget stands, a request for
  WebFinger, the instance actor, the shared inbox, a user's actor document or a user's inbox, from a
  client within its own budget, is answered exactly as the router answers it; a client over its own
  budget gets a 429 that names the window, and the router does not see its request; and every other
  path is refused in the same way while the shared budget is spent.
\<close>

theorem federation_endpoints_stay_open:
  assumes client: "run_state (client B ip) (rl, w) = (lm, (rl, w1))"
  shows "(lim_locked B lm w1 = (False, w2) \<and> CHR ''/'' \<notin> set u \<and>
      ir_path r \<in> {''/.well-known/webfinger'', ''/actor'', ''/inbox'', ''/users/'' @ u, ''/users/'' @ u @ ''/inbox''} \<longrightarrow>
        (\<forall>g. \<exists>ls. limited_routes B S ip r (rl\<lparr>rl_global := g\<rparr>, w) s
          = (fst (run_state (routes S r) s), ls, snd (run_state (routes S r) s)))) \<and>
    (lim_locked B lm w1 = (True, w2) \<longrightarrow>
        (\<forall>g. limited_routes B S ip r (rl\<lparr>rl_global := g\<rparr>, w) s = (too_many rl, (rl\<lparr>rl_global := g\<rparr>, w2), s))) \<and>
    (lim_locked B lm w1 = (False, w2) \<and> \<not> isControlPlane (ir_path r) \<and> lim_locked B (rl_global rl) w2 = (True, w3) \<longrightarrow>
        limited_routes B S ip r (rl, w) s = (too_many rl, (rl, w3), s))"
proof (intro conjI impI allI; (elim conjE)?)
  fix g
  assume "lim_locked B lm w1 = (False, w2)" "CHR ''/'' \<notin> set u"
    "ir_path r \<in> {''/.well-known/webfinger'', ''/actor'', ''/inbox'', ''/users/'' @ u, ''/users/'' @ u @ ''/inbox''}"
  then have "\<exists>ls. run_state (middleware B ip (ir_path r)) (rl\<lparr>rl_global := g\<rparr>, w) = (Inr (), ls)"
    using federation_control [of u "ir_path r"] client_any_global [OF client, of g] by (simp add: middleware_def)
  then show "\<exists>ls. limited_routes B S ip r (rl\<lparr>rl_global := g\<rparr>, w) s
      = (fst (run_state (routes S r) s), ls, snd (run_state (routes S r) s))"
    by (auto simp: limited_routes_def split: prod.split)
next
  fix g
  assume "lim_locked B lm w1 = (True, w2)"
  then show "limited_routes B S ip r (rl\<lparr>rl_global := g\<rparr>, w) s = (too_many rl, (rl\<lparr>rl_global := g\<rparr>, w2), s)"
    using client_any_global [OF client, of g] by (simp add: middleware_def limited_routes_def too_many_def)
next
  assume "lim_locked B lm w1 = (False, w2)" "\<not> isControlPlane (ir_path r)" "lim_locked B (rl_global rl) w2 = (True, w3)"
  then show "limited_routes B S ip r (rl, w) s = (too_many rl, (rl, w3), s)"
    using client by (simp add: middleware_def limited_routes_def too_many_def)
qed

lemma federation_endpoints_stay_open_witness:
  "\<exists>ls. limited_routes stuck_lib sample_server ''203.0.113.7'' (sample_get ''/users/alice'' []) (stuck_limiters, 0) (start_state [])
    = (fst (run_state (routes sample_server (sample_get ''/users/alice'' [])) (start_state [])), ls,
       snd (run_state (routes sample_server (sample_get ''/users/alice'' [])) (start_state [])))"
proof -
  have c: "run_state (client stuck_lib ''203.0.113.7'') (stuck_limiters, 0) = (1, (stuck_limiters, 0))"
    by (simp add: client_def stuck_lib_def)
  have l: "lim_locked stuck_lib 1 0 = (False, 0)" by (simp add: stuck_lib_def)
  have p: "ir_path (sample_get ''/users/alice'' []) = ''/users/'' @ ''alice''" "CHR ''/'' \<notin> set ''alice''"
    by (simp_all add: sample_get_def)
  have g: "stuck_limiters\<lparr>rl_global := 0\<rparr> = stuck_limiters" by (simp add: stuck_limiters_def)
  have "\<forall>g. \<exists>ls. limited_routes stuck_lib sample_server ''203.0.113.7'' (sample_get ''/users/alice'' [])
        (stuck_limiters\<lparr>rl_global := g\<rparr>, 0) (start_state [])
      = (fst (run_state (routes sample_server (sample_get ''/users/alice'' [])) (start_state [])), ls,
         snd (run_state (routes sample_server (sample_get ''/users/alice'' [])) (start_state [])))"
    using federation_endpoints_stay_open [OF c, of 0 "''alice''" "sample_get ''/users/alice'' []", THEN conjunct1] l p by blast
  from spec [OF this, of 0] show ?thesis unfolding g .
qed

end
