(* ===== verification/Main_Run.thy ===== *)
theory Main_Run
  imports Front_Door Federation
begin

text \<open>
  The life of the process (\<open>main\<close> of \<open>main.go\<close>): the fatal steps, the parts it starts in the order it
  starts them, and what a signal or a listener that fails makes of them.  The Tailscale node is an
  operation of its library, and so are the listeners; a part that runs in its own goroutine is logged
  when it is started and when it is told to stop.
\<close>

section \<open>Starting\<close>

datatype main_fatal = FunnelFailed | NoDNSName | NoIdentity key_error

datatype main_event =
    FunnelUp
  | Network net_event
  | NodeRoutes string
  | ScannerStarted string
  | DrainStarted
  | PublicServer string
  | LogsServer string
  | AppCancelled
  | PublicShutdown
  | LogsShutdown
  | FunnelClosed

type_synonym ('w, 'a) boot = "('w \<times> main_event list, 'a) state"

definition boot_op :: "('w \<Rightarrow> 'a \<times> 'w) \<Rightarrow> ('w, 'a) boot" where
  "boot_op f = State (\<lambda>(w, lg). let (a, w') = f w in (a, (w', lg)))"

definition boot_log :: "main_event list \<Rightarrow> ('w, unit) boot" where
  "boot_log es = State (\<lambda>(w, lg). ((), (w, lg @ es)))"

text \<open>Joining the network logs its own events.\<close>

definition boot_net :: "('w, 'a) net \<Rightarrow> ('w, 'a) boot" where
  "boot_net m = State (\<lambda>(w, lg). case run_state m (w, []) of (a, (w', ns)) \<Rightarrow> (a, (w', lg @ map Network ns)))"

text \<open>
  \<open>ts.Up\<close>, given the host name, the directory and the auth key of the node: nothing when it fails, and
  otherwise the DNS name of the node, which has none when its status is empty.
\<close>

type_synonym 'w funnel_up = "string \<Rightarrow> string \<Rightarrow> string \<Rightarrow> 'w \<Rightarrow> string option option \<times> 'w"

record 's main_proc =
  pr_host :: string
  pr_key :: 's
  pr_pem :: string
  pr_client :: "client option"
  pr_logsAddr :: string

text \<open>What is started once the host and the identity are there and joining the network has been tried.\<close>

definition started_parts :: "string \<Rightarrow> client option \<Rightarrow> string \<Rightarrow> main_event list" where
  "started_parts host cli logsAddr =
     (if cli = None then [] else [NodeRoutes defaultOwnerHandle, ScannerStarted defaultOwnerHandle]) @
     [DrainStarted, PublicServer host] @ (if logsAddr = [] then [] else [LogsServer logsAddr])"

definition main_start ::
  "'w funnel_up \<Rightarrow> ('w, 's, 'k) key_lib \<Rightarrow> 'w net_lib \<Rightarrow> (string \<Rightarrow> string) \<Rightarrow> ('w, main_fatal + 's main_proc) boot" where
  "main_start up K T getenv = do {
     st \<leftarrow> boot_op (up (envOr getenv ''GATEWAY_FUNNEL_HOSTNAME'' ''warpnet-gw'')
       (envOr getenv ''GATEWAY_FUNNEL_DIR'' ''fediverse-gateway-tsnet'') (getenv ''TS_AUTHKEY''));
     (case st of
        None \<Rightarrow> ret (Inl FunnelFailed)
      | Some dns \<Rightarrow> do {
          boot_log [FunnelUp];
          (case main_host (case dns of None \<Rightarrow> [] | Some d \<Rightarrow> d) of
             None \<Rightarrow> ret (Inl NoDNSName)
           | Some host \<Rightarrow> do {
               i \<leftarrow> boot_op (run_state (signing_identity K (envOr getenv ''GATEWAY_KEY'' ''fediverse-gateway-key.pem'')));
               (case i of
                  Inl e \<Rightarrow> ret (Inl (NoIdentity e))
                | Inr (key, pem) \<Rightarrow> do {
                    j \<leftarrow> boot_net (connectNetwork T getenv);
                    let cli = (case j of Inl e \<Rightarrow> None | Inr c \<Rightarrow> Some c);
                    boot_log (started_parts host cli (getenv ''GATEWAY_LOGS_ADDR''));
                    ret (Inr \<lparr>pr_host = host, pr_key = key, pr_pem = pem, pr_client = cli,
                      pr_logsAddr = getenv ''GATEWAY_LOGS_ADDR''\<rparr>)
                  })
             })
        })
   }"

section \<open>Ending\<close>

text \<open>
  A signal ends the process in order; the public listener ends it at once when it cannot be opened or
  stops serving.  The listener of the logs only logs its failure.
\<close>

datatype main_ending = Signalled | ListenFailed | ServeFailed

definition main_exit :: "main_ending \<Rightarrow> 's main_proc \<Rightarrow> main_event list" where
  "main_exit en p = (case en of
     ListenFailed \<Rightarrow> []
   | ServeFailed \<Rightarrow> []
   | Signalled \<Rightarrow> [AppCancelled] @
       (if pr_client p = None then [] else map Network (snd (snd (run_state close_client ((), []))))) @
       [PublicShutdown] @ (if pr_logsAddr p = [] then [] else [LogsShutdown]) @ [FunnelClosed])"

section \<open>What is up, and what it rests on\<close>

text \<open>
  The host and the DHT; the Tailscale node; the scanner with its pollers and the watchdog, which run
  under the context of the process; the routes on the host; the two HTTP servers.
\<close>

record parts =
  up_net :: "bool \<times> bool"
  up_funnel :: bool
  up_pollers :: bool
  up_drain :: bool
  up_routes :: bool
  up_public :: bool
  up_logs :: bool

definition no_parts :: parts where
  "no_parts = \<lparr>up_net = (False, False), up_funnel = False, up_pollers = False, up_drain = False, up_routes = False,
     up_public = False, up_logs = False\<rparr>"

fun main_apply :: "main_event \<Rightarrow> parts \<Rightarrow> parts" where
  "main_apply FunnelUp r = r\<lparr>up_funnel := True\<rparr>"
| "main_apply (Network e) r = r\<lparr>up_net := net_open e (up_net r), up_routes := up_routes r \<and> fst (net_open e (up_net r))\<rparr>"
| "main_apply (NodeRoutes _) r = r\<lparr>up_routes := True\<rparr>"
| "main_apply (ScannerStarted _) r = r\<lparr>up_pollers := True\<rparr>"
| "main_apply DrainStarted r = r\<lparr>up_drain := True\<rparr>"
| "main_apply (PublicServer _) r = r\<lparr>up_public := True\<rparr>"
| "main_apply (LogsServer _) r = r\<lparr>up_logs := True\<rparr>"
| "main_apply AppCancelled r = r\<lparr>up_pollers := False, up_drain := False\<rparr>"
| "main_apply PublicShutdown r = r\<lparr>up_public := False\<rparr>"
| "main_apply LogsShutdown r = r\<lparr>up_logs := False\<rparr>"
| "main_apply FunnelClosed r = r\<lparr>up_funnel := False\<rparr>"

text \<open>Nothing runs without what it rests on.\<close>

definition supported :: "parts \<Rightarrow> bool" where
  "supported r \<longleftrightarrow> (up_pollers r \<longrightarrow> up_net r = (True, True)) \<and> (up_routes r \<longrightarrow> fst (up_net r)) \<and>
     (up_public r \<longrightarrow> up_funnel r)"

fun always_supported :: "main_event list \<Rightarrow> parts \<Rightarrow> bool" where
  "always_supported [] r \<longleftrightarrow> supported r"
| "always_supported (e # es) r \<longleftrightarrow> supported r \<and> always_supported es (main_apply e r)"

lemma always_take: "always_supported es r \<Longrightarrow> supported (fold main_apply (take k es) r)"
proof (induction es arbitrary: k r)
  case (Cons e es)
  then show ?case by (cases k) auto
qed simp

lemma always_append:
  "always_supported (es @ es') r \<longleftrightarrow> always_supported es r \<and> always_supported es' (fold main_apply es r)"
proof (induction es arbitrary: r)
  case Nil
  then show ?case by (cases es') auto
qed simp

lemma network_parts:
  "\<not> up_routes r \<Longrightarrow> fold main_apply (map Network ns) r = r\<lparr>up_net := fold net_open ns (up_net r)\<rparr>"
  by (induction ns arbitrary: r) simp_all

lemma network_supported:
  "\<not> up_routes r \<Longrightarrow> \<not> up_pollers r \<Longrightarrow> \<not> up_public r \<Longrightarrow> always_supported (map Network ns) r"
  by (induction ns arbitrary: r) (simp_all add: supported_def)

section \<open>The runs of main\<close>

lemma run_boot [simp]:
  "run_state (boot_op f) (w, lg) = (fst (f w), (snd (f w), lg))"
  "run_state (boot_log es) (w, lg) = ((), (w, lg @ es))"
  "run_state (boot_net m) (w, lg) = (case run_state m (w, []) of (a, (w', ns)) \<Rightarrow> (a, (w', lg @ map Network ns)))"
  by (simp_all add: boot_op_def boot_log_def boot_net_def split: prod.split)

lemma start_cases:
  assumes "run_state (main_start up K T getenv) (w, []) = (r, (w', es))"
  obtains e where "r = Inl e" "es = (if e = FunnelFailed then [] else [FunnelUp])"
  | p w0 w1 w2 ns j where "r = Inr p" "es = [FunnelUp] @ map Network ns @ started_parts (pr_host p) (pr_client p) (pr_logsAddr p)"
    "run_state (signing_identity K (envOr getenv ''GATEWAY_KEY'' ''fediverse-gateway-key.pem'')) w0 = (Inr (pr_key p, pr_pem p), w1)"
    "run_state (connectNetwork T getenv) (w1, []) = (j, (w2, ns))"
    "pr_client p = (case j of Inl e \<Rightarrow> None | Inr c \<Rightarrow> Some c)" "pr_logsAddr p = getenv ''GATEWAY_LOGS_ADDR''"
proof -
  let ?st = "up (envOr getenv ''GATEWAY_FUNNEL_HOSTNAME'' ''warpnet-gw'')
    (envOr getenv ''GATEWAY_FUNNEL_DIR'' ''fediverse-gateway-tsnet'') (getenv ''TS_AUTHKEY'') w"
  let ?i = "signing_identity K (envOr getenv ''GATEWAY_KEY'' ''fediverse-gateway-key.pem'')"
  show thesis
  proof (cases "fst ?st")
    case None
    with assms show thesis by (intro that(1)) (auto simp: main_start_def)
  next
    case dns: (Some dns)
    show thesis
    proof (cases "main_host (case dns of None \<Rightarrow> [] | Some d \<Rightarrow> d)")
      case None
      with assms dns show thesis by (intro that(1)) (auto simp: main_start_def)
    next
      case host: (Some host)
      obtain i w1 where i: "run_state ?i (snd ?st) = (i, w1)" by fastforce
      show thesis
      proof (cases i)
        case (Inl e)
        with assms dns host i show thesis by (intro that(1)) (auto simp: main_start_def)
      next
        case (Inr a)
        obtain key pem where a: "a = (key, pem)" by fastforce
        obtain j w2 ns where j: "run_state (connectNetwork T getenv) (w1, []) = (j, (w2, ns))" by (metis prod_cases3)
        from assms dns host i Inr a j show thesis
          by (intro that(2)) (auto simp: main_start_def Let_def)
      qed
    qed
  qed
qed

lemma connect_opens:
  assumes "run_state (connectNetwork T getenv) (w, []) = (j, (w', ns))"
  shows "fold net_open ns (False, False) = (case j of Inl e \<Rightarrow> (False, False) | Inr c \<Rightarrow> (True, True))"
proof (cases "networkEntries T (envOr getenv ''NODE_NETWORK'' defaultWarpnetNetwork)")
  case (Inl e)
  then show ?thesis using assms by (auto simp: connectNetwork_def)
next
  case (Inr entries)
  consider e where "j = Inl e" "ns = []" | priv opts w1 where
    "run_state (join_network T (envOr getenv ''NODE_NETWORK'' defaultWarpnetNetwork) entries priv opts) (w1, []) = (j, (w', ns))"
    using assms Inr by (auto simp: connectNetwork_def Let_def split: option.splits if_splits)
  then show ?thesis
  proof cases
    case (2 priv opts w1)
    from join_clean [OF 2] show ?thesis by (auto split: sum.splits)
  qed simp
qed

lemma started_apply:
  "fold main_apply (started_parts host cli addr) r = r\<lparr>up_routes := up_routes r \<or> cli \<noteq> None,
     up_pollers := up_pollers r \<or> cli \<noteq> None, up_drain := True, up_public := True, up_logs := up_logs r \<or> addr \<noteq> []\<rparr>"
  by (auto simp: started_parts_def)

definition running_parts :: "'s main_proc \<Rightarrow> parts" where
  "running_parts p = (let j = pr_client p \<noteq> None in
     \<lparr>up_net = (j, j), up_funnel = True, up_pollers = j, up_drain = True, up_routes = j, up_public = True,
      up_logs = (pr_logsAddr p \<noteq> [])\<rparr>)"

lemma exit_apply: "fold main_apply (main_exit Signalled p) (running_parts p) = no_parts"
  by (auto simp: main_exit_def running_parts_def no_parts_def close_client_def Let_def)

lemma exit_supported: "always_supported (main_exit Signalled p) (running_parts p)"
  by (auto simp: main_exit_def running_parts_def supported_def close_client_def Let_def)

text \<open>
  C36: the process starts and stops cleanly.  A fatal start has joined nothing and served nothing; a start
  that succeeds serves with a key whose published text is its own, and runs the scanner and the node
  routes exactly if Warpnet was joined, which it need not be; a signal then leaves nothing up; and at no
  point of starting or stopping do the pollers run without the network, the routes without the host or
  the public server without the Tailscale node.
\<close>

theorem process_starts_and_stops:
  assumes "run_state (main_start up K T getenv) (w, []) = (r, (w', es))"
  shows "case r of
     Inl e \<Rightarrow> es = (if e = FunnelFailed then [] else [FunnelUp])
   | Inr p \<Rightarrow> publicKeyPEM K (pr_key p) = Inr (pr_pem p) \<and>
       fold main_apply es no_parts = running_parts p \<and>
       fold main_apply (es @ main_exit Signalled p) no_parts = no_parts \<and>
       (\<forall>k. supported (fold main_apply (take k (es @ main_exit Signalled p)) no_parts))"
  using assms
proof (cases rule: start_cases)
  case (2 p w0 w1 w2 ns j)
  note net = connect_opens [OF 2(4)]
  let ?r1 = "no_parts\<lparr>up_funnel := True\<rparr>"
  let ?r2 = "?r1\<lparr>up_net := fold net_open ns (False, False)\<rparr>"
  have n: "fold main_apply (map Network ns) ?r1 = ?r2" by (simp add: network_parts no_parts_def)
  have running: "fold main_apply (started_parts (pr_host p) (pr_client p) (pr_logsAddr p)) ?r2 = running_parts p"
    unfolding started_apply net using 2(5) by (auto simp: no_parts_def running_parts_def Let_def split: sum.split)
  have es: "fold main_apply es no_parts = running_parts p"
    unfolding 2(2) using n running by simp
  have "always_supported (started_parts (pr_host p) (pr_client p) (pr_logsAddr p)) ?r2"
    unfolding net using 2(5) by (auto simp: started_parts_def no_parts_def supported_def split: sum.splits)
  moreover have "always_supported (map Network ns) ?r1" by (rule network_supported) (simp_all add: no_parts_def)
  ultimately have "always_supported es no_parts"
    unfolding 2(2) by (simp add: always_append n) (simp add: supported_def no_parts_def)
  then have "always_supported (es @ main_exit Signalled p) no_parts"
    unfolding always_append es using exit_supported by blast
  from always_take [OF this]
  have "\<forall>k. supported (fold main_apply (take k (es @ main_exit Signalled p)) no_parts)" ..
  moreover have "fold main_apply (es @ main_exit Signalled p) no_parts = no_parts"
    using exit_apply [of p] es by simp
  moreover have "publicKeyPEM K (pr_key p) = Inr (pr_pem p)" using 2(3) by (simp add: run_identity)
  ultimately show ?thesis unfolding 2(1) sum.case using es by blast
qed simp

text \<open>A start with a key on the disk, on a network whose name is unknown.\<close>

definition sample_disk_net :: "string option net_lib" where
  "sample_disk_net = \<lparr>nt_parse = (\<lambda>a. None), nt_seed_key = Some, nt_p2p_key = Some, nt_version = Some,
     nt_psk = (\<lambda>n v. Some (n @ v)), nt_resources = (\<lambda>w. (True, w)), nt_host = (\<lambda>_ w. (Some ''gw'', w)),
     nt_dht = (\<lambda>_ _ w. (True, w)), nt_connect = (\<lambda>a w. (True, w)), nt_bootstrap = (\<lambda>w. w)\<rparr>"

lemma process_starts_and_stops_witness:
  "\<exists>p es w'. run_state (main_start (\<lambda>_ _ _ w. (Some (Some ''gw.example.''), w)) sample_key_lib sample_disk_net (\<lambda>_. [])) (Some ''Rk1'', [])
      = (Inr p, (w', es)) \<and> pr_host p = ''gw.example'' \<and> fold main_apply (es @ main_exit Signalled p) no_parts = no_parts"
proof -
  have parse: "networkEntries sample_disk_net x = Inl NoEntryPeers" for x
    by (simp add: networkEntries_def sample_disk_net_def map_filter_def)
  have h: "main_host ''gw.example.'' = Some ''gw.example''" by code_simp
  have i: "run_state (signing_identity sample_key_lib p) (Some ''Rk1'') = (Inr (''k1'', ''P1k''), Some ''Rk1'')" for p
    by (simp add: signing_identity_def loadOrCreateKey_def publicKeyPEM_def sample_key_lib_def)
  obtain p es where run: "run_state (main_start (\<lambda>_ _ _ w. (Some (Some ''gw.example.''), w)) sample_key_lib sample_disk_net (\<lambda>_. []))
      (Some ''Rk1'', []) = (Inr p, (Some ''Rk1'', es))" and p: "pr_host p = ''gw.example''"
    by (simp add: main_start_def h i connectNetwork_def parse)
  from process_starts_and_stops [OF run] run p show ?thesis by auto
qed

end
