(* ===== verification/Spec2Isabelle.thy ===== *)
theory Spec2Isabelle
  imports Log_Ring Flights Signing Tweet_Types Peer_View Scanner Seen_Cache Traces Main_Run
begin

text \<open>
  A verification development of the Warpnet ActivityPub gateway (\<open>src/\<close>, Go).  The gateway is a
  bridge between the Warpnet peer-to-peer network and the Fediverse: it serves Warpnet users as
  ActivityPub actors over HTTP, translates inbound activities into requests to Warpnet nodes, federates
  the posts and follows of Warpnet users, and answers Warpnet nodes that read Mastodon accounts.

  \<^bold>\<open>How the program is modelled.\<close>  A Go string is a list of 8-bit characters.  Decoded JSON is the
  datatype \<open>json\<close> with objects as association lists, and a nil map is \<^const>\<open>None\<close>.  Pure functions of the
  source are functions here.  A function with effects is a state monad over \<open>gw_state\<close>: an arbitrary
  world, on which the operations of libraries act (\<open>gw_env\<close>, \<open>node_env\<close>, \<open>limiter_lib\<close> and other records
  of parameters), the list of good member nodes, and a trace of every HTTP exchange and every node
  request.  Errors are the constructors of \<open>gw_error\<close> and \<open>url_error\<close>; messages and logging are left out.
  Goroutines that are waited for are run in order, the results being collected by position in the
  source; interleavings that matter are step relations (the delivery pool, the race between nodes, the pollers' contexts, identical
  requests).

  \<^bold>\<open>The theories, in the order of the code.\<close>
  \<^item> \<open>Prelude\<close>, \<open>Go_Strings\<close>, \<open>Go_Base64\<close>, \<open>Go_Netip\<close>, \<open>Go_Url\<close>, \<open>Go_Url_Query\<close>: what the source uses of
    Go's standard library (\<open>strings\<close>, \<open>encoding/base64\<close>, \<open>net/netip\<close>, \<open>net/url\<close>), executable.
  \<^item> \<open>Json\<close>, \<open>Warp_Types\<close>, \<open>Actor_Ids\<close>: loosely typed values, documents and Warpnet's types
    (\<open>activitypub.go\<close>, \<open>warpdto.go\<close>, \<open>source.go\<close>), and identifiers (\<open>followers.go\<close>, \<open>inbound.go\<close>).
  \<^item> \<open>Mastodon_Map\<close>, \<open>Rest_Map\<close>: reading notes, actors and REST statuses (\<open>mastodon-map.go\<close>, the pure part
    of \<open>mastodon-bridge.go\<close>).
  \<^item> \<open>Gateway_Urls\<close>, \<open>Notes\<close>: the gateway's URLs and SSRF guard (\<open>server.go\<close>), rendered documents (\<open>notes.go\<close>,
    \<open>badge.go\<close>, \<open>buildActor\<close>).
  \<^item> \<open>Gw_Monad\<close>, \<open>Http_Sig\<close>, \<open>Transport\<close>, \<open>Flights\<close>: effects, the signature policy (\<open>httpsig.go\<close>), every outbound
    fetch and delivery, and the callers of \<open>signedGet\<close> as they interleave over its cache and its flights
    (\<open>server.go\<close>).
  \<^item> \<open>Bridge\<close>, \<open>Ap_Gateway\<close>, \<open>Bridge_Facts\<close>, \<open>Tweet_Types\<close>: the Mastodon bridge over an abstract transport, the gateway
    as that transport, facts about its operations, and the type of the tweets it
    answers with (\<open>mastodon-bridge.go\<close>, \<open>outbound.go\<close>).
  \<^item> \<open>Followers\<close>, \<open>Node_Client\<close>: the follower stores (\<open>followers.go\<close>, \<open>nodefollowers.go\<close>) and the client of
    Warpnet nodes (\<open>nodeclient.go\<close>, \<open>discovery.go\<close>).
  \<^item> \<open>Outbound\<close>, \<open>Federation\<close>, \<open>Pollers\<close>, \<open>Scanner\<close>, \<open>Seen_Cache\<close>: fan-out, the scanner and the pollers (\<open>publish.go\<close>, \<open>outbound.go\<close>,
    \<open>tweetpoller.go\<close>); and how they run over time: pollers under contexts as a step relation, the
    rounds of one poller, the pollers as \<open>start\<close> makes them, the scanner's loop as an automaton per user, and what a poller publishes again
    when its bounded cache forgets.
  \<^item> \<open>Inbound\<close>, \<open>Inbox\<close>: translation of activities (\<open>inbound.go\<close>) and the inbox (\<open>inbox.go\<close>).
  \<^item> \<open>Signing\<close>: in whose name the POSTs of the bridge, the pollers, the inbox and a gossiped tweet are
    signed.
  \<^item> \<open>Server\<close>, \<open>Server_Facts\<close>: the HTTP surface (\<open>server.go\<close>, \<open>notes.go\<close>, \<open>mediaproxy.go\<close>), and facts about
    requests through the whole router: discovery, posts, media and logs.
  \<^item> \<open>Wire\<close>, \<open>Signed_Delivery\<close>, \<open>Interop\<close>, \<open>Peer_View\<close>: the documents as they are encoded (the field tags of
    \<open>activitypub.go\<close>), and two gateways facing each other: what one delivers, signed by \<open>postSigned\<close>, the
    inbox of the other verifies, dispatches and translates; and what one publishes, the other reads.
  \<^item> \<open>Node_Server\<close>: the routes answered to Warpnet nodes (\<open>nodeserver.go\<close>), and both ends of a stream
    (\<open>streamHandler\<close>, and \<open>streamSend\<close> of \<open>warpwire.go\<close>).
  \<^item> \<open>Log_Ring\<close>, \<open>Traces\<close>, \<open>Rate_Limit\<close>, \<open>Rate_Watch\<close>, \<open>Drain\<close>: the log buffer (\<open>log-buffer.go\<close>), the traces of
    requests (\<open>trace.go\<close>), rate limiting (\<open>rate-limit.go\<close>), the specification of its watchdog, and the
    watchdog's loop with requests served between its ticks.
  \<^item> \<open>Keys\<close>, \<open>Start_Up\<close>, \<open>Front_Door\<close>, \<open>Main_Run\<close>: the signing key (\<open>keys.go\<close>), joining the network
    (\<open>connectNetwork\<close>) and the wiring of the components, the throttle in front of the router, and the
    life of the process from its start to its exit (\<open>main.go\<close>).

  \<^bold>\<open>Interfaces.\<close>  The source's Go interfaces are records of operations, and what their clients rely on
  is a locale: \<open>ap_reads\<close> for what the bridge reads with and, extending it, \<open>ap_contract\<close> for its whole
  transport (both interpreted on the gateway), \<open>requester\<close> for the
  connection to Warpnet nodes (interpreted on the node client), and \<open>follower_store\<close> (interpreted on
  both stores).

  \<^bold>\<open>What is shown.\<close>  Outbound requests never leave the SSRF guard, from any operation of the bridge,
  the pollers, the fan-out or the routes served to nodes; inbound work is authenticated, over HTTP and
  over streams, and attributed to its signer; the gateway signs in a user's name only for that user, and
  its inbox is no signing oracle; identical requests collapse onto one, and who waited for it shares its
  result, a cancellation included; documents the gateway publishes can be resolved back; what
  one gateway delivers (follows, replies, likes, boosts and their undoing), another one accepts and
  turns into the request to Warpnet that it stands for;
  timelines, threads and media stay within their bounds, and the tweets answered are well typed; the
  pool, the scanner, the pollers, the race between nodes, the log ring and the task queue keep their
  invariants; a user has live pollers exactly while it is federated, and is federated as the reads of
  its followers and the accepted Follows say; a follow poller tells exactly the changes it has read; the watchdog frees exactly the limiters that are stuck; the federation endpoints
  stay open when the shared budget is spent; the gateway's key survives a restart; joining the network
  is all or nothing; the process leaves nothing up; and the classification of paths agrees with the
  routing.

  \<^bold>\<open>Bounds.\<close>  Loops over pages are recursions on the number of pages that the source allows.  The
  redirect loop terminates because the redirect limit decreases.  The race between nodes is a relation,
  and a function of a finite schedule of replies and ticks.

  \<^bold>\<open>Contracts of third-party code.\<close>  Where a property needs more of a library than its type, it is a named
  hypothesis: \<open>signature_scheme\<close> (what the HTTP signature library writes and that it verifies what was
  signed), \<open>http_dates\<close>, \<open>json_wire\<close> (a decoder reads back what the encoder wrote), \<open>reads_actor\<close> (the peer
  can fetch the signer's actor document), \<open>strips_paragraph\<close>, \<open>seen_contract\<close> (a bounded cache whose
  entries expire), \<open>lru_contract\<close> and \<open>singleflight_contract\<close> (the response cache and the flights), \<open>coders_ok\<close> and \<open>files_ok\<close>; each is
  instantiated by concrete functions in the witnesses.

  \<^bold>\<open>Not modelled.\<close>  The text of log lines, \<open>logRequests\<close> included; the Tailscale node and the listeners
  beyond whether they come up; the embedded file server of \<open>handleStatic\<close>.  The times between the rounds
  of the pollers and the scanner are not modelled; how many rounds there are, and how they interleave
  with starts and stops, is arbitrary.  Cryptography, files, HTTP, the text of JSON values, the libp2p
  host and the DHT, caches, the retrier and the limiters are parameters.
\<close>

end
